theory Spec2Isabelle
  imports Complex_Main "HOL-Library.Char_ord" "HOL-Library.List_Lexorder"
begin

section \<open>Floating-point values\<close>

text \<open>
  The display works on C++ \<^verbatim>\<open>float\<close> values (\<^verbatim>\<open>Ogre::Real\<close>) and, in one product, on
  \<^verbatim>\<open>double\<close>. A floating-point value is a finite number, one of the two infinities, or
  NaN; a finite value is carried as the real number it denotes. Arithmetic follows
  IEEE 754: the exact result is rounded to the nearest value of the format, ties to the
  even significand, with gradual underflow and overflow to infinity. Expressions are
  taken to be evaluated in the precision of their type (no extended precision, no fused
  multiply-add). The sign of zero is not modelled.
\<close>

datatype fl = Fin real | PInf | NInf | NaN

text \<open>\<^verbatim>\<open>std::isfinite\<close>\<close>

fun isfinite :: "fl \<Rightarrow> bool" where
  "isfinite (Fin r) = True"
| "isfinite PInf = False"
| "isfinite NInf = False"
| "isfinite NaN = False"

subsection \<open>Rounding\<close>

definition pow2 :: "int \<Rightarrow> real" where
  "pow2 k = (if 0 \<le> k then 2 ^ nat k else 1 / 2 ^ nat (- k))"

text \<open>
  The exponent of a positive number \<open>x\<close> in a format with exponents from \<open>emin\<close> to
  \<open>emax\<close>: the greatest \<open>e\<close> in that range with \<open>2\<^sup>e \<le> x\<close>, and \<open>emin\<close> for the
  numbers below \<open>2\<^bsup>emin\<^esup>\<close>. The search starts at the exponent of 1 and walks up or
  down.
\<close>

function expo_down :: "int \<Rightarrow> int \<Rightarrow> real \<Rightarrow> int" where
  "expo_down emin e x = (if e \<le> emin \<or> pow2 e \<le> x then e else expo_down emin (e - 1) x)"
  by pat_completeness auto
termination
  by (relation "measure (\<lambda>(emin, e, x). nat (e - emin))") auto

function expo_up :: "int \<Rightarrow> int \<Rightarrow> real \<Rightarrow> int" where
  "expo_up emax e x = (if emax \<le> e \<or> x < pow2 (e + 1) then e else expo_up emax (e + 1) x)"
  by pat_completeness auto
termination
  by (relation "measure (\<lambda>(emax, e, x). nat (emax - e))") auto

declare expo_down.simps [simp del] expo_up.simps [simp del]

definition expo :: "int \<Rightarrow> int \<Rightarrow> real \<Rightarrow> int" where
  "expo emin emax x = (if 1 \<le> x then expo_up emax 0 x else expo_down emin (- 1) x)"

text \<open>Rounding a real to the nearest integer, a tie to the even one.\<close>

definition rne :: "real \<Rightarrow> int" where
  "rne x =
     (let f = \<lfloor>x\<rfloor>; d = x - of_int f
      in if d < 1 / 2 then f else if 1 / 2 < d then f + 1 else if even f then f else f + 1)"

text \<open>
  Rounding to the format with \<open>p\<close> significand bits and exponents from \<open>emin\<close> to
  \<open>emax\<close>: the number is rounded to a multiple of the unit in the last place of its
  exponent, and a result of magnitude \<open>2\<^bsup>emax+1\<^esup>\<close> is an infinity.
\<close>

definition round_to :: "nat \<Rightarrow> int \<Rightarrow> int \<Rightarrow> real \<Rightarrow> fl" where
  "round_to p emin emax x =
     (if x = 0 then Fin 0
      else
        let q = pow2 (expo emin emax \<bar>x\<bar> - (int p - 1));
            y = of_int (rne (x / q)) * q
        in if pow2 (emax + 1) \<le> \<bar>y\<bar> then (if 0 < x then PInf else NInf) else Fin y)"

text \<open>\<^verbatim>\<open>float\<close> is binary32 and \<^verbatim>\<open>double\<close> is binary64.\<close>

definition single :: "real \<Rightarrow> fl" where
  "single x = round_to 24 (- 126) 127 x"

definition double :: "real \<Rightarrow> fl" where
  "double x = round_to 53 (- 1022) 1023 x"

subsection \<open>Arithmetic\<close>

fun fneg :: "fl \<Rightarrow> fl" where
  "fneg (Fin r) = Fin (- r)"
| "fneg PInf = NInf"
| "fneg NInf = PInf"
| "fneg NaN = NaN"

text \<open>Sum and product, with the rounding of the format as first argument.\<close>

fun add_with :: "(real \<Rightarrow> fl) \<Rightarrow> fl \<Rightarrow> fl \<Rightarrow> fl" where
  "add_with rnd (Fin a) (Fin b) = rnd (a + b)"
| "add_with rnd NaN b = NaN"
| "add_with rnd a NaN = NaN"
| "add_with rnd PInf NInf = NaN"
| "add_with rnd NInf PInf = NaN"
| "add_with rnd PInf b = PInf"
| "add_with rnd a PInf = PInf"
| "add_with rnd NInf b = NInf"
| "add_with rnd a NInf = NInf"

text \<open>The sign of a non-NaN float: \<open>True\<close> for negative values.\<close>

fun fnegative :: "fl \<Rightarrow> bool" where
  "fnegative (Fin r) = (r < 0)"
| "fnegative NInf = True"
| "fnegative PInf = False"
| "fnegative NaN = False"

fun mul_with :: "(real \<Rightarrow> fl) \<Rightarrow> fl \<Rightarrow> fl \<Rightarrow> fl" where
  "mul_with rnd (Fin a) (Fin b) = rnd (a * b)"
| "mul_with rnd NaN b = NaN"
| "mul_with rnd a NaN = NaN"
| "mul_with rnd a b =
     (if a = Fin 0 \<or> b = Fin 0 then NaN
      else if fnegative a = fnegative b then PInf else NInf)"

text \<open>The operators on \<^verbatim>\<open>float\<close>, and the product on \<^verbatim>\<open>double\<close>.\<close>

definition fadd :: "fl \<Rightarrow> fl \<Rightarrow> fl" where
  "fadd = add_with single"

definition fsub :: "fl \<Rightarrow> fl \<Rightarrow> fl" where
  "fsub a b = fadd a (fneg b)"

definition fmul :: "fl \<Rightarrow> fl \<Rightarrow> fl" where
  "fmul = mul_with single"

definition dmul :: "fl \<Rightarrow> fl \<Rightarrow> fl" where
  "dmul = mul_with double"

text \<open>The comparison \<^verbatim>\<open>a >= b\<close>: false whenever an operand is NaN.\<close>

fun fge :: "fl \<Rightarrow> fl \<Rightarrow> bool" where
  "fge (Fin a) (Fin b) = (b \<le> a)"
| "fge NaN b = False"
| "fge a NaN = False"
| "fge PInf b = True"
| "fge a NInf = True"
| "fge a PInf = False"
| "fge NInf b = False"

text \<open>Arithmetic without rounding, for the example instance of the Ogre operations below.\<close>

definition exact_add :: "fl \<Rightarrow> fl \<Rightarrow> fl" where
  "exact_add = add_with Fin"

definition exact_sub :: "fl \<Rightarrow> fl \<Rightarrow> fl" where
  "exact_sub a b = exact_add a (fneg b)"

definition exact_mul :: "fl \<Rightarrow> fl \<Rightarrow> fl" where
  "exact_mul = mul_with Fin"

section \<open>Ogre value types\<close>

datatype Vector3 = Vector3 (vx: fl) (vy: fl) (vz: fl)

datatype Quaternion = Quaternion (qx: fl) (qy: fl) (qz: fl) (qw: fl)

datatype ColourValue = ColourValue (cr: fl) (cg: fl) (cb: fl) (ca: fl)

text \<open>
  \<^verbatim>\<open>Ogre::Vector3::squaredDistance\<close>: the squared length \<^verbatim>\<open>x * x + y * y + z * z\<close> of the
  difference, in \<^verbatim>\<open>float\<close>.
\<close>

definition squaredDistance :: "Vector3 \<Rightarrow> Vector3 \<Rightarrow> fl" where
  "squaredDistance a b =
     (let dx = fsub (vx a) (vx b); dy = fsub (vy a) (vy b); dz = fsub (vz a) (vz b)
      in fadd (fadd (fmul dx dx) (fmul dy dy)) (fmul dz dz))"

text \<open>
  The remaining Ogre operations the display calls are outside the repository and are
  taken as parameters: \<open>transform_point orientation position p\<close> is
  \<^verbatim>\<open>Ogre::Matrix4 transform(orientation); transform.setTrans(position); transform * p\<close>,
  and \<open>quat_mul\<close> is the quaternion product \<^verbatim>\<open>operator*\<close>.
\<close>

record ogre =
  transform_point :: "Quaternion \<Rightarrow> Vector3 \<Rightarrow> Vector3 \<Rightarrow> Vector3"
  quat_mul :: "Quaternion \<Rightarrow> Quaternion \<Rightarrow> Quaternion"

text \<open>
  An instance for concrete runs, in arithmetic without rounding: the Hamilton product,
  and the rotation matrix of the quaternion applied to the point, followed by the
  translation.
\<close>

definition hamilton :: "Quaternion \<Rightarrow> Quaternion \<Rightarrow> Quaternion" where
  "hamilton p q =
     Quaternion
       (exact_add
          (exact_sub (exact_add (exact_mul (qw p) (qx q)) (exact_mul (qx p) (qw q)))
             (exact_mul (qz p) (qy q)))
          (exact_mul (qy p) (qz q)))
       (exact_add
          (exact_sub (exact_add (exact_mul (qw p) (qy q)) (exact_mul (qy p) (qw q)))
             (exact_mul (qx p) (qz q)))
          (exact_mul (qz p) (qx q)))
       (exact_add
          (exact_sub (exact_add (exact_mul (qw p) (qz q)) (exact_mul (qz p) (qw q)))
             (exact_mul (qy p) (qx q)))
          (exact_mul (qx p) (qy q)))
       (exact_sub
          (exact_sub (exact_sub (exact_mul (qw p) (qw q)) (exact_mul (qx p) (qx q)))
             (exact_mul (qy p) (qy q)))
          (exact_mul (qz p) (qz q)))"

definition rotate_translate :: "Quaternion \<Rightarrow> Vector3 \<Rightarrow> Vector3 \<Rightarrow> Vector3" where
  "rotate_translate q t p =
     (let two = Fin 2; one = Fin 1;
          xx = exact_mul two (exact_mul (qx q) (qx q));
          yy = exact_mul two (exact_mul (qy q) (qy q));
          zz = exact_mul two (exact_mul (qz q) (qz q));
          xy = exact_mul two (exact_mul (qx q) (qy q));
          xz = exact_mul two (exact_mul (qx q) (qz q));
          yz = exact_mul two (exact_mul (qy q) (qz q));
          wx = exact_mul two (exact_mul (qw q) (qx q));
          wy = exact_mul two (exact_mul (qw q) (qy q));
          wz = exact_mul two (exact_mul (qw q) (qz q))
      in Vector3
           (exact_add
              (exact_add
                 (exact_add (exact_mul (exact_sub one (exact_add yy zz)) (vx p))
                    (exact_mul (exact_sub xy wz) (vy p)))
                 (exact_mul (exact_add xz wy) (vz p)))
              (vx t))
           (exact_add
              (exact_add
                 (exact_add (exact_mul (exact_add xy wz) (vx p))
                    (exact_mul (exact_sub one (exact_add xx zz)) (vy p)))
                 (exact_mul (exact_sub yz wx) (vz p)))
              (vy t))
           (exact_add
              (exact_add
                 (exact_add (exact_mul (exact_sub xz wy) (vx p))
                    (exact_mul (exact_add yz wx) (vy p)))
                 (exact_mul (exact_sub one (exact_add xx yy)) (vz p)))
              (vz t)))"

definition ogre_exact :: ogre where
  "ogre_exact = \<lparr>transform_point = rotate_translate, quat_mul = hamilton\<rparr>"

section \<open>Sanitising samples\<close>

text \<open>
  The sanity checks of \<^verbatim>\<open>processCoMTrajectory\<close> (lines 334-353) and of
  \<^verbatim>\<open>processContactTrajectory\<close> (lines 524-532): a position with a non-finite component is
  reset to zero, an orientation with a non-finite component to \<open>[0 0 0 1]\<close>.
\<close>

definition sanitize_point :: "Vector3 \<Rightarrow> Vector3" where
  "sanitize_point p =
     (if \<not> (isfinite (vx p) \<and> isfinite (vy p) \<and> isfinite (vz p))
      then Vector3 (Fin 0) (Fin 0) (Fin 0) else p)"

definition sanitize_quaternion :: "Quaternion \<Rightarrow> Quaternion" where
  "sanitize_quaternion q =
     (if \<not> (isfinite (qx q) \<and> isfinite (qy q) \<and> isfinite (qz q) \<and> isfinite (qw q))
      then Quaternion (Fin 0) (Fin 0) (Fin 0) (Fin 1) else q)"

section \<open>The distance test of the axes markers\<close>

text \<open>
  The test of \<^verbatim>\<open>pushBackCoMAxes\<close> (lines 583-586):
  \<^verbatim>\<open>sq_distant >= scale * scale * 0.0032\<close>, with the \<^verbatim>\<open>float\<close>
  \<^verbatim>\<open>sq_distant = axes_position.squaredDistance(last_point_position_)\<close>. The product
  \<^verbatim>\<open>scale * scale\<close> is a \<^verbatim>\<open>float\<close> product; \<^verbatim>\<open>0.0032\<close> is a \<^verbatim>\<open>double\<close> literal, so the
  second product and the comparison are in \<^verbatim>\<open>double\<close>, to which a \<^verbatim>\<open>float\<close> converts
  without change.
\<close>

definition should_emit :: "Vector3 \<Rightarrow> Vector3 \<Rightarrow> fl \<Rightarrow> bool" where
  "should_emit candidate last_emitted scale =
     fge (squaredDistance candidate last_emitted)
         (dmul (fmul scale scale) (double (32 / 10000)))"

section \<open>Messages\<close>

text \<open>
  \<^verbatim>\<open>state_msgs::ContactState\<close>, \<^verbatim>\<open>state_msgs::WholeBodyState\<close> and the trajectory of
  \<^verbatim>\<open>state_msgs::WholeBodyTrajectory\<close>, restricted to the fields the display reads. The
  components are the values after their conversion to \<^verbatim>\<open>float\<close>.
\<close>

record ContactState =
  contact_name :: string
  contact_position :: Vector3

record WholeBodyState =
  com_position :: Vector3
  base_orientation :: Quaternion
  contacts :: "ContactState list"

type_synonym WholeBodyTrajectory = "WholeBodyState list"

section \<open>Drawables\<close>

datatype LineStyle = BILLBOARDS | LINES | POINTS

text \<open>
  \<^verbatim>\<open>rviz::BillboardLine\<close>: the chain elements are the points added so far, each with its
  colour; \<^verbatim>\<open>setColor\<close> recolours every element.
\<close>

record BillboardLine =
  bl_num_lines :: nat
  bl_max_points_per_line :: nat
  bl_line_width :: fl
  bl_points :: "(Vector3 \<times> ColourValue) list"

definition new_BillboardLine :: BillboardLine where
  "new_BillboardLine =
     \<lparr>bl_num_lines = 1, bl_max_points_per_line = 0, bl_line_width = Fin (1 / 10),
      bl_points = []\<rparr>"

definition bl_addPoint :: "Vector3 \<Rightarrow> ColourValue \<Rightarrow> BillboardLine \<Rightarrow> BillboardLine" where
  "bl_addPoint p c b = b\<lparr>bl_points := bl_points b @ [(p, c)]\<rparr>"

definition bl_setColor :: "ColourValue \<Rightarrow> BillboardLine \<Rightarrow> BillboardLine" where
  "bl_setColor c b = b\<lparr>bl_points := map (\<lambda>(p, old). (p, c)) (bl_points b)\<rparr>"

text \<open>
  \<^verbatim>\<open>Ogre::ManualObject\<close>: a vertex is a \<^verbatim>\<open>position\<close> call followed by its
  \<^verbatim>\<open>colour\<close> call; the two are one step of the model.
\<close>

record ManualObject =
  mo_dynamic :: bool
  mo_vertex_estimate :: nat
  mo_vertices :: "(Vector3 \<times> ColourValue) list"
  mo_ended :: bool

definition begin_ManualObject :: "nat \<Rightarrow> ManualObject" where
  "begin_ManualObject n =
     \<lparr>mo_dynamic = True, mo_vertex_estimate = n, mo_vertices = [], mo_ended = False\<rparr>"

definition mo_vertex :: "Vector3 \<Rightarrow> ColourValue \<Rightarrow> ManualObject \<Rightarrow> ManualObject" where
  "mo_vertex p c m = m\<lparr>mo_vertices := mo_vertices m @ [(p, c)]\<rparr>"

definition mo_end :: "ManualObject \<Rightarrow> ManualObject" where
  "mo_end m = m\<lparr>mo_ended := True\<rparr>"

record PointVisual =
  pv_color :: ColourValue
  pv_radius :: fl
  pv_point :: Vector3
  pv_frame_position :: Vector3
  pv_frame_orientation :: Quaternion

text \<open>\<^verbatim>\<open>rviz::Axes\<close>, with the default colours of its three arrows.\<close>

record Axes =
  ax_length :: fl
  ax_radius :: fl
  ax_position :: Vector3
  ax_orientation :: Quaternion
  ax_x_color :: ColourValue
  ax_y_color :: ColourValue
  ax_z_color :: ColourValue
  ax_visible :: bool
  ax_scale :: Vector3

definition getDefaultXColor :: ColourValue where
  "getDefaultXColor = ColourValue (Fin 1) (Fin 0) (Fin 0) (Fin 1)"

definition getDefaultYColor :: ColourValue where
  "getDefaultYColor = ColourValue (Fin 0) (Fin 1) (Fin 0) (Fin 1)"

definition getDefaultZColor :: ColourValue where
  "getDefaultZColor = ColourValue (Fin 0) (Fin 0) (Fin 1) (Fin 1)"

text \<open>The assignment \<^verbatim>\<open>color.a = alpha\<close>.\<close>

definition set_alpha :: "fl \<Rightarrow> ColourValue \<Rightarrow> ColourValue" where
  "set_alpha a c = ColourValue (cr c) (cg c) (cb c) a"

section \<open>The display\<close>

text \<open>
  The members of \<^verbatim>\<open>WholeBodyTrajectoryDisplay\<close>. The property widgets are the values they
  hold. \<open>frame_position\<close> and \<open>frame_orientation\<close> are what
  \<^verbatim>\<open>getFrameManager()->getTransform\<close> leaves in its two output arguments; the lookup
  belongs to rviz. A shared pointer is an option, \<open>None\<close> when it is null. \<open>created\<close>
  is a ghost counter of the drawables constructed so far: it tells an update made in place
  from a rebuild.
\<close>

record display =
  com_enable_property :: bool
  com_style_property :: LineStyle
  com_line_width_property :: fl
  com_color_property :: ColourValue
  com_scale_property :: fl
  com_alpha_property :: fl
  contact_enable_property :: bool
  contact_style_property :: LineStyle
  contact_line_width_property :: fl
  contact_color_property :: ColourValue
  contact_alpha_property :: fl
  frame_position :: Vector3
  frame_orientation :: Quaternion
  is_info :: bool
  com_enable :: bool
  contact_enable :: bool
  msg :: "WholeBodyTrajectory option"
  com_billboard_line :: "BillboardLine option"
  com_manual_object :: "ManualObject option"
  com_points :: "PointVisual list"
  com_axes :: "Axes list"
  contact_manual_object :: "ManualObject option list"
  contact_billboard_line :: "BillboardLine option list"
  contact_points :: "PointVisual option list list"
  last_point_position :: Vector3
  created :: nat

text \<open>
  What can go wrong in the C++: dereferencing a null pointer, and indexing a vector out
  of its range. Both are undefined behaviour there and an error value here.
\<close>

datatype error = NullDeref | OutOfRange

text \<open>
  The constructor (lines 33-95). It leaves \<^verbatim>\<open>last_point_position_\<close> unset, so its first
  value is a parameter, and so is the frame pose.
\<close>

definition WholeBodyTrajectoryDisplay :: "Vector3 \<Rightarrow> Vector3 \<Rightarrow> Quaternion \<Rightarrow> display" where
  "WholeBodyTrajectoryDisplay last0 fpos fori =
     \<lparr>com_enable_property = True,
      com_style_property = BILLBOARDS,
      com_line_width_property = Fin (1 / 100),
      com_color_property = ColourValue (Fin 0) (Fin (85 / 255)) (Fin 1) (Fin 1),
      com_scale_property = Fin 1,
      com_alpha_property = Fin 1,
      contact_enable_property = True,
      contact_style_property = BILLBOARDS,
      contact_line_width_property = Fin (1 / 100),
      contact_color_property = ColourValue (Fin 1) (Fin 0) (Fin (127 / 255)) (Fin 1),
      contact_alpha_property = Fin 1,
      frame_position = fpos,
      frame_orientation = fori,
      is_info = False,
      com_enable = True,
      contact_enable = True,
      msg = None,
      com_billboard_line = None,
      com_manual_object = None,
      com_points = [],
      com_axes = [],
      contact_manual_object = [],
      contact_billboard_line = [],
      contact_points = [],
      last_point_position = last0,
      created = 0\<rparr>"

subsection \<open>Axes markers\<close>

text \<open>\<^verbatim>\<open>pushBackCoMAxes\<close> (lines 578-605).\<close>

definition new_Axes :: "Vector3 \<Rightarrow> Quaternion \<Rightarrow> fl \<Rightarrow> fl \<Rightarrow> Axes" where
  "new_Axes axes_position axes_orientation alpha scale =
     \<lparr>ax_length = Fin (4 / 100), ax_radius = Fin (8 / 1000),
      ax_position = axes_position, ax_orientation = axes_orientation,
      ax_x_color = set_alpha alpha getDefaultXColor,
      ax_y_color = set_alpha alpha getDefaultYColor,
      ax_z_color = set_alpha alpha getDefaultZColor,
      ax_visible = True,
      ax_scale = Vector3 scale scale scale\<rparr>"

definition pushBackCoMAxes :: "Vector3 \<Rightarrow> Quaternion \<Rightarrow> display \<Rightarrow> display" where
  "pushBackCoMAxes axes_position axes_orientation s =
     (let scale = com_scale_property s in
      if should_emit axes_position (last_point_position s) scale
      then s\<lparr>com_axes :=
                com_axes s @ [new_Axes axes_position axes_orientation (com_alpha_property s) scale],
              last_point_position := axes_position,
              created := Suc (created s)\<rparr>
      else s)"

subsection \<open>The centre-of-mass trajectory\<close>

text \<open>One turn of the loop of \<^verbatim>\<open>processCoMTrajectory\<close> (lines 322-403), at index \<open>i\<close>.\<close>

definition com_step :: "ogre \<Rightarrow> nat \<Rightarrow> nat \<Rightarrow> WholeBodyState \<Rightarrow> display \<Rightarrow> error + display" where
  "com_step og n_points i state s =
     (let position = frame_position s; orientation = frame_orientation s;
          base_color = set_alpha (com_alpha_property s) (com_color_property s);
          com_pos = sanitize_point (com_position state);
          base_ori = sanitize_quaternion (base_orientation state);
          point_position = transform_point og orientation position com_pos;
          s1 = pushBackCoMAxes point_position (quat_mul og base_ori orientation) s
      in case com_style_property s of
           BILLBOARDS \<Rightarrow>
             (let s2 = (if i = 0
                        then s1\<lparr>com_billboard_line :=
                                  Some (new_BillboardLine
                                     \<lparr>bl_num_lines := 1, bl_max_points_per_line := n_points,
                                      bl_line_width := com_line_width_property s\<rparr>),
                                created := Suc (created s1)\<rparr>
                        else s1)
              in case com_billboard_line s2 of
                   None \<Rightarrow> Inl NullDeref
                 | Some b \<Rightarrow>
                     Inr (s2\<lparr>com_billboard_line := Some (bl_addPoint point_position base_color b)\<rparr>))
         | LINES \<Rightarrow>
             (let s2 = (if i = 0
                        then s1\<lparr>com_manual_object := Some (begin_ManualObject n_points),
                                created := Suc (created s1)\<rparr>
                        else s1)
              in case com_manual_object s2 of
                   None \<Rightarrow> Inl NullDeref
                 | Some m \<Rightarrow>
                     Inr (s2\<lparr>com_manual_object := Some (mo_vertex point_position base_color m)\<rparr>))
         | POINTS \<Rightarrow>
             (let s2 = (if i = 0 then s1\<lparr>com_points := []\<rparr> else s1);
                  point_visual =
                    \<lparr>pv_color = base_color, pv_radius = com_line_width_property s,
                     pv_point = com_pos, pv_frame_position = position,
                     pv_frame_orientation = orientation\<rparr>
              in Inr (s2\<lparr>com_points := com_points s2 @ [point_visual],
                         created := Suc (created s2)\<rparr>)))"

fun com_loop :: "ogre \<Rightarrow> nat \<Rightarrow> nat \<Rightarrow> WholeBodyState list \<Rightarrow> display \<Rightarrow> error + display" where
  "com_loop og n_points i [] s = Inr s"
| "com_loop og n_points i (state # rest) s =
     (case com_step og n_points i state s of
        Inl e \<Rightarrow> Inl e
      | Inr s' \<Rightarrow> com_loop og n_points (Suc i) rest s')"

text \<open>\<^verbatim>\<open>processCoMTrajectory\<close> (lines 298-408).\<close>

definition processCoMTrajectory :: "ogre \<Rightarrow> display \<Rightarrow> error + display" where
  "processCoMTrajectory og s =
     (if com_enable s then
        (case msg s of
           None \<Rightarrow> Inl NullDeref
         | Some trajectory \<Rightarrow>
             (case com_loop og (length trajectory) 0 trajectory (s\<lparr>com_axes := []\<rparr>) of
                Inl e \<Rightarrow> Inl e
              | Inr s' \<Rightarrow>
                  if com_style_property s' = LINES then
                    (case com_manual_object s' of
                       None \<Rightarrow> Inl NullDeref
                     | Some m \<Rightarrow> Inr (s'\<lparr>com_manual_object := Some (mo_end m)\<rparr>))
                  else Inr s'))
      else Inr s)"

subsection \<open>The contact trajectories\<close>

text \<open>
  \<^verbatim>\<open>std::map<std::string, std::size_t>\<close> is a list of pairs kept in the order of its
  keys, which is the order its iterator walks; \<^verbatim>\<open>find\<close> is \<open>map_of\<close>, and
  \<open>map_insert\<close> is the assignment \<^verbatim>\<open>m[k] = v\<close>. Strings compare as
  \<^verbatim>\<open>std::string\<close> does, byte by byte.
\<close>

fun map_insert :: "string \<Rightarrow> nat \<Rightarrow> (string \<times> nat) list \<Rightarrow> (string \<times> nat) list" where
  "map_insert k v [] = [(k, v)]"
| "map_insert k v ((k', v') # m) =
     (if k < k' then (k, v) # (k', v') # m
      else if k = k' then (k, v) # m
      else (k', v') # map_insert k v m)"

text \<open>The first pair of loops (lines 433-447): counting the trajectories.\<close>

fun count_contacts ::
  "ContactState list \<Rightarrow> (string \<times> nat) list \<times> nat \<Rightarrow> (string \<times> nat) list \<times> nat" where
  "count_contacts [] (contact_traj_id, n_traj) = (contact_traj_id, n_traj)"
| "count_contacts (contact # rest) (contact_traj_id, n_traj) =
     (if map_of contact_traj_id (contact_name contact) = None
      then count_contacts rest
             (map_insert (contact_name contact) n_traj contact_traj_id, Suc n_traj)
      else count_contacts rest (contact_traj_id, n_traj))"

fun count_states ::
  "WholeBodyState list \<Rightarrow> (string \<times> nat) list \<times> nat \<Rightarrow> (string \<times> nat) list \<times> nat" where
  "count_states [] acc = acc"
| "count_states (state # rest) acc = count_states rest (count_contacts (contacts state) acc)"

definition count_trajectories :: "WholeBodyTrajectory \<Rightarrow> nat" where
  "count_trajectories trajectory = snd (count_states trajectory ([], 0))"

text \<open>
  The local variables of the second pair of loops (lines 470-554) together with the
  display they draw into.
\<close>

record pass =
  contact_traj_id :: "(string \<times> nat) list"
  contact_vec_id :: "nat \<rightharpoonup> nat"
  traj_id :: nat
  disp :: display

text \<open>The drawable of a new trajectory (lines 479-496).\<close>

definition new_track :: "nat \<Rightarrow> nat \<Rightarrow> display \<Rightarrow> error + display" where
  "new_track n_points tid s =
     (case contact_style_property s of
        BILLBOARDS \<Rightarrow>
          if tid < length (contact_billboard_line s)
          then Inr (s\<lparr>contact_billboard_line :=
                        (contact_billboard_line s)
                          [tid := Some (new_BillboardLine
                              \<lparr>bl_num_lines := 1, bl_max_points_per_line := n_points,
                               bl_line_width := contact_line_width_property s\<rparr>)],
                      created := Suc (created s)\<rparr>)
          else Inl OutOfRange
      | LINES \<Rightarrow>
          if tid < length (contact_manual_object s)
          then Inr (s\<lparr>contact_manual_object :=
                        (contact_manual_object s)[tid := Some (begin_ManualObject n_points)],
                      created := Suc (created s)\<rparr>)
          else Inl OutOfRange
      | POINTS \<Rightarrow> Inr s)"

text \<open>The body of the loop over the contacts of a state (lines 475-504), at index \<open>k\<close>.\<close>

definition register_contact :: "nat \<Rightarrow> nat \<Rightarrow> ContactState \<Rightarrow> pass \<Rightarrow> error + pass" where
  "register_contact n_points k contact p =
     (case map_of (contact_traj_id p) (contact_name contact) of
        None \<Rightarrow>
          (case new_track n_points (traj_id p) (disp p) of
             Inl e \<Rightarrow> Inl e
           | Inr d \<Rightarrow>
               Inr (p\<lparr>contact_traj_id :=
                        map_insert (contact_name contact) (traj_id p) (contact_traj_id p),
                      contact_vec_id := (contact_vec_id p)(traj_id p \<mapsto> k),
                      traj_id := Suc (traj_id p),
                      disp := d\<rparr>))
      | Some swing_idx \<Rightarrow>
          (case contact_vec_id p swing_idx of
             None \<Rightarrow> Inl NullDeref
           | Some k' \<Rightarrow>
               Inr (if k \<noteq> k' then p\<lparr>contact_vec_id := (contact_vec_id p)(swing_idx \<mapsto> k)\<rparr>
                    else p)))"

fun register_loop :: "nat \<Rightarrow> nat \<Rightarrow> ContactState list \<Rightarrow> pass \<Rightarrow> error + pass" where
  "register_loop n_points k [] p = Inr p"
| "register_loop n_points k (contact # rest) p =
     (case register_contact n_points k contact p of
        Inl e \<Rightarrow> Inl e
      | Inr p' \<Rightarrow> register_loop n_points (Suc k) rest p')"

text \<open>
  The body of the loop over the entries of \<^verbatim>\<open>contact_traj_id\<close> (lines 515-552), for the
  entry with trajectory id \<open>tid\<close>, at step \<open>i\<close>; \<open>contact_idx\<close> counts the markers of
  the step.
\<close>

definition plot_track ::
  "ogre \<Rightarrow> (nat \<rightharpoonup> nat) \<Rightarrow> nat \<Rightarrow> WholeBodyState \<Rightarrow> nat \<Rightarrow> nat \<times> display \<Rightarrow> error + nat \<times> display" where
  "plot_track og vec_id i state tid acc =
     (let contact_idx = fst acc; s = snd acc; n_contacts = length (contacts state) in
      case vec_id tid of
        None \<Rightarrow> Inl NullDeref
      | Some idx \<Rightarrow>
          if idx < n_contacts then
            (let contact = contacts state ! idx;
                 contact_pos = sanitize_point (contact_position contact);
                 point_position =
                   transform_point og (frame_orientation s) (frame_position s) contact_pos;
                 contact_color = set_alpha (contact_alpha_property s) (contact_color_property s)
             in case contact_style_property s of
                  BILLBOARDS \<Rightarrow>
                    if tid < length (contact_billboard_line s) then
                      (case contact_billboard_line s ! tid of
                         None \<Rightarrow> Inl NullDeref
                       | Some b \<Rightarrow>
                           Inr (contact_idx,
                                s\<lparr>contact_billboard_line :=
                                    (contact_billboard_line s)
                                      [tid := Some (bl_addPoint point_position contact_color b)]\<rparr>))
                    else Inl OutOfRange
                | LINES \<Rightarrow>
                    if tid < length (contact_manual_object s) then
                      (case contact_manual_object s ! tid of
                         None \<Rightarrow> Inl NullDeref
                       | Some m \<Rightarrow>
                           Inr (contact_idx,
                                s\<lparr>contact_manual_object :=
                                    (contact_manual_object s)
                                      [tid := Some (mo_vertex point_position contact_color m)]\<rparr>))
                    else Inl OutOfRange
                | POINTS \<Rightarrow>
                    if i < length (contact_points s) \<and> contact_idx < length (contact_points s ! i)
                    then
                      Inr (Suc contact_idx,
                           s\<lparr>contact_points :=
                               (contact_points s)
                                 [i := (contact_points s ! i)
                                    [contact_idx :=
                                       Some \<lparr>pv_color = contact_color,
                                             pv_radius = contact_line_width_property s,
                                             pv_point = point_position,
                                             pv_frame_position = frame_position s,
                                             pv_frame_orientation = frame_orientation s\<rparr>]],
                             created := Suc (created s)\<rparr>)
                    else Inl OutOfRange)
          else Inr acc)"

fun plot_loop ::
  "ogre \<Rightarrow> (nat \<rightharpoonup> nat) \<Rightarrow> nat \<Rightarrow> WholeBodyState \<Rightarrow> (string \<times> nat) list \<Rightarrow> nat \<times> display
     \<Rightarrow> error + nat \<times> display" where
  "plot_loop og vec_id i state [] acc = Inr acc"
| "plot_loop og vec_id i state (traj_it # rest) acc =
     (case plot_track og vec_id i state (snd traj_it) acc of
        Inl e \<Rightarrow> Inl e
      | Inr acc' \<Rightarrow> plot_loop og vec_id i state rest acc')"

text \<open>One turn of the loop over the states (lines 471-554), at step \<open>i\<close>.\<close>

definition contact_step :: "ogre \<Rightarrow> nat \<Rightarrow> nat \<Rightarrow> WholeBodyState \<Rightarrow> pass \<Rightarrow> error + pass" where
  "contact_step og n_points i state p =
     (case register_loop n_points 0 (contacts state) p of
        Inl e \<Rightarrow> Inl e
      | Inr p1 \<Rightarrow>
          (let s = disp p1; n_contacts = length (contacts state) in
           case (if contact_style_property s = POINTS
                 then if i < length (contact_points s)
                      then Inr (s\<lparr>contact_points :=
                                    (contact_points s)[i := replicate n_contacts None]\<rparr>)
                      else Inl OutOfRange
                 else Inr s) of
             Inl e \<Rightarrow> Inl e
           | Inr s1 \<Rightarrow>
               (case plot_loop og (contact_vec_id p1) i state (contact_traj_id p1) (0, s1) of
                  Inl e \<Rightarrow> Inl e
                | Inr acc \<Rightarrow> Inr (p1\<lparr>disp := snd acc\<rparr>))))"

fun contact_loop :: "ogre \<Rightarrow> nat \<Rightarrow> nat \<Rightarrow> WholeBodyState list \<Rightarrow> pass \<Rightarrow> error + pass" where
  "contact_loop og n_points i [] p = Inr p"
| "contact_loop og n_points i (state # rest) p =
     (case contact_step og n_points i state p of
        Inl e \<Rightarrow> Inl e
      | Inr p' \<Rightarrow> contact_loop og n_points (Suc i) rest p')"

text \<open>Ending the manual objects (lines 557-561).\<close>

fun end_loop :: "nat list \<Rightarrow> ManualObject option list \<Rightarrow> error + ManualObject option list" where
  "end_loop [] objs = Inr objs"
| "end_loop (i # rest) objs =
     (if i < length objs then
        (case objs ! i of
           None \<Rightarrow> Inl NullDeref
         | Some m \<Rightarrow> end_loop rest (objs[i := Some (mo_end m)]))
      else Inl OutOfRange)"

text \<open>
  \<^verbatim>\<open>processContactTrajectory\<close> (lines 410-563). Its \<^verbatim>\<open>n_points\<close> is a \<^verbatim>\<open>uint32_t\<close>;
  here it is the length of the trajectory, so trajectories of \<open>2\<^sup>3\<^sup>2\<close> states or more
  are outside the model.
\<close>

definition start_pass :: "nat \<Rightarrow> nat \<Rightarrow> display \<Rightarrow> pass" where
  "start_pass n_points n_traj s =
     \<lparr>contact_traj_id = [], contact_vec_id = Map.empty, traj_id = 0,
      disp = (case contact_style_property s of
                BILLBOARDS \<Rightarrow> s\<lparr>contact_billboard_line := replicate n_traj None\<rparr>
              | LINES \<Rightarrow> s\<lparr>contact_manual_object := replicate n_traj None\<rparr>
              | POINTS \<Rightarrow> s\<lparr>contact_points := replicate n_points []\<rparr>)\<rparr>"

definition processContactTrajectory :: "ogre \<Rightarrow> display \<Rightarrow> error + display" where
  "processContactTrajectory og s =
     (if contact_enable s then
        (case msg s of
           None \<Rightarrow> Inl NullDeref
         | Some trajectory \<Rightarrow>
             (let n_points = length trajectory;
                  n_traj = count_trajectories trajectory
              in case contact_loop og n_points 0 trajectory (start_pass n_points n_traj s) of
                   Inl e \<Rightarrow> Inl e
                 | Inr p \<Rightarrow>
                     if contact_style_property (disp p) = LINES then
                       (case end_loop [0..<traj_id p] (contact_manual_object (disp p)) of
                          Inl e \<Rightarrow> Inl e
                        | Inr objs \<Rightarrow> Inr ((disp p)\<lparr>contact_manual_object := objs\<rparr>))
                     else Inr (disp p)))
      else Inr s)"

subsection \<open>Events\<close>

text \<open>\<^verbatim>\<open>destroyObjects\<close> (lines 565-576).\<close>

definition destroyObjects :: "display \<Rightarrow> display" where
  "destroyObjects s =
     s\<lparr>com_manual_object := None, com_billboard_line := None, com_points := [],
       com_axes := [], contact_manual_object := [], contact_billboard_line := [],
       contact_points := []\<rparr>"

text \<open>\<^verbatim>\<open>processMessage\<close> (lines 285-296).\<close>

definition processMessage :: "ogre \<Rightarrow> WholeBodyTrajectory \<Rightarrow> display \<Rightarrow> error + display" where
  "processMessage og m s =
     (case processCoMTrajectory og (destroyObjects (s\<lparr>msg := Some m, is_info := True\<rparr>)) of
        Inl e \<Rightarrow> Inl e
      | Inr s' \<Rightarrow> processContactTrajectory og s')"

text \<open>\<^verbatim>\<open>fixedFrameChanged\<close> (lines 101-108).\<close>

definition fixedFrameChanged :: "ogre \<Rightarrow> display \<Rightarrow> error + display" where
  "fixedFrameChanged og s =
     (if is_info s then
        (case processCoMTrajectory og s of
           Inl e \<Rightarrow> Inl e
         | Inr s' \<Rightarrow> processContactTrajectory og s')
      else Inr s)"

text \<open>\<^verbatim>\<open>updateCoMEnable\<close> (lines 136-144) and \<^verbatim>\<open>updateContactEnable\<close> (lines 146-163).\<close>

definition updateCoMEnable :: "display \<Rightarrow> display" where
  "updateCoMEnable s =
     (let s1 = s\<lparr>com_enable := com_enable_property s\<rparr> in
      if \<not> com_enable s1
      then s1\<lparr>com_billboard_line := None, com_manual_object := None, com_points := []\<rparr>
      else s1)"

definition updateContactEnable :: "display \<Rightarrow> display" where
  "updateContactEnable s =
     (let s1 = s\<lparr>contact_enable := contact_enable_property s\<rparr> in
      if \<not> contact_enable s1
      then s1\<lparr>contact_manual_object := map (\<lambda>obj. None) (contact_manual_object s1),
              contact_billboard_line := map (\<lambda>line. None) (contact_billboard_line s1),
              contact_points := map (\<lambda>step. []) (contact_points s1)\<rparr>
      else s1)"

text \<open>The loop over \<^verbatim>\<open>com_axes_\<close> of \<^verbatim>\<open>updateCoMLineProperties\<close> (lines 174-187, 198-211).\<close>

definition restyle_axes :: "fl \<Rightarrow> fl \<Rightarrow> Axes \<Rightarrow> Axes" where
  "restyle_axes alpha scale a =
     a\<lparr>ax_x_color := set_alpha alpha getDefaultXColor,
       ax_y_color := set_alpha alpha getDefaultYColor,
       ax_z_color := set_alpha alpha getDefaultZColor,
       ax_visible := True,
       ax_scale := Vector3 scale scale scale\<rparr>"

text \<open>\<^verbatim>\<open>updateCoMLineProperties\<close> (lines 165-214).\<close>

definition updateCoMLineProperties :: "ogre \<Rightarrow> display \<Rightarrow> error + display" where
  "updateCoMLineProperties og s =
     (let line_width = com_line_width_property s; scale = com_scale_property s;
          color = set_alpha (com_alpha_property s) (com_color_property s)
      in case com_style_property s of
           BILLBOARDS \<Rightarrow>
             (case com_billboard_line s of
                None \<Rightarrow> Inl NullDeref
              | Some b \<Rightarrow>
                  Inr (s\<lparr>com_billboard_line :=
                           Some (bl_setColor color (b\<lparr>bl_line_width := line_width\<rparr>)),
                         com_axes := map (restyle_axes (com_alpha_property s) scale) (com_axes s)\<rparr>))
         | LINES \<Rightarrow> if is_info s then processCoMTrajectory og s else Inr s
         | POINTS \<Rightarrow>
             Inr (s\<lparr>com_points :=
                      map (\<lambda>pv. pv\<lparr>pv_color := color, pv_radius := line_width\<rparr>) (com_points s),
                    com_axes := map (restyle_axes (com_alpha_property s) scale) (com_axes s)\<rparr>))"

text \<open>\<^verbatim>\<open>updateContactLineProperties\<close> (lines 257-283).\<close>

fun restyle_lines ::
  "fl \<Rightarrow> ColourValue \<Rightarrow> BillboardLine option list \<Rightarrow> error + BillboardLine option list" where
  "restyle_lines line_width color [] = Inr []"
| "restyle_lines line_width color (None # rest) = Inl NullDeref"
| "restyle_lines line_width color (Some b # rest) =
     (case restyle_lines line_width color rest of
        Inl e \<Rightarrow> Inl e
      | Inr rest' \<Rightarrow> Inr (Some (bl_setColor color (b\<lparr>bl_line_width := line_width\<rparr>)) # rest'))"

fun restyle_points ::
  "fl \<Rightarrow> ColourValue \<Rightarrow> PointVisual option list \<Rightarrow> error + PointVisual option list" where
  "restyle_points line_width color [] = Inr []"
| "restyle_points line_width color (None # rest) = Inl NullDeref"
| "restyle_points line_width color (Some pv # rest) =
     (case restyle_points line_width color rest of
        Inl e \<Rightarrow> Inl e
      | Inr rest' \<Rightarrow> Inr (Some (pv\<lparr>pv_color := color, pv_radius := line_width\<rparr>) # rest'))"

fun restyle_steps ::
  "fl \<Rightarrow> ColourValue \<Rightarrow> PointVisual option list list \<Rightarrow> error + PointVisual option list list" where
  "restyle_steps line_width color [] = Inr []"
| "restyle_steps line_width color (step # rest) =
     (case restyle_points line_width color step of
        Inl e \<Rightarrow> Inl e
      | Inr step' \<Rightarrow>
          (case restyle_steps line_width color rest of
             Inl e \<Rightarrow> Inl e
           | Inr rest' \<Rightarrow> Inr (step' # rest')))"

definition updateContactLineProperties :: "ogre \<Rightarrow> display \<Rightarrow> error + display" where
  "updateContactLineProperties og s =
     (let line_width = contact_line_width_property s;
          color = set_alpha (contact_alpha_property s) (contact_color_property s)
      in case contact_style_property s of
           BILLBOARDS \<Rightarrow>
             (case restyle_lines line_width color (contact_billboard_line s) of
                Inl e \<Rightarrow> Inl e
              | Inr lines \<Rightarrow> Inr (s\<lparr>contact_billboard_line := lines\<rparr>))
         | LINES \<Rightarrow> if is_info s then processContactTrajectory og s else Inr s
         | POINTS \<Rightarrow>
             (case restyle_steps line_width color (contact_points s) of
                Inl e \<Rightarrow> Inl e
              | Inr steps \<Rightarrow> Inr (s\<lparr>contact_points := steps\<rparr>)))"

text \<open>
  The user ticking or clearing an enable box: the widget takes the value, then its slot
  runs.
\<close>

definition set_com_enable :: "bool \<Rightarrow> display \<Rightarrow> display" where
  "set_com_enable b s = updateCoMEnable (s\<lparr>com_enable_property := b\<rparr>)"

definition set_contact_enable :: "bool \<Rightarrow> display \<Rightarrow> display" where
  "set_contact_enable b s = updateContactEnable (s\<lparr>contact_enable_property := b\<rparr>)"

section \<open>Notions of the properties\<close>

text \<open>The contact names of a trajectory, in the order the loops meet them.\<close>

definition contact_names :: "WholeBodyTrajectory \<Rightarrow> string list" where
  "contact_names trajectory = concat (map (\<lambda>state. map contact_name (contacts state)) trajectory)"

text \<open>
  The rank of a name in the order of first appearance: the number of distinct names met
  before the name is met for the first time.
\<close>

definition first_seen_rank :: "string list \<Rightarrow> string \<Rightarrow> nat option" where
  "first_seen_rank names name =
     (if name \<in> set names then Some (card (set (takeWhile (\<lambda>y. y \<noteq> name) names))) else None)"

text \<open>
  Two displays with the same settings: the same property values, frame pose, message and
  flags. They may differ in their drawables.
\<close>

definition same_settings :: "display \<Rightarrow> display \<Rightarrow> bool" where
  "same_settings s t =
     (com_enable_property t = com_enable_property s \<and>
      com_style_property t = com_style_property s \<and>
      com_line_width_property t = com_line_width_property s \<and>
      com_color_property t = com_color_property s \<and>
      com_scale_property t = com_scale_property s \<and>
      com_alpha_property t = com_alpha_property s \<and>
      contact_enable_property t = contact_enable_property s \<and>
      contact_style_property t = contact_style_property s \<and>
      contact_line_width_property t = contact_line_width_property s \<and>
      contact_color_property t = contact_color_property s \<and>
      contact_alpha_property t = contact_alpha_property s \<and>
      frame_position t = frame_position s \<and>
      frame_orientation t = frame_orientation s \<and>
      is_info t = is_info s \<and>
      com_enable t = com_enable s \<and>
      contact_enable t = contact_enable s \<and>
      msg t = msg s)"

text \<open>
  The marker that the contact pass builds for a contact sample, and the statement that
  every marker of a display is such a marker, for a sample of the trajectory.
\<close>

definition contact_marker :: "ogre \<Rightarrow> display \<Rightarrow> ContactState \<Rightarrow> PointVisual" where
  "contact_marker og s contact =
     \<lparr>pv_color = set_alpha (contact_alpha_property s) (contact_color_property s),
      pv_radius = contact_line_width_property s,
      pv_point =
        transform_point og (frame_orientation s) (frame_position s)
          (sanitize_point (contact_position contact)),
      pv_frame_position = frame_position s,
      pv_frame_orientation = frame_orientation s\<rparr>"

definition markers_ok :: "ogre \<Rightarrow> display \<Rightarrow> WholeBodyTrajectory \<Rightarrow> display \<Rightarrow> bool" where
  "markers_ok og s traj d =
     (\<forall>step \<in> set (contact_points d). \<forall>pv. Some pv \<in> set step \<longrightarrow>
        (\<exists>state \<in> set traj. \<exists>contact \<in> set (contacts state). pv = contact_marker og s contact))"

text \<open>
  The invariant of the second pair of loops when billboard lines or manual objects are
  drawn: every id handed out is below the next free id, has a last-known index, and has
  its drawable built; \<open>capacity\<close> is the length of the vector the style draws into.
\<close>

definition capacity :: "display \<Rightarrow> nat" where
  "capacity s =
     (case contact_style_property s of
        BILLBOARDS \<Rightarrow> length (contact_billboard_line s)
      | LINES \<Rightarrow> length (contact_manual_object s)
      | POINTS \<Rightarrow> 0)"

definition track_built :: "display \<Rightarrow> nat \<Rightarrow> bool" where
  "track_built s tid =
     (case contact_style_property s of
        BILLBOARDS \<Rightarrow> tid < length (contact_billboard_line s) \<and> contact_billboard_line s ! tid \<noteq> None
      | LINES \<Rightarrow> tid < length (contact_manual_object s) \<and> contact_manual_object s ! tid \<noteq> None
      | POINTS \<Rightarrow> True)"

definition tracks_ok :: "pass \<Rightarrow> bool" where
  "tracks_ok p =
     ((\<forall>e \<in> set (contact_traj_id p). snd e < traj_id p) \<and>
      (\<forall>tid < traj_id p. contact_vec_id p tid \<noteq> None) \<and>
      (\<forall>tid < traj_id p. track_built (disp p) tid))"

text \<open>
  What the contact pass writes into a line strip: every vertex has the contact colour
  with the alpha of the group and the transformed, sanitised position of a contact sample
  of the trajectory; the strip is dynamic, begun with the number of steps as its estimate
  and not yet ended.
\<close>

definition contact_vertex_ok ::
  "ogre \<Rightarrow> display \<Rightarrow> WholeBodyTrajectory \<Rightarrow> Vector3 \<times> ColourValue \<Rightarrow> bool" where
  "contact_vertex_ok og s traj v =
     (snd v = set_alpha (contact_alpha_property s) (contact_color_property s) \<and>
      (\<exists>state \<in> set traj. \<exists>contact \<in> set (contacts state).
         fst v = transform_point og (frame_orientation s) (frame_position s)
                   (sanitize_point (contact_position contact))))"

definition strip_ok :: "ogre \<Rightarrow> display \<Rightarrow> WholeBodyTrajectory \<Rightarrow> nat \<Rightarrow> ManualObject \<Rightarrow> bool" where
  "strip_ok og s traj n m =
     (mo_dynamic m \<and> mo_vertex_estimate m = n \<and> \<not> mo_ended m \<and>
      (\<forall>v \<in> set (mo_vertices m). contact_vertex_ok og s traj v))"

definition strips_ok ::
  "ogre \<Rightarrow> display \<Rightarrow> WholeBodyTrajectory \<Rightarrow> nat \<Rightarrow> display \<Rightarrow> bool" where
  "strips_ok og s traj n d =
     (\<forall>m. Some m \<in> set (contact_manual_object d) \<longrightarrow> strip_ok og s traj n m)"

section \<open>Example inputs\<close>

definition origin :: Vector3 where
  "origin = Vector3 (Fin 0) (Fin 0) (Fin 0)"

definition identity_orientation :: Quaternion where
  "identity_orientation = Quaternion (Fin 0) (Fin 0) (Fin 0) (Fin 1)"

definition point :: "real \<Rightarrow> real \<Rightarrow> real \<Rightarrow> Vector3" where
  "point a b c = Vector3 (Fin a) (Fin b) (Fin c)"

definition left_foot :: "Vector3 \<Rightarrow> ContactState" where
  "left_foot p = \<lparr>contact_name = ''left_foot'', contact_position = p\<rparr>"

definition right_foot :: "Vector3 \<Rightarrow> ContactState" where
  "right_foot p = \<lparr>contact_name = ''right_foot'', contact_position = p\<rparr>"

definition sample :: "Vector3 \<Rightarrow> ContactState list \<Rightarrow> WholeBodyState" where
  "sample c cs = \<lparr>com_position = c, base_orientation = identity_orientation, contacts = cs\<rparr>"

text \<open>
  Three steps, the centre of mass at \<open>(0,0,0)\<close>, \<open>(0,0,1)\<close>, \<open>(0,0,2)\<close>, the left foot in
  steps 0 and 1, the right foot in steps 1 and 2.
\<close>

definition scenario :: WholeBodyTrajectory where
  "scenario =
     [sample (point 0 0 0) [left_foot (point 1 0 0)],
      sample (point 0 0 1) [left_foot (point 1 0 1), right_foot (point 2 0 1)],
      sample (point 0 0 2) [right_foot (point 2 0 2)]]"

text \<open>The scenario with the two contacts of step 1 in the other order.\<close>

definition scenario_swapped :: WholeBodyTrajectory where
  "scenario_swapped =
     [sample (point 0 0 0) [left_foot (point 1 0 0)],
      sample (point 0 0 1) [right_foot (point 2 0 1), left_foot (point 1 0 1)],
      sample (point 0 0 2) [right_foot (point 2 0 2)]]"

text \<open>A one-step trajectory of a robot standing at the origin, with no contact.\<close>

definition standing :: WholeBodyTrajectory where
  "standing = [sample origin []]"

text \<open>
  A fresh display whose two groups draw in the given style, under the identity frame
  pose, and the same display once the scenario is its message.
\<close>

definition fresh_display :: "LineStyle \<Rightarrow> display" where
  "fresh_display style =
     (WholeBodyTrajectoryDisplay origin origin identity_orientation)
       \<lparr>com_style_property := style, contact_style_property := style\<rparr>"

definition loaded_display :: "LineStyle \<Rightarrow> display" where
  "loaded_display style = (fresh_display style)\<lparr>msg := Some scenario, is_info := True\<rparr>"

text \<open>A two-step trajectory with both feet in contact throughout.\<close>

definition both_feet :: WholeBodyTrajectory where
  "both_feet =
     [sample (point 0 0 0) [left_foot (point 1 0 0), right_foot (point 2 0 0)],
      sample (point 0 0 1) [left_foot (point 1 0 1), right_foot (point 2 0 1)]]"

text \<open>A display that draws points, under a frame pose shifted by 10 along x.\<close>

definition shifted_display :: display where
  "shifted_display =
     (fresh_display POINTS)
       \<lparr>frame_position := point 10 0 0, msg := Some both_feet, is_info := True\<rparr>"

text \<open>
  The displays reached by \<open>processMessage\<close> on \<open>both_feet\<close> from a fresh display, one
  per style, and the edit of the width, colour, scale and alpha properties that precedes
  a property slot.
\<close>

definition com_blue :: ColourValue where
  "com_blue = ColourValue (Fin 0) (Fin (85 / 255)) (Fin 1) (Fin 1)"

definition contact_pink :: ColourValue where
  "contact_pink = ColourValue (Fin 1) (Fin 0) (Fin (127 / 255)) (Fin 1)"

definition drawn_billboards :: display where
  "drawn_billboards =
     (fresh_display BILLBOARDS)
       \<lparr>msg := Some both_feet, is_info := True,
        com_billboard_line :=
          Some \<lparr>bl_num_lines = 1, bl_max_points_per_line = 2, bl_line_width = Fin (1 / 100),
                bl_points = [(point 0 0 0, com_blue), (point 0 0 1, com_blue)]\<rparr>,
        com_axes := [new_Axes (point 0 0 1) identity_orientation (Fin 1) (Fin 1)],
        contact_billboard_line :=
          [Some \<lparr>bl_num_lines = 1, bl_max_points_per_line = 2, bl_line_width = Fin (1 / 100),
                 bl_points = [(point 1 0 0, contact_pink), (point 1 0 1, contact_pink)]\<rparr>,
           Some \<lparr>bl_num_lines = 1, bl_max_points_per_line = 2, bl_line_width = Fin (1 / 100),
                 bl_points = [(point 2 0 0, contact_pink), (point 2 0 1, contact_pink)]\<rparr>],
        last_point_position := point 0 0 1, created := 4\<rparr>"

definition marker :: "ColourValue \<Rightarrow> Vector3 \<Rightarrow> PointVisual" where
  "marker c p =
     \<lparr>pv_color = c, pv_radius = Fin (1 / 100), pv_point = p, pv_frame_position = origin,
      pv_frame_orientation = identity_orientation\<rparr>"

definition drawn_points :: display where
  "drawn_points =
     (fresh_display POINTS)
       \<lparr>msg := Some both_feet, is_info := True,
        com_points := [marker com_blue (point 0 0 0), marker com_blue (point 0 0 1)],
        com_axes := [new_Axes (point 0 0 1) identity_orientation (Fin 1) (Fin 1)],
        contact_points :=
          [[Some (marker contact_pink (point 1 0 0)), Some (marker contact_pink (point 2 0 0))],
           [Some (marker contact_pink (point 1 0 1)), Some (marker contact_pink (point 2 0 1))]],
        last_point_position := point 0 0 1, created := 7\<rparr>"

definition strip :: "(Vector3 \<times> ColourValue) list \<Rightarrow> ManualObject" where
  "strip vs = \<lparr>mo_dynamic = True, mo_vertex_estimate = 2, mo_vertices = vs, mo_ended = True\<rparr>"

definition drawn_lines :: display where
  "drawn_lines =
     (fresh_display LINES)
       \<lparr>msg := Some both_feet, is_info := True,
        com_manual_object := Some (strip [(point 0 0 0, com_blue), (point 0 0 1, com_blue)]),
        com_axes := [new_Axes (point 0 0 1) identity_orientation (Fin 1) (Fin 1)],
        contact_manual_object :=
          [Some (strip [(point 1 0 0, contact_pink), (point 1 0 1, contact_pink)]),
           Some (strip [(point 2 0 0, contact_pink), (point 2 0 1, contact_pink)])],
        last_point_position := point 0 0 1, created := 4\<rparr>"

definition restyle :: "display \<Rightarrow> display" where
  "restyle s =
     s\<lparr>com_line_width_property := Fin (2 / 100),
       com_color_property := ColourValue (Fin 1) (Fin (1 / 2)) (Fin 0) (Fin 1),
       com_scale_property := Fin 2,
       com_alpha_property := Fin (1 / 2),
       contact_line_width_property := Fin (3 / 100),
       contact_color_property := ColourValue (Fin 0) (Fin 1) (Fin (1 / 2)) (Fin 1),
       contact_alpha_property := Fin (1 / 4)\<rparr>"

text \<open>
  The colours, axes and markers expected after the edit, and the drawables of each group
  together with the count of drawables constructed.
\<close>

definition com_orange :: ColourValue where
  "com_orange = ColourValue (Fin 1) (Fin (1 / 2)) (Fin 0) (Fin (1 / 2))"

definition contact_green :: ColourValue where
  "contact_green = ColourValue (Fin 0) (Fin 1) (Fin (1 / 2)) (Fin (1 / 4))"

definition restyled_axes :: "Vector3 \<Rightarrow> Axes" where
  "restyled_axes p =
     \<lparr>ax_length = Fin (4 / 100), ax_radius = Fin (8 / 1000),
      ax_position = p, ax_orientation = identity_orientation,
      ax_x_color = ColourValue (Fin 1) (Fin 0) (Fin 0) (Fin (1 / 2)),
      ax_y_color = ColourValue (Fin 0) (Fin 1) (Fin 0) (Fin (1 / 2)),
      ax_z_color = ColourValue (Fin 0) (Fin 0) (Fin 1) (Fin (1 / 2)),
      ax_visible = True,
      ax_scale = Vector3 (Fin 2) (Fin 2) (Fin 2)\<rparr>"

definition restyled_marker :: "ColourValue \<Rightarrow> fl \<Rightarrow> Vector3 \<Rightarrow> PointVisual" where
  "restyled_marker c r p =
     \<lparr>pv_color = c, pv_radius = r, pv_point = p, pv_frame_position = origin,
      pv_frame_orientation = identity_orientation\<rparr>"

definition com_drawables ::
  "display \<Rightarrow>
     nat \<times> BillboardLine option \<times> ManualObject option \<times> PointVisual list \<times> Axes list" where
  "com_drawables s =
     (created s, com_billboard_line s, com_manual_object s, com_points s, com_axes s)"

definition contact_drawables ::
  "display \<Rightarrow>
     nat \<times> BillboardLine option list \<times> ManualObject option list \<times> PointVisual option list list" where
  "contact_drawables s =
     (created s, contact_billboard_line s, contact_manual_object s, contact_points s)"

section \<open>Properties\<close>

lemmas example_defs =
  origin_def identity_orientation_def point_def left_foot_def right_foot_def sample_def
  scenario_def scenario_swapped_def standing_def fresh_display_def loaded_display_def
  WholeBodyTrajectoryDisplay_def both_feet_def shifted_display_def

lemmas drawn_defs =
  com_blue_def contact_pink_def drawn_billboards_def marker_def drawn_points_def strip_def
  drawn_lines_def

lemmas restyled_defs =
  restyle_def com_orange_def contact_green_def restyled_axes_def restyled_marker_def
  com_drawables_def contact_drawables_def

lemmas round_defs =
  single_def double_def round_to_def expo_def expo_up.simps expo_down.simps pow2_def rne_def
  Let_def

lemmas test_defs =
  should_emit_def squaredDistance_def fadd_def fsub_def fmul_def dmul_def

lemmas exact_defs = exact_add_def exact_sub_def exact_mul_def

text \<open>The outcomes of the distance test that the example runs below meet.\<close>

lemma should_emit_values:
  "\<not> should_emit (Vector3 (Fin 0) (Fin 0) (Fin 0)) (Vector3 (Fin 0) (Fin 0) (Fin 0)) (Fin 1)"
  "should_emit (Vector3 (Fin 0) (Fin 0) (Fin 1)) (Vector3 (Fin 0) (Fin 0) (Fin 0)) (Fin 1)"
  "should_emit (Vector3 (Fin 0) (Fin 0) (Fin 2)) (Vector3 (Fin 0) (Fin 0) (Fin 1)) (Fin 1)"
  "should_emit (Vector3 (Fin 0) (Fin 0) (Fin 0)) (Vector3 (Fin 0) (Fin 0) (Fin 1)) (Fin 1)"
  "should_emit (Vector3 (Fin 0) (Fin 0) (Fin 0)) (Vector3 (Fin 0) (Fin 0) (Fin 2)) (Fin 1)"
  "should_emit (Vector3 (Fin 10) (Fin 0) (Fin 0)) (Vector3 (Fin 0) (Fin 0) (Fin 0)) (Fin 1)"
  "should_emit (Vector3 (Fin 10) (Fin 0) (Fin 1)) (Vector3 (Fin 10) (Fin 0) (Fin 0)) (Fin 1)"
  "should_emit (Vector3 (Fin 0) (Fin 0) (Fin 0)) (Vector3 (Fin 0) (Fin 0) (Fin 1)) (Fin 2)"
  "should_emit (Vector3 (Fin 0) (Fin 0) (Fin 1)) (Vector3 (Fin 0) (Fin 0) (Fin 0)) (Fin 2)"
  by (simp_all add: test_defs round_defs)

lemmas float_defs = exact_defs should_emit_values

lemmas run_defs =
  processMessage_def destroyObjects_def processCoMTrajectory_def com_step_def
  pushBackCoMAxes_def sanitize_point_def sanitize_quaternion_def ogre_exact_def
  rotate_translate_def hamilton_def set_alpha_def new_Axes_def new_BillboardLine_def
  bl_addPoint_def begin_ManualObject_def mo_vertex_def mo_end_def
  processContactTrajectory_def count_trajectories_def start_pass_def contact_step_def
  register_contact_def new_track_def plot_track_def Let_def

subsection \<open>Sanitising\<close>

text \<open>
  C6. Sanitising leaves a position or an orientation with finite components as it is,
  sends a position with a non-finite component to the zero vector and an orientation
  with a non-finite component to \<open>(0,0,0,1)\<close>, and sanitising twice is sanitising once.
\<close>

theorem sanitize_idempotent:
  "(isfinite (vx p) \<and> isfinite (vy p) \<and> isfinite (vz p) \<longrightarrow> sanitize_point p = p) \<and>
   (\<not> (isfinite (vx p') \<and> isfinite (vy p') \<and> isfinite (vz p')) \<longrightarrow>
      sanitize_point p' = Vector3 (Fin 0) (Fin 0) (Fin 0)) \<and>
   sanitize_point (sanitize_point p') = sanitize_point p' \<and>
   (isfinite (qx q) \<and> isfinite (qy q) \<and> isfinite (qz q) \<and> isfinite (qw q) \<longrightarrow>
      sanitize_quaternion q = q) \<and>
   (\<not> (isfinite (qx q') \<and> isfinite (qy q') \<and> isfinite (qz q') \<and> isfinite (qw q')) \<longrightarrow>
      sanitize_quaternion q' = Quaternion (Fin 0) (Fin 0) (Fin 0) (Fin 1)) \<and>
   sanitize_quaternion (sanitize_quaternion q') = sanitize_quaternion q'"
  by (simp add: sanitize_point_def sanitize_quaternion_def)

theorem sanitize_idempotent_witness:
  "isfinite (Fin 1) \<and> isfinite (Fin 2) \<and> isfinite (Fin 3) \<and> \<not> isfinite NaN \<and> \<not> isfinite PInf \<and>
   sanitize_point (Vector3 (Fin 1) (Fin 2) (Fin 3)) = Vector3 (Fin 1) (Fin 2) (Fin 3) \<and>
   sanitize_point (Vector3 (Fin 1) NaN (Fin 3)) = Vector3 (Fin 0) (Fin 0) (Fin 0) \<and>
   sanitize_point (sanitize_point (Vector3 (Fin 1) NaN (Fin 3))) =
     sanitize_point (Vector3 (Fin 1) NaN (Fin 3)) \<and>
   sanitize_quaternion (Quaternion (Fin 1) (Fin 0) (Fin 0) (Fin 0)) =
     Quaternion (Fin 1) (Fin 0) (Fin 0) (Fin 0) \<and>
   sanitize_quaternion (Quaternion (Fin 1) (Fin 0) PInf (Fin 0)) =
     Quaternion (Fin 0) (Fin 0) (Fin 0) (Fin 1) \<and>
   sanitize_quaternion (sanitize_quaternion (Quaternion (Fin 1) (Fin 0) PInf (Fin 0))) =
     sanitize_quaternion (Quaternion (Fin 1) (Fin 0) PInf (Fin 0))"
  using sanitize_idempotent [of "Vector3 (Fin 1) (Fin 2) (Fin 3)" "Vector3 (Fin 1) NaN (Fin 3)"
      "Quaternion (Fin 1) (Fin 0) (Fin 0) (Fin 0)" "Quaternion (Fin 1) (Fin 0) PInf (Fin 0)"]
  by (simp add: sanitize_point_def sanitize_quaternion_def)

subsection \<open>The distance test\<close>

text \<open>
  Rounding to an integer picks a nearest integer, and the even one of two nearest; some
  values of the two formats, at the ends of their ranges too.
\<close>

lemma rne_nearest: "\<bar>of_int (rne x) - x\<bar> \<le> \<bar>of_int k - x\<bar>"
proof -
  have low: "of_int \<lfloor>x\<rfloor> \<le> x" and high: "x < of_int \<lfloor>x\<rfloor> + 1" by linarith+
  consider "k \<le> \<lfloor>x\<rfloor>" | "\<lfloor>x\<rfloor> + 1 \<le> k" by linarith
  then show ?thesis
  proof cases
    case 1
    then have "(of_int k :: real) \<le> of_int \<lfloor>x\<rfloor>" by simp
    with low high show ?thesis by (simp add: rne_def Let_def) linarith
  next
    case 2
    then have "(of_int \<lfloor>x\<rfloor> :: real) + 1 \<le> of_int k" by (metis of_int_1 of_int_add of_int_le_iff)
    with low high show ?thesis by (simp add: rne_def Let_def) linarith
  qed
qed

lemma rne_tie: "x - of_int \<lfloor>x\<rfloor> = 1 / 2 \<Longrightarrow> even (rne x)"
  by (simp add: rne_def Let_def)

lemma rounding_values:
  "single (1 / 10) = Fin (13421773 / 2 ^ 27)"
  "single (5 / 100) = Fin (13421773 / 2 ^ 28)"
  "double (32 / 10000) = Fin (7378697629483821 / 2 ^ 61)"
  "single (1 + 1 / 2 ^ 24) = Fin 1"
  "single (1 + 3 / 2 ^ 24) = Fin (1 + 1 / 2 ^ 22)"
  "single (- (1 + 3 / 2 ^ 24)) = Fin (- (1 + 1 / 2 ^ 22))"
  "single (2 ^ 128 - 2 ^ 104) = Fin (2 ^ 128 - 2 ^ 104)"
  "single (2 ^ 128 - 2 ^ 103) = PInf"
  "single (- (2 ^ 128)) = NInf"
  "single (1 / 2 ^ 149) = Fin (1 / 2 ^ 149)"
  "single (1 / 2 ^ 150) = Fin 0"
  "single (3 / 2 ^ 150) = Fin (1 / 2 ^ 148)"
  by (simp_all add: round_defs)

text \<open>
  C7, as the claim states it, fails in two ways. At a tie: with scale 0 and the candidate
  on the last emitted position the test holds, though the squared distance 0 does not
  exceed the threshold 0. By rounding: with scale 1.75 and the candidate
  \<open>(13286877 / 2\<^sup>2\<^sup>7, 0, 0)\<close> the test holds, though the squared distance of the two
  positions is below the square of the scale times 0.0032.
\<close>

theorem should_emit_exceeds_counterexample:
  "should_emit (Vector3 (Fin 0) (Fin 0) (Fin 0)) (Vector3 (Fin 0) (Fin 0) (Fin 0)) (Fin 0) \<and>
   \<not> ((0::real) * 0 * (32 / 10000) < (0 - 0) * (0 - 0) + (0 - 0) * (0 - 0) + (0 - 0) * (0 - 0)) \<and>
   should_emit (Vector3 (Fin (13286877 / 2 ^ 27)) (Fin 0) (Fin 0))
     (Vector3 (Fin 0) (Fin 0) (Fin 0)) (Fin (7 / 4)) \<and>
   \<not> ((7 / 4 :: real) * (7 / 4) * (32 / 10000)
        < (13286877 / 2 ^ 27 - 0) * (13286877 / 2 ^ 27 - 0) + (0 - 0) * (0 - 0) + (0 - 0) * (0 - 0))"
  by (simp add: test_defs round_defs)

text \<open>
  C7, amended. The test holds exactly when the squared distance from the last emitted
  position to the candidate, as the code computes it in \<^verbatim>\<open>float\<close>, is at least the
  threshold as the code computes it, the \<^verbatim>\<open>float\<close> square of the scale times the
  \<^verbatim>\<open>double\<close> 0.0032, both being finite. A tie passes: with scale 0 the test holds for a
  candidate on the last emitted position. With scale 1 and the last emitted position at
  the origin it holds for the candidate \<open>(0.1,0,0)\<close> and fails for \<open>(0.05,0,0)\<close>, the
  coordinates being the nearest \<^verbatim>\<open>float\<close> values.
\<close>

theorem should_emit_at_least:
  "(squaredDistance candidate last_emitted = Fin d \<and>
    dmul (fmul scale scale) (double (32 / 10000)) = Fin t \<longrightarrow>
      should_emit candidate last_emitted scale = (t \<le> d)) \<and>
   should_emit (Vector3 (Fin x) (Fin y) (Fin z)) (Vector3 (Fin x) (Fin y) (Fin z)) (Fin 0) \<and>
   should_emit (Vector3 (single (1 / 10)) (Fin 0) (Fin 0)) (Vector3 (Fin 0) (Fin 0) (Fin 0)) (Fin 1) \<and>
   \<not> should_emit (Vector3 (single (5 / 100)) (Fin 0) (Fin 0)) (Vector3 (Fin 0) (Fin 0) (Fin 0))
       (Fin 1)"
proof (intro conjI impI)
  assume "squaredDistance candidate last_emitted = Fin d \<and>
    dmul (fmul scale scale) (double (32 / 10000)) = Fin t"
  then show "should_emit candidate last_emitted scale = (t \<le> d)"
    by (simp add: should_emit_def)
next
  have "single 0 = Fin 0" "double 0 = Fin 0"
    by (simp_all add: single_def double_def round_to_def)
  moreover have "double (32 / 10000) = Fin (7378697629483821 / 2 ^ 61)"
    by (simp add: round_defs)
  ultimately
  show "should_emit (Vector3 (Fin x) (Fin y) (Fin z)) (Vector3 (Fin x) (Fin y) (Fin z)) (Fin 0)"
    by (simp add: test_defs)
next
  show "should_emit (Vector3 (single (1 / 10)) (Fin 0) (Fin 0))
          (Vector3 (Fin 0) (Fin 0) (Fin 0)) (Fin 1)"
    by (simp add: test_defs round_defs)
next
  show "\<not> should_emit (Vector3 (single (5 / 100)) (Fin 0) (Fin 0))
          (Vector3 (Fin 0) (Fin 0) (Fin 0)) (Fin 1)"
    by (simp add: test_defs round_defs)
qed

theorem should_emit_at_least_witness:
  "squaredDistance (Vector3 (single (1 / 10)) (Fin 0) (Fin 0)) (Vector3 (Fin 0) (Fin 0) (Fin 0))
     = Fin (10737419 / 2 ^ 30) \<and>
   dmul (fmul (Fin 1) (Fin 1)) (double (32 / 10000)) = Fin (7378697629483821 / 2 ^ 61) \<and>
   should_emit (Vector3 (single (1 / 10)) (Fin 0) (Fin 0)) (Vector3 (Fin 0) (Fin 0) (Fin 0)) (Fin 1) \<and>
   (7378697629483821 / 2 ^ 61 :: real) \<le> 10737419 / 2 ^ 30"
  using should_emit_at_least
    [where candidate = "Vector3 (single (1 / 10)) (Fin 0) (Fin 0)"
       and last_emitted = "Vector3 (Fin 0) (Fin 0) (Fin 0)" and scale = "Fin 1"
       and d = "10737419 / 2 ^ 30" and t = "7378697629483821 / 2 ^ 61"]
  by (simp add: test_defs round_defs)

text \<open>
  The infinities take part in the comparison: with scale \<open>2\<^sup>7\<^sup>0\<close> the square of the scale
  overflows, and a squared distance that overflows as well passes the test.
\<close>

lemma should_emit_overflow:
  "should_emit (Vector3 (Fin (2 ^ 64)) (Fin 0) (Fin 0)) (Vector3 (Fin 0) (Fin 0) (Fin 0))
     (Fin (2 ^ 70))"
  by (simp add: test_defs round_defs)

text \<open>
  Every rounding of the test decides an outcome. The sum of the squares: from the origin
  to \<open>(10439689 / 2\<^sup>2\<^sup>2, 1 / 2048, 0)\<close> the two squares add up to at least the threshold
  of scale 44, their \<^verbatim>\<open>float\<close> sum is the first square, and the test fails.
\<close>

lemma should_emit_rounds_sum:
  "fmul (Fin (10439689 / 2 ^ 22)) (Fin (10439689 / 2 ^ 22)) = Fin (3248069 / 2 ^ 19)"
  "fmul (Fin (1 / 2048)) (Fin (1 / 2048)) = Fin (1 / 2 ^ 22)"
  "fadd (Fin (3248069 / 2 ^ 19)) (Fin (1 / 2 ^ 22)) = Fin (3248069 / 2 ^ 19)"
  "dmul (fmul (Fin 44) (Fin 44)) (double (32 / 10000)) = Fin (6975175102871425 / 2 ^ 50)"
  "(6975175102871425 / 2 ^ 50 :: real) \<le> 3248069 / 2 ^ 19 + 1 / 2 ^ 22"
  "\<not> should_emit (Vector3 (Fin (10439689 / 2 ^ 22)) (Fin (1 / 2048)) (Fin 0))
       (Vector3 (Fin 0) (Fin 0) (Fin 0)) (Fin 44)"
  by (simp_all add: test_defs round_defs)

text \<open>
  The difference of the coordinates: from \<open>(- 3 / 2\<^sup>3\<^sup>0, 0, 0)\<close> to
  \<open>(11388751 / 2\<^sup>2\<^sup>8, 0, 0)\<close> the difference \<open>45555007 / 2\<^sup>3\<^sup>0\<close> rounds up; the test of scale
  3/4 holds, and the \<^verbatim>\<open>float\<close> square of the unrounded difference is below the threshold.
\<close>

lemma should_emit_rounds_difference:
  "fsub (Fin (11388751 / 2 ^ 28)) (Fin (- 3 / 2 ^ 30)) = Fin (711797 / 2 ^ 24)"
  "squaredDistance (Vector3 (Fin (11388751 / 2 ^ 28)) (Fin 0) (Fin 0))
     (Vector3 (Fin (- 3 / 2 ^ 30)) (Fin 0) (Fin 0)) = Fin (15461883 / 2 ^ 33)"
  "dmul (fmul (Fin (3 / 4)) (Fin (3 / 4))) (double (32 / 10000))
     = Fin (8301034833169299 / 2 ^ 62)"
  "should_emit (Vector3 (Fin (11388751 / 2 ^ 28)) (Fin 0) (Fin 0))
     (Vector3 (Fin (- 3 / 2 ^ 30)) (Fin 0) (Fin 0)) (Fin (3 / 4))"
  "fmul (Fin (45555007 / 2 ^ 30)) (Fin (45555007 / 2 ^ 30)) = Fin (7730941 / 2 ^ 32)"
  "(7730941 / 2 ^ 32 :: real) < 8301034833169299 / 2 ^ 62"
  by (simp_all add: test_defs round_defs)

text \<open>
  The square of the scale: with scale 4097/4096 the test holds for
  \<open>(7594355 / 2\<^sup>2\<^sup>7, 0, 0)\<close>, and the squared distance is below the threshold that the
  square of the scale in \<^verbatim>\<open>double\<close> would give.
\<close>

lemma should_emit_rounds_scale:
  "squaredDistance (Vector3 (Fin (7594355 / 2 ^ 27)) (Fin 0) (Fin 0))
     (Vector3 (Fin 0) (Fin 0) (Fin 0)) = Fin (13750607 / 2 ^ 32)"
  "dmul (fmul (Fin (4097 / 4096)) (Fin (4097 / 4096))) (double (32 / 10000))
     = Fin (7382300509185717 / 2 ^ 61)"
  "should_emit (Vector3 (Fin (7594355 / 2 ^ 27)) (Fin 0) (Fin 0))
     (Vector3 (Fin 0) (Fin 0) (Fin 0)) (Fin (4097 / 4096))"
  "dmul (dmul (Fin (4097 / 4096)) (Fin (4097 / 4096))) (double (32 / 10000))
     = Fin (7382300948990369 / 2 ^ 61)"
  "(13750607 / 2 ^ 32 :: real) < 7382300948990369 / 2 ^ 61"
  by (simp_all add: test_defs round_defs)

text \<open>
  The product in \<^verbatim>\<open>double\<close>: with scale 3475/2048 it rounds down to the squared distance
  of \<open>(402587 / 2\<^sup>2\<^sup>2, 0, 0)\<close> from the origin, and the test holds at the tie.
\<close>

lemma should_emit_rounds_product:
  "squaredDistance (Vector3 (Fin (402587 / 2 ^ 22)) (Fin 0) (Fin 0))
     (Vector3 (Fin 0) (Fin 0) (Fin 0)) = Fin (19321 / 2 ^ 21)"
  "fmul (Fin (3475 / 2048)) (Fin (3475 / 2048)) = Fin (12075625 / 2 ^ 22)"
  "double (32 / 10000) = Fin (7378697629483821 / 2 ^ 61)"
  "dmul (Fin (12075625 / 2 ^ 22)) (Fin (7378697629483821 / 2 ^ 61)) = Fin (19321 / 2 ^ 21)"
  "(19321 / 2 ^ 21 :: real) < 12075625 / 2 ^ 22 * (7378697629483821 / 2 ^ 61)"
  "should_emit (Vector3 (Fin (402587 / 2 ^ 22)) (Fin 0) (Fin 0))
     (Vector3 (Fin 0) (Fin 0) (Fin 0)) (Fin (3475 / 2048))"
  by (simp_all add: test_defs round_defs)

subsection \<open>Null handles\<close>

text \<open>
  C10. With the billboard style selected and no billboard line built,
  \<^verbatim>\<open>updateCoMLineProperties\<close> dereferences the null \<^verbatim>\<open>com_billboard_line_\<close>. The display
  is in that state right after its construction, and after the centre-of-mass group has
  been disabled.
\<close>

theorem updateCoMLineProperties_null_billboard:
  "(com_style_property s = BILLBOARDS \<and> com_billboard_line s = None \<longrightarrow>
      updateCoMLineProperties og s = Inl NullDeref) \<and>
   updateCoMLineProperties og (WholeBodyTrajectoryDisplay last0 fpos fori) = Inl NullDeref \<and>
   (com_style_property s' = BILLBOARDS \<and> \<not> com_enable_property s' \<longrightarrow>
      updateCoMLineProperties og (updateCoMEnable s') = Inl NullDeref)"
  by (simp add: updateCoMLineProperties_def updateCoMEnable_def WholeBodyTrajectoryDisplay_def)

theorem updateCoMLineProperties_null_billboard_witness:
  "com_style_property (WholeBodyTrajectoryDisplay origin origin identity_orientation) = BILLBOARDS \<and>
   com_billboard_line (WholeBodyTrajectoryDisplay origin origin identity_orientation) = None \<and>
   updateCoMLineProperties ogre_exact (WholeBodyTrajectoryDisplay origin origin identity_orientation)
     = Inl NullDeref \<and>
   com_style_property
     ((WholeBodyTrajectoryDisplay origin origin identity_orientation)
        \<lparr>com_enable_property := False, com_billboard_line := Some new_BillboardLine\<rparr>) = BILLBOARDS \<and>
   \<not> com_enable_property
     ((WholeBodyTrajectoryDisplay origin origin identity_orientation)
        \<lparr>com_enable_property := False, com_billboard_line := Some new_BillboardLine\<rparr>) \<and>
   updateCoMLineProperties ogre_exact
     (updateCoMEnable
        ((WholeBodyTrajectoryDisplay origin origin identity_orientation)
           \<lparr>com_enable_property := False, com_billboard_line := Some new_BillboardLine\<rparr>))
     = Inl NullDeref"
  using updateCoMLineProperties_null_billboard
    [of "WholeBodyTrajectoryDisplay origin origin identity_orientation" ogre_exact
        origin origin identity_orientation
        "(WholeBodyTrajectoryDisplay origin origin identity_orientation)
           \<lparr>com_enable_property := False, com_billboard_line := Some new_BillboardLine\<rparr>"]
  by (simp add: WholeBodyTrajectoryDisplay_def)

subsection \<open>The empty trajectory\<close>

text \<open>
  C4 fails on the code. A message with no state is drawn without error, and leaves no
  drawable, unless the centre-of-mass group is enabled and draws lines: then
  \<^verbatim>\<open>processCoMTrajectory\<close> calls \<^verbatim>\<open>end()\<close> on the manual object that only the first turn
  of its loop creates, which is null.
\<close>

theorem empty_trajectory:
  "processMessage og [] s =
     (if com_enable s \<and> com_style_property s = LINES then Inl NullDeref
      else Inr (destroyObjects (s\<lparr>msg := Some [], is_info := True\<rparr>)))"
  by (cases "contact_style_property s")
     (simp_all add: processMessage_def processCoMTrajectory_def processContactTrajectory_def
        destroyObjects_def start_pass_def count_trajectories_def)

text \<open>A trajectory whose states have no contact is drawn without error, with no contact drawable.\<close>

lemma no_contacts:
  "map_sum id (\<lambda>s. (contact_manual_object s, contact_billboard_line s, contact_points s))
     (processMessage ogre_exact standing (fresh_display LINES)) = Inr ([], [], [])"
  by (simp add: run_defs example_defs float_defs upt_rec)

subsection \<open>The first axes marker of a pass\<close>

text \<open>
  The first call of \<^verbatim>\<open>pushBackCoMAxes\<close> in a pass, after \<^verbatim>\<open>com_axes_.clear()\<close>: the
  first sample gets its marker only if it is far enough from the position kept from the
  pass before.
\<close>

lemma first_sample_axes:
  "com_axes (pushBackCoMAxes p q (s\<lparr>com_axes := []\<rparr>)) =
     (if should_emit p (last_point_position s) (com_scale_property s)
      then [new_Axes p q (com_alpha_property s) (com_scale_property s)] else [])"
  by (simp add: pushBackCoMAxes_def Let_def)

lemma should_emit_same: "\<not> should_emit origin origin (Fin 1)"
  by (simp add: should_emit_values origin_def)

text \<open>
  C5 fails on the code: \<^verbatim>\<open>last_point_position_\<close> is never reset. When the message of a
  robot standing at the origin is received twice, the second pass places no axes marker
  at all, whatever the position held before the first pass.
\<close>

theorem second_pass_no_axes:
  "(case processMessage ogre_exact standing
           (WholeBodyTrajectoryDisplay last0 origin identity_orientation) of
      Inl e \<Rightarrow> Inl e
    | Inr s1 \<Rightarrow> map_sum id com_axes (processMessage ogre_exact standing s1)) = Inr []"
proof (cases "should_emit origin last0 (Fin 1)")
  case True
  then show ?thesis
    using should_emit_same by (simp add: run_defs example_defs exact_defs)
next
  case False
  then show ?thesis
    using should_emit_same by (simp add: run_defs example_defs exact_defs)
qed

subsection \<open>The scenario\<close>

text \<open>
  A track whose last-known index is out of range at a step gets no point at that step:
  the display and the marker count are left as they are.
\<close>

lemma absent_track_no_point:
  "vec tid = Some idx \<Longrightarrow> length (contacts st) \<le> idx \<Longrightarrow>
   plot_track og vec i st tid acc = Inr acc"
  by (simp add: plot_track_def Let_def)

text \<open>
  C1 fails on the code. Drawn as lines, the scenario gives one centre-of-mass strip of 3
  vertices and two contact strips, but the strip of the left foot has 3 vertices: at step
  2 the left foot is absent, its last index 0 is in range, and the strip receives the
  sample found there, which is the right foot's.
\<close>

theorem scenario_lines:
  "map_sum id
     (\<lambda>s. (map_option (map fst \<circ> mo_vertices) (com_manual_object s),
           map (map_option (map fst \<circ> mo_vertices)) (contact_manual_object s)))
     (processMessage ogre_exact scenario (fresh_display LINES))
   = Inr (Some [point 0 0 0, point 0 0 1, point 0 0 2],
          [Some [point 1 0 0, point 1 0 1, point 2 0 2], Some [point 2 0 1, point 2 0 2]])"
  by (simp add: run_defs example_defs float_defs upt_rec)

text \<open>
  With the contacts of step 1 in the other order the last index of the left foot is 1,
  out of range at step 2, and both strips have 2 vertices.
\<close>

lemma scenario_swapped_lines:
  "map_sum id
     (\<lambda>s. (map_option (map fst \<circ> mo_vertices) (com_manual_object s),
           map (map_option (map fst \<circ> mo_vertices)) (contact_manual_object s)))
     (processMessage ogre_exact scenario_swapped (fresh_display LINES))
   = Inr (Some [point 0 0 0, point 0 0 1, point 0 0 2],
          [Some [point 1 0 0, point 1 0 1], Some [point 2 0 1, point 2 0 2]])"
  by (simp add: run_defs example_defs float_defs upt_rec)

text \<open>
  Drawn as points, the scenario makes the pass write a second marker into the one slot
  of step 2.
\<close>

lemma scenario_points:
  "processMessage ogre_exact scenario (fresh_display POINTS) = Inl OutOfRange"
  by (simp add: run_defs example_defs float_defs upt_rec)

subsection \<open>Settings and vector lengths are kept by the contact pass\<close>

lemma map_of_map_insert: "map_of (map_insert k v m) = (map_of m)(k \<mapsto> v)"
  by (induction m) auto

lemma first_seen_rank_snoc:
  "first_seen_rank (pre @ [x]) =
     (if x \<in> set pre then first_seen_rank pre else (first_seen_rank pre)(x \<mapsto> card (set pre)))"
proof (rule ext)
  fix name
  show "first_seen_rank (pre @ [x]) name =
     (if x \<in> set pre then first_seen_rank pre else (first_seen_rank pre)(x \<mapsto> card (set pre))) name"
  proof (cases "name \<in> set pre")
    case True
    then have "takeWhile (\<lambda>y. y \<noteq> name) (pre @ [x]) = takeWhile (\<lambda>y. y \<noteq> name) pre"
      by simp
    with True show ?thesis by (auto simp: first_seen_rank_def)
  next
    case False
    then have "takeWhile (\<lambda>y. y \<noteq> name) (pre @ [x]) = pre @ takeWhile (\<lambda>y. y \<noteq> name) [x]"
      by (intro takeWhile_append2) auto
    with False show ?thesis by (auto simp: first_seen_rank_def)
  qed
qed

lemma first_seen_rank_None: "first_seen_rank pre name = None \<longleftrightarrow> name \<notin> set pre"
  by (simp add: first_seen_rank_def)

lemma card_snoc: "card (set (pre @ [x])) = (if x \<in> set pre then card (set pre) else Suc (card (set pre)))"
  by (simp add: insert_absorb)

lemma count_contacts_rank:
  "map_of m = first_seen_rank pre \<Longrightarrow> n = card (set pre) \<Longrightarrow>
   map_of (fst (count_contacts cs (m, n))) = first_seen_rank (pre @ map contact_name cs) \<and>
   snd (count_contacts cs (m, n)) = card (set (pre @ map contact_name cs))"
proof (induction cs arbitrary: m n pre)
  case Nil
  then show ?case by simp
next
  case (Cons c cs)
  show ?case
  proof (cases "contact_name c \<in> set pre")
    case True
    with Cons.prems have seen: "map_of m (contact_name c) \<noteq> None"
      by (simp add: first_seen_rank_None)
    have "map_of m = first_seen_rank (pre @ [contact_name c])" "n = card (set (pre @ [contact_name c]))"
      using True Cons.prems by (simp_all add: first_seen_rank_snoc insert_absorb)
    from Cons.IH[OF this] seen show ?thesis by auto
  next
    case False
    with Cons.prems have unseen: "map_of m (contact_name c) = None"
      by (simp add: first_seen_rank_None)
    have "map_of (map_insert (contact_name c) n m) = first_seen_rank (pre @ [contact_name c])"
       "Suc n = card (set (pre @ [contact_name c]))"
      using False Cons.prems by (simp_all add: first_seen_rank_snoc map_of_map_insert)
    from Cons.IH[OF this] unseen show ?thesis by simp
  qed
qed

lemma count_states_rank:
  "map_of (fst acc) = first_seen_rank pre \<Longrightarrow> snd acc = card (set pre) \<Longrightarrow>
   map_of (fst (count_states sts acc)) = first_seen_rank (pre @ contact_names sts) \<and>
   snd (count_states sts acc) = card (set (pre @ contact_names sts))"
proof (induction sts arbitrary: acc pre)
  case Nil
  then show ?case by (simp add: contact_names_def)
next
  case (Cons st sts)
  obtain m n where acc: "acc = (m, n)" by (cases acc)
  from Cons.prems acc have "map_of m = first_seen_rank pre" "n = card (set pre)" by simp_all
  from count_contacts_rank[OF this, of "contacts st"]
  have "map_of (fst (count_contacts (contacts st) acc)) = first_seen_rank (pre @ map contact_name (contacts st))"
       "snd (count_contacts (contacts st) acc) = card (set (pre @ map contact_name (contacts st)))"
    using acc by simp_all
  from Cons.IH[OF this] show ?case by (simp add: contact_names_def)
qed

lemma count_trajectories_card: "count_trajectories traj = card (set (contact_names traj))"
  using count_states_rank[of "([], 0)" "[]" traj]
  by (simp add: count_trajectories_def first_seen_rank_def fun_eq_iff)

lemma same_settings_refl [simp]: "same_settings s s"
  by (simp add: same_settings_def)

lemma same_settings_trans: "same_settings s t \<Longrightarrow> same_settings t u \<Longrightarrow> same_settings s u"
  by (simp add: same_settings_def)

lemma new_track_settings:
  "new_track n tid s = Inr s' \<Longrightarrow> same_settings s s'"
  by (auto simp: new_track_def same_settings_def split: LineStyle.splits if_splits)

lemma new_track_lengths:
  "new_track n tid s = Inr s' \<Longrightarrow>
   length (contact_billboard_line s') = length (contact_billboard_line s) \<and>
   length (contact_manual_object s') = length (contact_manual_object s) \<and>
   length (contact_points s') = length (contact_points s)"
  by (auto simp: new_track_def split: LineStyle.splits if_splits)

lemma register_contact_settings:
  "register_contact n k c p = Inr p' \<Longrightarrow> same_settings (disp p) (disp p')"
  by (auto simp: register_contact_def split: option.splits sum.splits if_splits dest: new_track_settings)

lemma register_contact_lengths:
  "register_contact n k c p = Inr p' \<Longrightarrow>
   length (contact_billboard_line (disp p')) = length (contact_billboard_line (disp p)) \<and>
   length (contact_manual_object (disp p')) = length (contact_manual_object (disp p)) \<and>
   length (contact_points (disp p')) = length (contact_points (disp p))"
  by (auto simp: register_contact_def split: option.splits sum.splits if_splits dest: new_track_lengths)

lemma register_contact_rank:
  assumes "register_contact n k c p = Inr p'"
    and "map_of (contact_traj_id p) = first_seen_rank pre" and "traj_id p = card (set pre)"
  shows "map_of (contact_traj_id p') = first_seen_rank (pre @ [contact_name c]) \<and>
         traj_id p' = card (set (pre @ [contact_name c]))"
proof (cases "contact_name c \<in> set pre")
  case True
  with assms(2) have "map_of (contact_traj_id p) (contact_name c) \<noteq> None"
    by (simp add: first_seen_rank_None)
  with assms True show ?thesis
    by (auto simp: register_contact_def first_seen_rank_snoc insert_absorb
             split: option.splits sum.splits if_splits)
next
  case False
  with assms(2) have "map_of (contact_traj_id p) (contact_name c) = None"
    by (simp add: first_seen_rank_None)
  with assms False show ?thesis
    by (auto simp: register_contact_def first_seen_rank_snoc map_of_map_insert
             split: option.splits sum.splits if_splits)
qed

lemma register_loop_settings:
  "register_loop n k cs p = Inr p' \<Longrightarrow> same_settings (disp p) (disp p')"
proof (induction cs arbitrary: k p)
  case Nil
  then show ?case by simp
next
  case (Cons c cs)
  then show ?case
    by (auto split: sum.splits dest!: register_contact_settings intro: same_settings_trans)
qed

lemma register_loop_lengths:
  "register_loop n k cs p = Inr p' \<Longrightarrow>
   length (contact_billboard_line (disp p')) = length (contact_billboard_line (disp p)) \<and>
   length (contact_manual_object (disp p')) = length (contact_manual_object (disp p)) \<and>
   length (contact_points (disp p')) = length (contact_points (disp p))"
proof (induction cs arbitrary: k p)
  case Nil
  then show ?case by simp
next
  case (Cons c cs)
  from Cons.prems obtain p1 where 1: "register_contact n k c p = Inr p1"
    and 2: "register_loop n (Suc k) cs p1 = Inr p'"
    by (auto split: sum.splits)
  from register_contact_lengths[OF 1] Cons.IH[OF 2] show ?case by simp
qed

lemma register_loop_rank:
  "register_loop n k cs p = Inr p' \<Longrightarrow>
   map_of (contact_traj_id p) = first_seen_rank pre \<Longrightarrow> traj_id p = card (set pre) \<Longrightarrow>
   map_of (contact_traj_id p') = first_seen_rank (pre @ map contact_name cs) \<and>
   traj_id p' = card (set (pre @ map contact_name cs))"
proof (induction cs arbitrary: k p pre)
  case Nil
  then show ?case by simp
next
  case (Cons c cs)
  from Cons.prems(1) obtain p1 where 1: "register_contact n k c p = Inr p1"
    and 2: "register_loop n (Suc k) cs p1 = Inr p'"
    by (auto split: sum.splits)
  from register_contact_rank[OF 1 Cons.prems(2,3)]
  have "map_of (contact_traj_id p1) = first_seen_rank (pre @ [contact_name c])"
       "traj_id p1 = card (set (pre @ [contact_name c]))" by simp_all
  from Cons.IH[OF 2 this] show ?case by simp
qed

lemma plot_track_settings:
  "plot_track og vec i st tid acc = Inr acc' \<Longrightarrow> same_settings (snd acc) (snd acc')"
  by (auto simp: plot_track_def same_settings_def Let_def
           split: option.splits if_splits LineStyle.splits)

lemma plot_track_lengths:
  "plot_track og vec i st tid acc = Inr acc' \<Longrightarrow>
   length (contact_billboard_line (snd acc')) = length (contact_billboard_line (snd acc)) \<and>
   length (contact_manual_object (snd acc')) = length (contact_manual_object (snd acc)) \<and>
   length (contact_points (snd acc')) = length (contact_points (snd acc))"
  by (auto simp: plot_track_def Let_def split: option.splits if_splits LineStyle.splits)

lemma plot_loop_settings:
  "plot_loop og vec i st m acc = Inr acc' \<Longrightarrow> same_settings (snd acc) (snd acc')"
proof (induction m arbitrary: acc)
  case Nil
  then show ?case by simp
next
  case (Cons e m)
  from Cons.prems obtain a1 where 1: "plot_track og vec i st (snd e) acc = Inr a1"
    and 2: "plot_loop og vec i st m a1 = Inr acc'"
    by (auto split: sum.splits)
  from plot_track_settings[OF 1] Cons.IH[OF 2] show ?case by (rule same_settings_trans)
qed

lemma plot_loop_lengths:
  "plot_loop og vec i st m acc = Inr acc' \<Longrightarrow>
   length (contact_billboard_line (snd acc')) = length (contact_billboard_line (snd acc)) \<and>
   length (contact_manual_object (snd acc')) = length (contact_manual_object (snd acc)) \<and>
   length (contact_points (snd acc')) = length (contact_points (snd acc))"
proof (induction m arbitrary: acc)
  case Nil
  then show ?case by simp
next
  case (Cons e m)
  from Cons.prems obtain a1 where 1: "plot_track og vec i st (snd e) acc = Inr a1"
    and 2: "plot_loop og vec i st m a1 = Inr acc'"
    by (auto split: sum.splits)
  from plot_track_lengths[OF 1] Cons.IH[OF 2] show ?case by simp
qed

lemma contact_stepE:
  assumes "contact_step og n i st p = Inr p'"
  obtains p1 s1 acc where
    "register_loop n 0 (contacts st) p = Inr p1"
    "if contact_style_property (disp p1) = POINTS
     then i < length (contact_points (disp p1)) \<and>
          s1 = (disp p1)\<lparr>contact_points :=
                   (contact_points (disp p1))[i := replicate (length (contacts st)) None]\<rparr>
     else s1 = disp p1"
    "plot_loop og (contact_vec_id p1) i st (contact_traj_id p1) (0, s1) = Inr acc"
    "p' = p1\<lparr>disp := snd acc\<rparr>"
  using assms
  by (auto simp: contact_step_def Let_def split: sum.splits if_splits)

lemma contact_step_settings:
  assumes "contact_step og n i st p = Inr p'"
  shows "same_settings (disp p) (disp p')"
proof -
  from assms obtain p1 s1 acc where
    1: "register_loop n 0 (contacts st) p = Inr p1" and
    2: "if contact_style_property (disp p1) = POINTS
     then i < length (contact_points (disp p1)) \<and>
          s1 = (disp p1)\<lparr>contact_points :=
                   (contact_points (disp p1))[i := replicate (length (contacts st)) None]\<rparr>
     else s1 = disp p1" and
    3: "plot_loop og (contact_vec_id p1) i st (contact_traj_id p1) (0, s1) = Inr acc" and
    4: "p' = p1\<lparr>disp := snd acc\<rparr>"
    by (rule contact_stepE)
  from 2 have "same_settings (disp p1) s1" by (auto simp: same_settings_def split: if_splits)
  with register_loop_settings[OF 1] plot_loop_settings[OF 3] 4 show ?thesis
    by (auto intro: same_settings_trans)
qed

lemma contact_step_lengths:
  assumes "contact_step og n i st p = Inr p'"
  shows "length (contact_billboard_line (disp p')) = length (contact_billboard_line (disp p)) \<and>
   length (contact_manual_object (disp p')) = length (contact_manual_object (disp p)) \<and>
   length (contact_points (disp p')) = length (contact_points (disp p))"
proof -
  from assms obtain p1 s1 acc where
    1: "register_loop n 0 (contacts st) p = Inr p1" and
    2: "if contact_style_property (disp p1) = POINTS
     then i < length (contact_points (disp p1)) \<and>
          s1 = (disp p1)\<lparr>contact_points :=
                   (contact_points (disp p1))[i := replicate (length (contacts st)) None]\<rparr>
     else s1 = disp p1" and
    3: "plot_loop og (contact_vec_id p1) i st (contact_traj_id p1) (0, s1) = Inr acc" and
    4: "p' = p1\<lparr>disp := snd acc\<rparr>"
    by (rule contact_stepE)
  from 2 have "length (contact_billboard_line s1) = length (contact_billboard_line (disp p1)) \<and>
   length (contact_manual_object s1) = length (contact_manual_object (disp p1)) \<and>
   length (contact_points s1) = length (contact_points (disp p1))" by (auto split: if_splits)
  with register_loop_lengths[OF 1] plot_loop_lengths[OF 3] 4 show ?thesis
    by simp
qed

lemma contact_step_rank:
  assumes "contact_step og n i st p = Inr p'"
    and "map_of (contact_traj_id p) = first_seen_rank pre" and "traj_id p = card (set pre)"
  shows "map_of (contact_traj_id p') = first_seen_rank (pre @ map contact_name (contacts st)) \<and>
         traj_id p' = card (set (pre @ map contact_name (contacts st)))"
proof -
  from assms(1) obtain p1 and acc :: "nat \<times> display" where
    1: "register_loop n 0 (contacts st) p = Inr p1" and
    4: "p' = p1\<lparr>disp := snd acc\<rparr>"
    by (rule contact_stepE)
  from register_loop_rank[OF 1 assms(2,3)] 4 show ?thesis by simp
qed

lemma contact_loop_settings:
  "contact_loop og n i sts p = Inr p' \<Longrightarrow> same_settings (disp p) (disp p')"
proof (induction sts arbitrary: i p)
  case Nil
  then show ?case by simp
next
  case (Cons st sts)
  from Cons.prems obtain p1 where 1: "contact_step og n i st p = Inr p1"
    and 2: "contact_loop og n (Suc i) sts p1 = Inr p'"
    by (auto split: sum.splits)
  from contact_step_settings[OF 1] Cons.IH[OF 2] show ?case by (rule same_settings_trans)
qed

lemma contact_loop_lengths:
  "contact_loop og n i sts p = Inr p' \<Longrightarrow>
   length (contact_billboard_line (disp p')) = length (contact_billboard_line (disp p)) \<and>
   length (contact_manual_object (disp p')) = length (contact_manual_object (disp p)) \<and>
   length (contact_points (disp p')) = length (contact_points (disp p))"
proof (induction sts arbitrary: i p)
  case Nil
  then show ?case by simp
next
  case (Cons st sts)
  from Cons.prems obtain p1 where 1: "contact_step og n i st p = Inr p1"
    and 2: "contact_loop og n (Suc i) sts p1 = Inr p'"
    by (auto split: sum.splits)
  from contact_step_lengths[OF 1] Cons.IH[OF 2] show ?case by simp
qed

lemma contact_loop_rank:
  "contact_loop og n i sts p = Inr p' \<Longrightarrow>
   map_of (contact_traj_id p) = first_seen_rank pre \<Longrightarrow> traj_id p = card (set pre) \<Longrightarrow>
   map_of (contact_traj_id p') = first_seen_rank (pre @ contact_names sts) \<and>
   traj_id p' = card (set (pre @ contact_names sts))"
proof (induction sts arbitrary: i p pre)
  case Nil
  then show ?case by (simp add: contact_names_def)
next
  case (Cons st sts)
  from Cons.prems(1) obtain p1 where 1: "contact_step og n i st p = Inr p1"
    and 2: "contact_loop og n (Suc i) sts p1 = Inr p'"
    by (auto split: sum.splits)
  from contact_step_rank[OF 1 Cons.prems(2,3)]
  have "map_of (contact_traj_id p1) = first_seen_rank (pre @ map contact_name (contacts st))"
       "traj_id p1 = card (set (pre @ map contact_name (contacts st)))" by simp_all
  from Cons.IH[OF 2 this] show ?case by (simp add: contact_names_def)
qed

lemma end_loop_length: "end_loop is objs = Inr objs' \<Longrightarrow> length objs' = length objs"
  by (induction "is" arbitrary: objs) (auto split: if_splits option.splits)

lemma start_pass_simps:
  "contact_traj_id (start_pass n m s) = []" "traj_id (start_pass n m s) = 0"
  "same_settings s (disp (start_pass n m s))"
  "contact_style_property s = BILLBOARDS \<Longrightarrow> length (contact_billboard_line (disp (start_pass n m s))) = m"
  "contact_style_property s = LINES \<Longrightarrow> length (contact_manual_object (disp (start_pass n m s))) = m"
  "contact_style_property s = POINTS \<Longrightarrow> contact_points (disp (start_pass n m s)) = replicate n []"
  by (auto simp: start_pass_def same_settings_def split: LineStyle.splits)

lemma first_seen_rank_Nil: "first_seen_rank [] = Map.empty"
  by (simp add: first_seen_rank_def fun_eq_iff)

subsection \<open>The contact pass completes when it draws lines\<close>

lemma set_map_insert: "set (map_insert k v m) \<subseteq> insert (k, v) (set m)"
  by (induction m) (auto split: if_splits)

lemma capacity_same:
  "same_settings s t \<Longrightarrow>
   length (contact_billboard_line t) = length (contact_billboard_line s) \<Longrightarrow>
   length (contact_manual_object t) = length (contact_manual_object s) \<Longrightarrow>
   capacity t = capacity s"
  by (simp add: capacity_def same_settings_def split: LineStyle.splits)

lemma new_track_built:
  assumes "contact_style_property s = POINTS \<or> tid < capacity s"
  shows "\<exists>s'. new_track n tid s = Inr s' \<and> track_built s' tid \<and>
           (\<forall>t. track_built s t \<longrightarrow> track_built s' t)"
proof (cases "contact_style_property s")
  case BILLBOARDS
  with assms show ?thesis
    by (auto simp: new_track_def capacity_def track_built_def nth_list_update)
next
  case LINES
  with assms show ?thesis
    by (auto simp: new_track_def capacity_def track_built_def nth_list_update)
next
  case POINTS
  then show ?thesis by (simp add: new_track_def track_built_def)
qed

lemma register_contact_total:
  assumes ok: "tracks_ok p"
    and rank: "map_of (contact_traj_id p) = first_seen_rank pre" "traj_id p = card (set pre)"
    and cap: "contact_style_property (disp p) = POINTS \<or>
              card (set (pre @ [contact_name c])) \<le> capacity (disp p)"
  shows "\<exists>p'. register_contact n k c p = Inr p' \<and> tracks_ok p'"
proof (cases "map_of (contact_traj_id p) (contact_name c)")
  case None
  then have new: "contact_name c \<notin> set pre" using rank(1) by (simp add: first_seen_rank_None[symmetric])
  with cap rank(2) have "contact_style_property (disp p) = POINTS \<or> traj_id p < capacity (disp p)"
    by (auto simp: card_snoc)
  from new_track_built[OF this, of n] obtain d where
    d: "new_track n (traj_id p) (disp p) = Inr d" and
    built: "track_built d (traj_id p)" and
    keep: "\<forall>t. track_built (disp p) t \<longrightarrow> track_built d t"
    by blast
  let ?p' = "p\<lparr>contact_traj_id :=
                  map_insert (contact_name c) (traj_id p) (contact_traj_id p),
                contact_vec_id := (contact_vec_id p)(traj_id p \<mapsto> k),
                traj_id := Suc (traj_id p),
                disp := d\<rparr>"
  from None d have run: "register_contact n k c p = Inr ?p'"
    by (simp add: register_contact_def)
  have "tracks_ok ?p'"
    unfolding tracks_ok_def
  proof (intro conjI ballI allI impI)
    fix e assume "e \<in> set (contact_traj_id ?p')"
    then have "e = (contact_name c, traj_id p) \<or> e \<in> set (contact_traj_id p)"
      using set_map_insert[of "contact_name c" "traj_id p" "contact_traj_id p"] by auto
    with ok show "snd e < traj_id ?p'" by (auto simp: tracks_ok_def less_Suc_eq)
  next
    fix tid assume "tid < traj_id ?p'"
    with ok show "contact_vec_id ?p' tid \<noteq> None" by (auto simp: tracks_ok_def less_Suc_eq)
  next
    fix tid assume "tid < traj_id ?p'"
    then have "tid = traj_id p \<or> tid < traj_id p" by auto
    with ok built keep show "track_built (disp ?p') tid" by (auto simp: tracks_ok_def)
  qed
  with run show ?thesis by blast
next
  case (Some swing_idx)
  then have "(contact_name c, swing_idx) \<in> set (contact_traj_id p)" by (rule map_of_SomeD)
  with ok have lt: "swing_idx < traj_id p" by (auto simp: tracks_ok_def)
  with ok obtain k' where k': "contact_vec_id p swing_idx = Some k'"
    by (auto simp: tracks_ok_def)
  let ?p' = "if k \<noteq> k' then p\<lparr>contact_vec_id := (contact_vec_id p)(swing_idx \<mapsto> k)\<rparr> else p"
  from Some k' have run: "register_contact n k c p = Inr ?p'"
    by (simp add: register_contact_def)
  from ok have "tracks_ok ?p'" by (auto simp: tracks_ok_def)
  with run show ?thesis by blast
qed

lemma register_contact_capacity:
  assumes "register_contact n k c p = Inr p'"
  shows "capacity (disp p') = capacity (disp p) \<and>
         contact_style_property (disp p') = contact_style_property (disp p)"
proof -
  note same = register_contact_settings[OF assms] and len = register_contact_lengths[OF assms]
  from same len have "capacity (disp p') = capacity (disp p)" by (simp add: capacity_same)
  moreover from same have "contact_style_property (disp p') = contact_style_property (disp p)"
    by (simp add: same_settings_def)
  ultimately show ?thesis by simp
qed

lemma card_prefix_le: "card (set (pre @ [x])) \<le> card (set (pre @ x # xs))"
  by (rule card_mono) auto

lemma register_loop_total:
  "tracks_ok p \<Longrightarrow> map_of (contact_traj_id p) = first_seen_rank pre \<Longrightarrow>
   traj_id p = card (set pre) \<Longrightarrow>
   contact_style_property (disp p) = POINTS \<or>
     card (set (pre @ map contact_name cs)) \<le> capacity (disp p) \<Longrightarrow>
   \<exists>p'. register_loop n k cs p = Inr p' \<and> tracks_ok p'"
proof (induction cs arbitrary: k p pre)
  case Nil
  then show ?case by simp
next
  case (Cons c cs)
  have "card (set (pre @ [contact_name c])) \<le> card (set (pre @ map contact_name (c # cs)))"
    by (rule card_mono) auto
  with Cons.prems(4) have cap1: "contact_style_property (disp p) = POINTS \<or>
              card (set (pre @ [contact_name c])) \<le> capacity (disp p)" by auto
  from register_contact_total[OF Cons.prems(1,2,3) cap1, of n k] obtain p1 where
    1: "register_contact n k c p = Inr p1" and ok1: "tracks_ok p1" by blast
  note r1 = register_contact_rank[OF 1 Cons.prems(2,3)]
  from register_contact_capacity[OF 1] Cons.prems(4)
  have cap2: "contact_style_property (disp p1) = POINTS \<or>
     card (set ((pre @ [contact_name c]) @ map contact_name cs)) \<le> capacity (disp p1)" by simp
  from Cons.IH[OF ok1 r1[THEN conjunct1] r1[THEN conjunct2] cap2, of "Suc k"] obtain p' where
    "register_loop n (Suc k) cs p1 = Inr p'" "tracks_ok p'" by blast
  with 1 show ?case by simp
qed

lemma plot_track_total:
  assumes style: "contact_style_property (snd acc) \<noteq> POINTS"
    and vec: "vec tid \<noteq> None" and built: "track_built (snd acc) tid"
  shows "\<exists>acc'. plot_track og vec i st tid acc = Inr acc' \<and>
           (\<forall>t. track_built (snd acc) t \<longrightarrow> track_built (snd acc') t)"
proof -
  from vec obtain idx where idx: "vec tid = Some idx" by auto
  show ?thesis
  proof (cases "idx < length (contacts st)")
    case False
    with idx show ?thesis by (simp add: plot_track_def Let_def)
  next
    case True
    show ?thesis
    proof (cases "contact_style_property (snd acc)")
      case BILLBOARDS
      with built obtain b where "tid < length (contact_billboard_line (snd acc))"
        "contact_billboard_line (snd acc) ! tid = Some b"
        by (auto simp: track_built_def)
      with idx True BILLBOARDS show ?thesis
        by (simp add: plot_track_def Let_def track_built_def nth_list_update)
    next
      case LINES
      with built obtain m where "tid < length (contact_manual_object (snd acc))"
        "contact_manual_object (snd acc) ! tid = Some m"
        by (auto simp: track_built_def)
      with idx True LINES show ?thesis
        by (simp add: plot_track_def Let_def track_built_def nth_list_update)
    next
      case POINTS
      with style show ?thesis by simp
    qed
  qed
qed

lemma plot_loop_total:
  "contact_style_property (snd acc) \<noteq> POINTS \<Longrightarrow>
   \<forall>e \<in> set m. vec (snd e) \<noteq> None \<and> track_built (snd acc) (snd e) \<Longrightarrow>
   \<exists>acc'. plot_loop og vec i st m acc = Inr acc' \<and>
           (\<forall>t. track_built (snd acc) t \<longrightarrow> track_built (snd acc') t)"
proof (induction m arbitrary: acc)
  case Nil
  then show ?case by simp
next
  case (Cons e m)
  from Cons.prems(2) have "vec (snd e) \<noteq> None" "track_built (snd acc) (snd e)" by simp_all
  from plot_track_total[where vec = vec and tid = "snd e" and og = og and i = i and st = st,
      OF Cons.prems(1) this] obtain a1 where
    1: "plot_track og vec i st (snd e) acc = Inr a1" and
    keep1: "\<forall>t. track_built (snd acc) t \<longrightarrow> track_built (snd a1) t" by blast
  from plot_track_settings[OF 1] Cons.prems(1)
  have style1: "contact_style_property (snd a1) \<noteq> POINTS" by (simp add: same_settings_def)
  from Cons.prems(2) keep1
  have "\<forall>e \<in> set m. vec (snd e) \<noteq> None \<and> track_built (snd a1) (snd e)" by simp
  from Cons.IH[OF style1 this] obtain acc' where
    2: "plot_loop og vec i st m a1 = Inr acc'" and
    keep2: "\<forall>t. track_built (snd a1) t \<longrightarrow> track_built (snd acc') t" by blast
  from 1 2 have "plot_loop og vec i st (e # m) acc = Inr acc'" by simp
  with keep1 keep2 show ?case by blast
qed

lemma contact_step_total:
  assumes style: "contact_style_property (disp p) \<noteq> POINTS" and ok: "tracks_ok p"
    and rank: "map_of (contact_traj_id p) = first_seen_rank pre" "traj_id p = card (set pre)"
    and cap: "card (set (pre @ map contact_name (contacts st))) \<le> capacity (disp p)"
  shows "\<exists>p'. contact_step og n i st p = Inr p' \<and> tracks_ok p'"
proof -
  from cap have "contact_style_property (disp p) = POINTS \<or>
     card (set (pre @ map contact_name (contacts st))) \<le> capacity (disp p)" by simp
  from register_loop_total[OF ok rank this, of n 0] obtain p1 where
    1: "register_loop n 0 (contacts st) p = Inr p1" and ok1: "tracks_ok p1" by blast
  from register_loop_settings[OF 1] style
  have style1: "contact_style_property (disp p1) \<noteq> POINTS" by (simp add: same_settings_def)
  then have style1': "contact_style_property (snd (0::nat, disp p1)) \<noteq> POINTS" by simp
  from ok1 have "\<forall>e \<in> set (contact_traj_id p1).
      contact_vec_id p1 (snd e) \<noteq> None \<and> track_built (snd (0::nat, disp p1)) (snd e)"
    by (simp add: tracks_ok_def)
  from plot_loop_total[OF style1' this, of og i st] obtain acc where
    3: "plot_loop og (contact_vec_id p1) i st (contact_traj_id p1) (0, disp p1) = Inr acc" and
    keep: "\<forall>t. track_built (disp p1) t \<longrightarrow> track_built (snd acc) t" by auto
  from 1 style1 3 have run: "contact_step og n i st p = Inr (p1\<lparr>disp := snd acc\<rparr>)"
    by (simp add: contact_step_def Let_def)
  from ok1 keep have "tracks_ok (p1\<lparr>disp := snd acc\<rparr>)" by (simp add: tracks_ok_def)
  with run show ?thesis by blast
qed

lemma contact_step_capacity:
  assumes "contact_step og n i st p = Inr p'"
  shows "capacity (disp p') = capacity (disp p) \<and>
         contact_style_property (disp p') = contact_style_property (disp p)"
proof -
  note same = contact_step_settings[OF assms] and len = contact_step_lengths[OF assms]
  from same len have "capacity (disp p') = capacity (disp p)" by (simp add: capacity_same)
  moreover from same have "contact_style_property (disp p') = contact_style_property (disp p)"
    by (simp add: same_settings_def)
  ultimately show ?thesis by simp
qed

lemma contact_loop_total:
  "contact_style_property (disp p) \<noteq> POINTS \<Longrightarrow> tracks_ok p \<Longrightarrow>
   map_of (contact_traj_id p) = first_seen_rank pre \<Longrightarrow> traj_id p = card (set pre) \<Longrightarrow>
   card (set (pre @ contact_names sts)) \<le> capacity (disp p) \<Longrightarrow>
   \<exists>p'. contact_loop og n i sts p = Inr p' \<and> tracks_ok p'"
proof (induction sts arbitrary: i p pre)
  case Nil
  then show ?case by simp
next
  case (Cons st sts)
  have "card (set (pre @ map contact_name (contacts st)))
          \<le> card (set (pre @ contact_names (st # sts)))"
    by (rule card_mono) (auto simp: contact_names_def)
  with Cons.prems(5)
  have cap1: "card (set (pre @ map contact_name (contacts st))) \<le> capacity (disp p)" by simp
  from contact_step_total[OF Cons.prems(1,2,3,4) cap1, of og n i] obtain p1 where
    1: "contact_step og n i st p = Inr p1" and ok1: "tracks_ok p1" by blast
  note r1 = contact_step_rank[OF 1 Cons.prems(3,4)]
  note c1 = contact_step_capacity[OF 1]
  from c1 Cons.prems(1) have style1: "contact_style_property (disp p1) \<noteq> POINTS" by simp
  from c1 Cons.prems(5)
  have cap2: "card (set ((pre @ map contact_name (contacts st)) @ contact_names sts))
                \<le> capacity (disp p1)"
    by (simp add: contact_names_def)
  from Cons.IH[OF style1 ok1 r1[THEN conjunct1] r1[THEN conjunct2] cap2, of "Suc i"] obtain p' where
    "contact_loop og n (Suc i) sts p1 = Inr p'" "tracks_ok p'" by blast
  with 1 show ?case by simp
qed

lemma end_loop_total:
  "\<forall>i \<in> set ids. i < length objs \<and> objs ! i \<noteq> None \<Longrightarrow> \<exists>objs'. end_loop ids objs = Inr objs'"
proof (induction ids arbitrary: objs)
  case Nil
  then show ?case by simp
next
  case (Cons i ids)
  from Cons.prems obtain m where i: "i < length objs" "objs ! i = Some m" by auto
  from Cons.prems
  have "\<forall>j \<in> set ids. j < length (objs[i := Some (mo_end m)]) \<and>
          objs[i := Some (mo_end m)] ! j \<noteq> None"
    by (simp add: nth_list_update)
  from Cons.IH[OF this] i show ?case by simp
qed

lemma processContactTrajectory_total:
  assumes "contact_style_property s \<noteq> POINTS" "contact_enable s" "msg s = Some traj"
  shows "\<exists>s'. processContactTrajectory og s = Inr s'"
proof -
  let ?n = "length traj"
  let ?p0 = "start_pass ?n (count_trajectories traj) s"
  have style0: "contact_style_property (disp ?p0) \<noteq> POINTS"
    using assms(1) start_pass_simps(3)[of s ?n "count_trajectories traj"]
    by (simp add: same_settings_def)
  have ok0: "tracks_ok ?p0" by (simp add: tracks_ok_def start_pass_simps)
  have rank0: "map_of (contact_traj_id ?p0) = first_seen_rank []" "traj_id ?p0 = card (set [])"
    by (simp_all add: start_pass_simps first_seen_rank_Nil)
  have "capacity (disp ?p0) = count_trajectories traj"
    using assms(1) by (cases "contact_style_property s") (simp_all add: capacity_def start_pass_def)
  then have cap0: "card (set ([] @ contact_names traj)) \<le> capacity (disp ?p0)"
    by (simp add: count_trajectories_card)
  from contact_loop_total[OF style0 ok0 rank0 cap0, of og ?n 0] obtain p where
    run: "contact_loop og ?n 0 traj ?p0 = Inr p" and ok: "tracks_ok p" by blast
  show ?thesis
  proof (cases "contact_style_property (disp p) = LINES")
    case False
    with run assms show ?thesis by (simp add: processContactTrajectory_def Let_def)
  next
    case True
    with ok have "\<forall>i \<in> set [0..<traj_id p]. i < length (contact_manual_object (disp p)) \<and>
        contact_manual_object (disp p) ! i \<noteq> None"
      by (simp add: tracks_ok_def track_built_def)
    from end_loop_total[OF this] obtain objs where
      "end_loop [0..<traj_id p] (contact_manual_object (disp p)) = Inr objs" by blast
    with run True assms show ?thesis by (simp add: processContactTrajectory_def Let_def)
  qed
qed


subsection \<open>Track ids\<close>

text \<open>
  C2. The first pass counts the distinct contact names of the trajectory. The second pass
  completes whenever billboard lines or manual objects are drawn, and whenever it
  completes it has given every name the id that is its rank in the order of first
  appearance, and the next free id is the number of distinct names. The vector of
  billboard lines, or of manual objects, that the pass allocates has that length.
\<close>

theorem track_ids_first_appearance:
  "count_trajectories traj = card (set (contact_names traj)) \<and>
   (contact_style_property s \<noteq> POINTS \<longrightarrow>
      (\<exists>p. contact_loop og n 0 traj (start_pass n (count_trajectories traj) s) = Inr p)) \<and>
   (contact_loop og n 0 traj (start_pass n (count_trajectories traj) s) = Inr p \<longrightarrow>
      traj_id p = card (set (contact_names traj)) \<and>
      map_of (contact_traj_id p) = first_seen_rank (contact_names traj)) \<and>
   (contact_style_property s \<noteq> POINTS \<and> contact_enable s \<and> msg s = Some traj \<longrightarrow>
      (\<exists>s'. processContactTrajectory og s = Inr s')) \<and>
   (contact_enable s \<and> msg s = Some traj \<and> processContactTrajectory og s = Inr s' \<longrightarrow>
      (contact_style_property s = BILLBOARDS \<longrightarrow>
         length (contact_billboard_line s') = card (set (contact_names traj))) \<and>
      (contact_style_property s = LINES \<longrightarrow>
         length (contact_manual_object s') = card (set (contact_names traj))))"
proof (intro conjI impI)
  show count: "count_trajectories traj = card (set (contact_names traj))"
    by (rule count_trajectories_card)
  {
    assume style: "contact_style_property s \<noteq> POINTS"
    let ?p0 = "start_pass n (count_trajectories traj) s"
    have style0: "contact_style_property (disp ?p0) \<noteq> POINTS"
      using style start_pass_simps(3)[of s n "count_trajectories traj"]
      by (simp add: same_settings_def)
    have ok0: "tracks_ok ?p0" by (simp add: tracks_ok_def start_pass_simps)
    have rank0: "map_of (contact_traj_id ?p0) = first_seen_rank []" "traj_id ?p0 = card (set [])"
      by (simp_all add: start_pass_simps first_seen_rank_Nil)
    have "capacity (disp ?p0) = count_trajectories traj"
      using style by (cases "contact_style_property s") (simp_all add: capacity_def start_pass_def)
    then have cap0: "card (set ([] @ contact_names traj)) \<le> capacity (disp ?p0)"
      by (simp add: count_trajectories_card)
    from contact_loop_total[OF style0 ok0 rank0 cap0, of og n 0]
    show "\<exists>p. contact_loop og n 0 traj (start_pass n (count_trajectories traj) s) = Inr p"
      by blast
  }
  {
    assume "contact_style_property s \<noteq> POINTS \<and> contact_enable s \<and> msg s = Some traj"
    then show "\<exists>s'. processContactTrajectory og s = Inr s'"
      by (blast intro: processContactTrajectory_total)
  }
  {
    assume run: "contact_loop og n 0 traj (start_pass n (count_trajectories traj) s) = Inr p"
    from contact_loop_rank[OF run, of "[]"]
    show "traj_id p = card (set (contact_names traj))"
      and "map_of (contact_traj_id p) = first_seen_rank (contact_names traj)"
      by (simp_all add: start_pass_simps first_seen_rank_Nil)
  }
  {
    assume pre: "contact_enable s \<and> msg s = Some traj \<and> processContactTrajectory og s = Inr s'"
    then obtain p where
      run: "contact_loop og (length traj) 0 traj (start_pass (length traj) (count_trajectories traj) s) = Inr p"
      and fin: "(if contact_style_property (disp p) = LINES
            then (case end_loop [0..<traj_id p] (contact_manual_object (disp p)) of
                    Inl e \<Rightarrow> Inl e
                  | Inr objs \<Rightarrow> Inr ((disp p)\<lparr>contact_manual_object := objs\<rparr>))
            else Inr (disp p)) = Inr s'"
      by (auto simp: processContactTrajectory_def Let_def split: sum.splits)
    from contact_loop_settings[OF run] start_pass_simps(3)[of s "length traj" "count_trajectories traj"]
    have style: "contact_style_property (disp p) = contact_style_property s"
      by (simp add: same_settings_def)
    note len = contact_loop_lengths[OF run]
    {
      assume b: "contact_style_property s = BILLBOARDS"
      with fin style have "s' = disp p" by simp
      with len b count show "length (contact_billboard_line s') = card (set (contact_names traj))"
        by (simp add: start_pass_simps)
    }
    {
      assume l: "contact_style_property s = LINES"
      with fin style obtain objs where
        "end_loop [0..<traj_id p] (contact_manual_object (disp p)) = Inr objs"
        "s' = (disp p)\<lparr>contact_manual_object := objs\<rparr>"
        by (auto split: sum.splits)
      with end_loop_length[OF this(1)] len l count
      show "length (contact_manual_object s') = card (set (contact_names traj))"
        by (simp add: start_pass_simps)
    }
  }
qed

theorem track_ids_first_appearance_witness:
  "contact_loop ogre_exact 3 0 scenario
       (start_pass 3 (count_trajectories scenario) (loaded_display LINES))
     = Inr (projr (contact_loop ogre_exact 3 0 scenario
                     (start_pass 3 (count_trajectories scenario) (loaded_display LINES)))) \<and>
   contact_enable (loaded_display LINES) \<and> msg (loaded_display LINES) = Some scenario \<and>
   contact_style_property (loaded_display LINES) = LINES \<and>
   processContactTrajectory ogre_exact (loaded_display LINES)
     = Inr (projr (processContactTrajectory ogre_exact (loaded_display LINES))) \<and>
   contact_enable (loaded_display BILLBOARDS) \<and> msg (loaded_display BILLBOARDS) = Some scenario \<and>
   contact_style_property (loaded_display BILLBOARDS) = BILLBOARDS \<and>
   processContactTrajectory ogre_exact (loaded_display BILLBOARDS)
     = Inr (projr (processContactTrajectory ogre_exact (loaded_display BILLBOARDS))) \<and>
   count_trajectories scenario = 2 \<and>
   card (set (contact_names scenario)) = 2 \<and>
   traj_id (projr (contact_loop ogre_exact 3 0 scenario
                     (start_pass 3 (count_trajectories scenario) (loaded_display LINES)))) = 2 \<and>
   contact_traj_id (projr (contact_loop ogre_exact 3 0 scenario
                     (start_pass 3 (count_trajectories scenario) (loaded_display LINES))))
     = [(''left_foot'', 0), (''right_foot'', 1)] \<and>
   first_seen_rank (contact_names scenario) ''left_foot'' = Some 0 \<and>
   first_seen_rank (contact_names scenario) ''right_foot'' = Some 1 \<and>
   length (contact_manual_object (projr (processContactTrajectory ogre_exact (loaded_display LINES))))
     = card (set (contact_names scenario)) \<and>
   length (contact_billboard_line
             (projr (processContactTrajectory ogre_exact (loaded_display BILLBOARDS))))
     = card (set (contact_names scenario))"
  using track_ids_first_appearance
      [where traj = scenario and og = ogre_exact and n = 3 and s = "loaded_display LINES"
         and p = "projr (contact_loop ogre_exact 3 0 scenario
                     (start_pass 3 (count_trajectories scenario) (loaded_display LINES)))"
         and s' = "projr (processContactTrajectory ogre_exact (loaded_display LINES))"]
    track_ids_first_appearance
      [where traj = scenario and og = ogre_exact and n = 3 and s = "loaded_display BILLBOARDS"
         and p = "projr (contact_loop ogre_exact 3 0 scenario
                     (start_pass 3 (count_trajectories scenario) (loaded_display BILLBOARDS)))"
         and s' = "projr (processContactTrajectory ogre_exact (loaded_display BILLBOARDS))"]
  by (simp add: run_defs example_defs float_defs upt_rec contact_names_def first_seen_rank_def)

subsection \<open>The centre-of-mass point markers\<close>

lemma pushBackCoMAxes_settings: "same_settings s (pushBackCoMAxes p q s)"
  by (simp add: pushBackCoMAxes_def same_settings_def Let_def)

lemma pushBackCoMAxes_fields:
  "com_points (pushBackCoMAxes p q s) = com_points s"
  "com_billboard_line (pushBackCoMAxes p q s) = com_billboard_line s"
  "com_manual_object (pushBackCoMAxes p q s) = com_manual_object s"
  "created s \<le> created (pushBackCoMAxes p q s)"
  by (simp_all add: pushBackCoMAxes_def Let_def)

lemma same_settingsD:
  "same_settings s t \<Longrightarrow>
     com_style_property t = com_style_property s \<and>
     com_line_width_property t = com_line_width_property s \<and>
     com_color_property t = com_color_property s \<and>
     com_alpha_property t = com_alpha_property s \<and>
     contact_style_property t = contact_style_property s \<and>
     contact_line_width_property t = contact_line_width_property s \<and>
     contact_color_property t = contact_color_property s \<and>
     contact_alpha_property t = contact_alpha_property s \<and>
     frame_position t = frame_position s \<and>
     frame_orientation t = frame_orientation s"
  by (simp add: same_settings_def)

lemma com_step_points:
  assumes "com_style_property s = POINTS"
  shows "\<exists>s'. com_step og n i st s = Inr s' \<and> same_settings s s' \<and>
     com_points s' = (if i = 0 then [] else com_points s) @
        [\<lparr>pv_color = set_alpha (com_alpha_property s) (com_color_property s),
          pv_radius = com_line_width_property s,
          pv_point = sanitize_point (com_position st),
          pv_frame_position = frame_position s,
          pv_frame_orientation = frame_orientation s\<rparr>]"
  using assms pushBackCoMAxes_settings[of s]
  by (simp add: com_step_def Let_def pushBackCoMAxes_fields same_settings_def)

lemma com_loop_points_later:
  "com_style_property s = POINTS \<Longrightarrow>
   \<exists>s'. com_loop og n (Suc i) sts s = Inr s' \<and> same_settings s s' \<and>
     com_points s' = com_points s @
        map (\<lambda>st. \<lparr>pv_color = set_alpha (com_alpha_property s) (com_color_property s),
          pv_radius = com_line_width_property s,
          pv_point = sanitize_point (com_position st),
          pv_frame_position = frame_position s,
          pv_frame_orientation = frame_orientation s\<rparr>) sts"
proof (induction sts arbitrary: i s)
  case Nil
  then show ?case by simp
next
  case (Cons st sts)
  from com_step_points[OF Cons.prems, of og n "Suc i" st] obtain s1 where
    1: "com_step og n (Suc i) st s = Inr s1" and 2: "same_settings s s1" and
    3: "com_points s1 = com_points s @
        [\<lparr>pv_color = set_alpha (com_alpha_property s) (com_color_property s),
          pv_radius = com_line_width_property s,
          pv_point = sanitize_point (com_position st),
          pv_frame_position = frame_position s,
          pv_frame_orientation = frame_orientation s\<rparr>]"
    by auto
  from 2 Cons.prems have "com_style_property s1 = POINTS" by (simp add: same_settings_def)
  from Cons.IH[OF this, of "Suc i"] obtain s' where
    4: "com_loop og n (Suc (Suc i)) sts s1 = Inr s'" and 5: "same_settings s1 s'" and
    6: "com_points s' = com_points s1 @
        map (\<lambda>st. \<lparr>pv_color = set_alpha (com_alpha_property s1) (com_color_property s1),
          pv_radius = com_line_width_property s1,
          pv_point = sanitize_point (com_position st),
          pv_frame_position = frame_position s1,
          pv_frame_orientation = frame_orientation s1\<rparr>) sts"
    by auto
  from 1 4 have "com_loop og n (Suc i) (st # sts) s = Inr s'" by simp
  moreover from 2 5 have "same_settings s s'" by (rule same_settings_trans)
  moreover from 3 6 same_settingsD[OF 2] have "com_points s' = com_points s @
        map (\<lambda>st. \<lparr>pv_color = set_alpha (com_alpha_property s) (com_color_property s),
          pv_radius = com_line_width_property s,
          pv_point = sanitize_point (com_position st),
          pv_frame_position = frame_position s,
          pv_frame_orientation = frame_orientation s\<rparr>) (st # sts)" by simp
  ultimately show ?case by blast
qed

lemma com_loop_points:
  assumes "com_style_property s = POINTS" and "sts \<noteq> []"
  shows "\<exists>s'. com_loop og n 0 sts s = Inr s' \<and> same_settings s s' \<and>
     com_points s' =
        map (\<lambda>st. \<lparr>pv_color = set_alpha (com_alpha_property s) (com_color_property s),
          pv_radius = com_line_width_property s,
          pv_point = sanitize_point (com_position st),
          pv_frame_position = frame_position s,
          pv_frame_orientation = frame_orientation s\<rparr>) sts"
proof -
  from assms(2) obtain st rest where sts: "sts = st # rest" by (cases sts) auto
  from com_step_points[OF assms(1), of og n 0 st] obtain s1 where
    1: "com_step og n 0 st s = Inr s1" and 2: "same_settings s s1" and
    3: "com_points s1 =
        [\<lparr>pv_color = set_alpha (com_alpha_property s) (com_color_property s),
          pv_radius = com_line_width_property s,
          pv_point = sanitize_point (com_position st),
          pv_frame_position = frame_position s,
          pv_frame_orientation = frame_orientation s\<rparr>]"
    by auto
  from 2 assms(1) have "com_style_property s1 = POINTS" by (simp add: same_settings_def)
  from com_loop_points_later[OF this, of og n 0 rest] obtain s' where
    4: "com_loop og n (Suc 0) rest s1 = Inr s'" and 5: "same_settings s1 s'" and
    6: "com_points s' = com_points s1 @
        map (\<lambda>st. \<lparr>pv_color = set_alpha (com_alpha_property s1) (com_color_property s1),
          pv_radius = com_line_width_property s1,
          pv_point = sanitize_point (com_position st),
          pv_frame_position = frame_position s1,
          pv_frame_orientation = frame_orientation s1\<rparr>) rest"
    by auto
  from 1 4 sts have "com_loop og n 0 sts s = Inr s'" by simp
  moreover from 2 5 have "same_settings s s'" by (rule same_settings_trans)
  moreover from 3 6 same_settingsD[OF 2] sts have "com_points s' = 
        map (\<lambda>st. \<lparr>pv_color = set_alpha (com_alpha_property s) (com_color_property s),
          pv_radius = com_line_width_property s,
          pv_point = sanitize_point (com_position st),
          pv_frame_position = frame_position s,
          pv_frame_orientation = frame_orientation s\<rparr>) sts" by simp
  ultimately show ?thesis by blast
qed

subsection \<open>The contact point markers\<close>

lemma in_set_update: "y \<in> set (xs[i := x]) \<Longrightarrow> y = x \<or> y \<in> set xs"
  using set_update_subset_insert[of xs i x] by auto

lemma contact_marker_cong: "same_settings s t \<Longrightarrow> contact_marker og t c = contact_marker og s c"
  by (simp add: contact_marker_def same_settings_def)

lemma plot_track_POINTS:
  "contact_style_property (snd acc) = POINTS \<Longrightarrow>
   plot_track og vec i st tid acc =
     (case vec tid of
        None \<Rightarrow> Inl NullDeref
      | Some idx \<Rightarrow>
          if idx < length (contacts st) then
            if i < length (contact_points (snd acc)) \<and>
               fst acc < length (contact_points (snd acc) ! i)
            then Inr (Suc (fst acc),
                      (snd acc)\<lparr>contact_points :=
                          (contact_points (snd acc))
                            [i := (contact_points (snd acc) ! i)
                               [fst acc := Some (contact_marker og (snd acc) (contacts st ! idx))]],
                        created := Suc (created (snd acc))\<rparr>)
            else Inl OutOfRange
          else Inr acc)"
  by (auto simp: plot_track_def Let_def contact_marker_def split: option.splits)

lemma plot_track_markers:
  assumes run: "plot_track og vec i st tid acc = Inr acc'"
    and same: "same_settings s (snd acc)" and st: "st \<in> set traj"
    and ok: "markers_ok og s traj (snd acc)"
  shows "markers_ok og s traj (snd acc')"
proof (cases "contact_style_property (snd acc) = POINTS")
  case False
  with run have "contact_points (snd acc') = contact_points (snd acc)"
    by (auto simp: plot_track_def Let_def split: option.splits if_splits LineStyle.splits)
  with ok show ?thesis by (simp add: markers_ok_def)
next
  case True
  note unfolded = plot_track_POINTS[OF True, of og vec i st tid]
  show ?thesis
  proof (cases "vec tid")
    case None
    with run unfolded show ?thesis by simp
  next
    case (Some idx)
    show ?thesis
    proof (cases "idx < length (contacts st)")
      case False
      with run unfolded Some have "acc' = acc" by simp
      with ok show ?thesis by simp
    next
      case idx: True
      show ?thesis
      proof (cases "i < length (contact_points (snd acc)) \<and>
               fst acc < length (contact_points (snd acc) ! i)")
        case False
        with run unfolded Some idx show ?thesis by simp
      next
        case inr: True
        then have i: "i < length (contact_points (snd acc))" by simp
        from run unfolded Some idx inr
        have "acc' = (Suc (fst acc),
                      (snd acc)\<lparr>contact_points :=
                          (contact_points (snd acc))
                            [i := (contact_points (snd acc) ! i)
                               [fst acc := Some (contact_marker og (snd acc) (contacts st ! idx))]],
                        created := Suc (created (snd acc))\<rparr>)" by simp
        then have cp: "contact_points (snd acc') =
          (contact_points (snd acc))
            [i := (contact_points (snd acc) ! i)
               [fst acc := Some (contact_marker og (snd acc) (contacts st ! idx))]]"
          by simp
        show ?thesis
          unfolding markers_ok_def
        proof (intro ballI allI impI)
          fix step pv
          assume step: "step \<in> set (contact_points (snd acc'))" and pv: "Some pv \<in> set step"
          from step have "step = (contact_points (snd acc) ! i)
                 [fst acc := Some (contact_marker og (snd acc) (contacts st ! idx))] \<or>
               step \<in> set (contact_points (snd acc))"
            unfolding cp by (rule in_set_update)
          then show "\<exists>state \<in> set traj. \<exists>contact \<in> set (contacts state).
                       pv = contact_marker og s contact"
          proof
            assume "step \<in> set (contact_points (snd acc))"
            with ok pv show ?thesis unfolding markers_ok_def by blast
          next
            assume "step = (contact_points (snd acc) ! i)
                 [fst acc := Some (contact_marker og (snd acc) (contacts st ! idx))]"
            with pv have "Some pv = Some (contact_marker og (snd acc) (contacts st ! idx)) \<or>
                Some pv \<in> set (contact_points (snd acc) ! i)"
              using in_set_update by fastforce
            then show ?thesis
            proof
              assume "Some pv = Some (contact_marker og (snd acc) (contacts st ! idx))"
              with same have "pv = contact_marker og s (contacts st ! idx)"
                by (simp add: contact_marker_cong)
              moreover from idx have "contacts st ! idx \<in> set (contacts st)" by simp
              ultimately show ?thesis using st by blast
            next
              assume "Some pv \<in> set (contact_points (snd acc) ! i)"
              moreover from i have "contact_points (snd acc) ! i \<in> set (contact_points (snd acc))"
                by simp
              ultimately show ?thesis using ok unfolding markers_ok_def by blast
            qed
          qed
        qed
      qed
    qed
  qed
qed

lemma plot_loop_markers:
  "plot_loop og vec i st m acc = Inr acc' \<Longrightarrow> same_settings s (snd acc) \<Longrightarrow> st \<in> set traj \<Longrightarrow>
   markers_ok og s traj (snd acc) \<Longrightarrow> markers_ok og s traj (snd acc')"
proof (induction m arbitrary: acc)
  case Nil
  then show ?case by simp
next
  case (Cons e m)
  from Cons.prems(1) obtain a1 where 1: "plot_track og vec i st (snd e) acc = Inr a1"
    and 2: "plot_loop og vec i st m a1 = Inr acc'"
    by (auto split: sum.splits)
  from plot_track_markers[OF 1 Cons.prems(2,3,4)] have ok: "markers_ok og s traj (snd a1)" .
  from Cons.prems(2) plot_track_settings[OF 1] have "same_settings s (snd a1)"
    by (rule same_settings_trans)
  from Cons.IH[OF 2 this Cons.prems(3) ok] show ?case .
qed

lemma new_track_points: "new_track n tid s = Inr s' \<Longrightarrow> contact_points s' = contact_points s"
  by (auto simp: new_track_def split: LineStyle.splits if_splits)

lemma register_contact_points:
  "register_contact n k c p = Inr p' \<Longrightarrow> contact_points (disp p') = contact_points (disp p)"
  by (auto simp: register_contact_def split: option.splits sum.splits if_splits dest: new_track_points)

lemma register_loop_points:
  "register_loop n k cs p = Inr p' \<Longrightarrow> contact_points (disp p') = contact_points (disp p)"
proof (induction cs arbitrary: k p)
  case Nil
  then show ?case by simp
next
  case (Cons c cs)
  from Cons.prems obtain p1 where 1: "register_contact n k c p = Inr p1"
    and 2: "register_loop n (Suc k) cs p1 = Inr p'"
    by (auto split: sum.splits)
  from register_contact_points[OF 1] Cons.IH[OF 2] show ?case by simp
qed

lemma contact_step_markers:
  assumes run: "contact_step og n i st p = Inr p'"
    and same: "same_settings s (disp p)" and st: "st \<in> set traj"
    and ok: "markers_ok og s traj (disp p)"
  shows "markers_ok og s traj (disp p')"
proof -
  from run obtain p1 s1 acc where
    1: "register_loop n 0 (contacts st) p = Inr p1" and
    2: "if contact_style_property (disp p1) = POINTS
     then i < length (contact_points (disp p1)) \<and>
          s1 = (disp p1)\<lparr>contact_points :=
                   (contact_points (disp p1))[i := replicate (length (contacts st)) None]\<rparr>
     else s1 = disp p1" and
    3: "plot_loop og (contact_vec_id p1) i st (contact_traj_id p1) (0, s1) = Inr acc" and
    4: "p' = p1\<lparr>disp := snd acc\<rparr>"
    by (rule contact_stepE)
  from ok register_loop_points[OF 1] have ok1: "markers_ok og s traj (disp p1)"
    by (simp add: markers_ok_def)
  have ok2: "markers_ok og s traj s1"
  proof (cases "contact_style_property (disp p1) = POINTS")
    case False
    with 2 ok1 show ?thesis by simp
  next
    case True
    with 2 have cp: "contact_points s1 =
        (contact_points (disp p1))[i := replicate (length (contacts st)) None]" by simp
    show ?thesis
      unfolding markers_ok_def
    proof (intro ballI allI impI)
      fix step pv
      assume step: "step \<in> set (contact_points s1)" and pv: "Some pv \<in> set step"
      from step cp have "step = replicate (length (contacts st)) None \<or>
           step \<in> set (contact_points (disp p1))"
        by (auto dest: in_set_update)
      with pv ok1
      show "\<exists>state \<in> set traj. \<exists>contact \<in> set (contacts state). pv = contact_marker og s contact"
        by (auto simp: markers_ok_def)
    qed
  qed
  from 2 have "same_settings (disp p1) s1" by (auto simp: same_settings_def split: if_splits)
  with same register_loop_settings[OF 1] have "same_settings s s1"
    by (blast intro: same_settings_trans)
  from plot_loop_markers[OF 3 _ st, of s] this ok2 4 show ?thesis by simp
qed

lemma contact_loop_markers:
  "contact_loop og n i sts p = Inr p' \<Longrightarrow> same_settings s (disp p) \<Longrightarrow> set sts \<subseteq> set traj \<Longrightarrow>
   markers_ok og s traj (disp p) \<Longrightarrow> markers_ok og s traj (disp p')"
proof (induction sts arbitrary: i p)
  case Nil
  then show ?case by simp
next
  case (Cons st sts)
  from Cons.prems(1) obtain p1 where 1: "contact_step og n i st p = Inr p1"
    and 2: "contact_loop og n (Suc i) sts p1 = Inr p'"
    by (auto split: sum.splits)
  from Cons.prems(3) have st: "st \<in> set traj" and rest: "set sts \<subseteq> set traj" by auto
  from contact_step_markers[OF 1 Cons.prems(2) st Cons.prems(4)]
  have ok: "markers_ok og s traj (disp p1)" .
  from Cons.prems(2) contact_step_settings[OF 1] have "same_settings s (disp p1)"
    by (rule same_settings_trans)
  from Cons.IH[OF 2 this rest ok] show ?case .
qed

lemma processContactTrajectory_markers:
  assumes "contact_style_property s = POINTS" "contact_enable s" "msg s = Some traj"
    "processContactTrajectory og s = Inr s'"
  shows "markers_ok og s traj s'"
proof -
  from assms obtain p where
    run: "contact_loop og (length traj) 0 traj (start_pass (length traj) (count_trajectories traj) s) = Inr p"
    and fin: "(if contact_style_property (disp p) = LINES
            then (case end_loop [0..<traj_id p] (contact_manual_object (disp p)) of
                    Inl e \<Rightarrow> Inl e
                  | Inr objs \<Rightarrow> Inr ((disp p)\<lparr>contact_manual_object := objs\<rparr>))
            else Inr (disp p)) = Inr s'"
    by (auto simp: processContactTrajectory_def Let_def split: sum.splits)
  note start = start_pass_simps(3)[of s "length traj" "count_trajectories traj"]
  from contact_loop_settings[OF run] start
  have "contact_style_property (disp p) = POINTS"
    using assms(1) by (simp add: same_settings_def)
  with fin have s': "s' = disp p" by simp
  have "markers_ok og s traj (disp (start_pass (length traj) (count_trajectories traj) s))"
    using assms(1) by (simp add: markers_ok_def start_pass_simps)
  from contact_loop_markers[OF run start _ this] s' show ?thesis by simp
qed

text \<open>
  C9. Drawn as points, every centre-of-mass marker holds the sanitised position of its
  state as it comes in the message, untransformed, and every contact marker holds the
  sanitised position of a contact sample after the frame transform; both kinds hold the
  looked-up frame pose as their own.
\<close>

theorem point_markers:
  "(com_style_property s = POINTS \<and> com_enable s \<and> msg s = Some traj \<and> traj \<noteq> [] \<longrightarrow>
      (\<exists>s'. processCoMTrajectory og s = Inr s' \<and>
         com_points s' =
           map (\<lambda>state.
                  \<lparr>pv_color = set_alpha (com_alpha_property s) (com_color_property s),
                   pv_radius = com_line_width_property s,
                   pv_point = sanitize_point (com_position state),
                   pv_frame_position = frame_position s,
                   pv_frame_orientation = frame_orientation s\<rparr>) traj)) \<and>
   (contact_style_property s = POINTS \<and> contact_enable s \<and> msg s = Some traj \<and>
    processContactTrajectory og s = Inr s'' \<longrightarrow>
      (\<forall>step \<in> set (contact_points s''). \<forall>pv. Some pv \<in> set step \<longrightarrow>
         (\<exists>state \<in> set traj. \<exists>contact \<in> set (contacts state).
            pv = \<lparr>pv_color = set_alpha (contact_alpha_property s) (contact_color_property s),
                  pv_radius = contact_line_width_property s,
                  pv_point =
                    transform_point og (frame_orientation s) (frame_position s)
                      (sanitize_point (contact_position contact)),
                  pv_frame_position = frame_position s,
                  pv_frame_orientation = frame_orientation s\<rparr>)))"
proof (intro conjI impI)
  assume h: "com_style_property s = POINTS \<and> com_enable s \<and> msg s = Some traj \<and> traj \<noteq> []"
  then have "com_style_property (s\<lparr>com_axes := []\<rparr>) = POINTS" by simp
  from com_loop_points[OF this, of traj og "length traj"] h
  obtain s' where 1: "com_loop og (length traj) 0 traj (s\<lparr>com_axes := []\<rparr>) = Inr s'"
    and 2: "same_settings (s\<lparr>com_axes := []\<rparr>) s'"
    and 3: "com_points s' =
           map (\<lambda>state.
                  \<lparr>pv_color = set_alpha (com_alpha_property s) (com_color_property s),
                   pv_radius = com_line_width_property s,
                   pv_point = sanitize_point (com_position state),
                   pv_frame_position = frame_position s,
                   pv_frame_orientation = frame_orientation s\<rparr>) traj"
    by auto
  from 2 h have "com_style_property s' = POINTS" by (simp add: same_settings_def)
  with 1 h have "processCoMTrajectory og s = Inr s'" by (simp add: processCoMTrajectory_def)
  with 3 show "\<exists>s'. processCoMTrajectory og s = Inr s' \<and>
         com_points s' =
           map (\<lambda>state.
                  \<lparr>pv_color = set_alpha (com_alpha_property s) (com_color_property s),
                   pv_radius = com_line_width_property s,
                   pv_point = sanitize_point (com_position state),
                   pv_frame_position = frame_position s,
                   pv_frame_orientation = frame_orientation s\<rparr>) traj" by blast
next
  assume "contact_style_property s = POINTS \<and> contact_enable s \<and> msg s = Some traj \<and>
    processContactTrajectory og s = Inr s''"
  then have "markers_ok og s traj s''" by (blast intro: processContactTrajectory_markers)
  then show "\<forall>step \<in> set (contact_points s''). \<forall>pv. Some pv \<in> set step \<longrightarrow>
         (\<exists>state \<in> set traj. \<exists>contact \<in> set (contacts state).
            pv = \<lparr>pv_color = set_alpha (contact_alpha_property s) (contact_color_property s),
                  pv_radius = contact_line_width_property s,
                  pv_point =
                    transform_point og (frame_orientation s) (frame_position s)
                      (sanitize_point (contact_position contact)),
                  pv_frame_position = frame_position s,
                  pv_frame_orientation = frame_orientation s\<rparr>)"
    unfolding markers_ok_def contact_marker_def .
qed

theorem point_markers_witness:
  "com_style_property shifted_display = POINTS \<and> com_enable shifted_display \<and>
   contact_style_property shifted_display = POINTS \<and> contact_enable shifted_display \<and>
   msg shifted_display = Some both_feet \<and> both_feet \<noteq> [] \<and>
   frame_position shifted_display = point 10 0 0 \<and>
   processContactTrajectory ogre_exact shifted_display
     = Inr (projr (processContactTrajectory ogre_exact shifted_display)) \<and>
   map_sum id (map (\<lambda>pv. (pv_point pv, pv_frame_position pv)) \<circ> com_points)
     (processCoMTrajectory ogre_exact shifted_display)
     = Inr [(point 0 0 0, point 10 0 0), (point 0 0 1, point 10 0 0)] \<and>
   map (map (map_option (\<lambda>pv. (pv_point pv, pv_frame_position pv))))
     (contact_points (projr (processContactTrajectory ogre_exact shifted_display)))
     = [[Some (point 11 0 0, point 10 0 0), Some (point 12 0 0, point 10 0 0)],
        [Some (point 11 0 1, point 10 0 0), Some (point 12 0 1, point 10 0 0)]]"
  using point_markers [of shifted_display both_feet ogre_exact
      "projr (processContactTrajectory ogre_exact shifted_display)"]
  by (simp add: run_defs example_defs float_defs upt_rec)

subsection \<open>Enabling and disabling a group\<close>

text \<open>
  C3, amended. Disabling a group destroys its billboard lines, its manual objects and its
  point markers at once. Enabling it sets the flag and nothing else: after a group has
  been disabled and enabled again, its drawables are still destroyed.
\<close>

theorem enable_toggle:
  "com_billboard_line (set_com_enable False s) = None \<and>
   com_manual_object (set_com_enable False s) = None \<and>
   com_points (set_com_enable False s) = [] \<and>
   contact_manual_object (set_contact_enable False s)
     = replicate (length (contact_manual_object s)) None \<and>
   contact_billboard_line (set_contact_enable False s)
     = replicate (length (contact_billboard_line s)) None \<and>
   contact_points (set_contact_enable False s) = replicate (length (contact_points s)) [] \<and>
   set_com_enable True s = s\<lparr>com_enable_property := True, com_enable := True\<rparr> \<and>
   set_contact_enable True s = s\<lparr>contact_enable_property := True, contact_enable := True\<rparr> \<and>
   com_billboard_line (set_com_enable True (set_com_enable False s)) = None \<and>
   com_manual_object (set_com_enable True (set_com_enable False s)) = None \<and>
   com_points (set_com_enable True (set_com_enable False s)) = [] \<and>
   contact_manual_object (set_contact_enable True (set_contact_enable False s))
     = replicate (length (contact_manual_object s)) None \<and>
   contact_billboard_line (set_contact_enable True (set_contact_enable False s))
     = replicate (length (contact_billboard_line s)) None \<and>
   contact_points (set_contact_enable True (set_contact_enable False s))
     = replicate (length (contact_points s)) []"
  by (simp add: set_com_enable_def set_contact_enable_def updateCoMEnable_def
        updateContactEnable_def Let_def map_replicate_const)

text \<open>
  C3, as the claim states it, fails: after the scenario has been drawn with billboards,
  the centre-of-mass line has 3 points; once the group has been disabled and enabled
  again there is no line.
\<close>

theorem enable_toggle_counterexample:
  "map_sum id (map_option (length \<circ> bl_points) \<circ> com_billboard_line)
     (processMessage ogre_exact scenario (fresh_display BILLBOARDS)) = Inr (Some 3) \<and>
   map_sum id
     (map_option (length \<circ> bl_points) \<circ> com_billboard_line \<circ> set_com_enable True \<circ>
        set_com_enable False)
     (processMessage ogre_exact scenario (fresh_display BILLBOARDS)) = Inr None"
  by (simp add: run_defs example_defs float_defs upt_rec set_com_enable_def updateCoMEnable_def)

subsection \<open>Property changes\<close>

lemma restyle_lines_all:
  "None \<notin> set ls \<Longrightarrow>
   restyle_lines w c ls = Inr (map (map_option (\<lambda>b. bl_setColor c (b\<lparr>bl_line_width := w\<rparr>))) ls)"
proof (induction ls)
  case Nil
  then show ?case by simp
next
  case (Cons l ls)
  then show ?case by (cases l) auto
qed

lemma restyle_points_all:
  "None \<notin> set ps \<Longrightarrow>
   restyle_points w c ps = Inr (map (map_option (\<lambda>pv. pv\<lparr>pv_color := c, pv_radius := w\<rparr>)) ps)"
proof (induction ps)
  case Nil
  then show ?case by simp
next
  case (Cons p ps)
  then show ?case by (cases p) auto
qed

lemma restyle_steps_all:
  "\<forall>step \<in> set steps. None \<notin> set step \<Longrightarrow>
   restyle_steps w c steps =
     Inr (map (map (map_option (\<lambda>pv. pv\<lparr>pv_color := c, pv_radius := w\<rparr>))) steps)"
proof (induction steps)
  case Nil
  then show ?case by simp
next
  case (Cons step steps)
  then show ?case by (simp add: restyle_points_all)
qed

lemma com_step_lines:
  assumes "com_style_property s = LINES" and "i = 0 \<or> com_manual_object s = Some m"
  shows "\<exists>s'. com_step og n i st s = Inr s' \<and> same_settings s s' \<and>
     created s \<le> created s' \<and> (i = 0 \<longrightarrow> created s < created s') \<and>
     com_manual_object s' =
       Some (mo_vertex
               (transform_point og (frame_orientation s) (frame_position s)
                  (sanitize_point (com_position st)))
               (set_alpha (com_alpha_property s) (com_color_property s))
               (if i = 0 then begin_ManualObject n else m))"
proof -
  let ?s1 = "pushBackCoMAxes
      (transform_point og (frame_orientation s) (frame_position s) (sanitize_point (com_position st)))
      (quat_mul og (sanitize_quaternion (base_orientation st)) (frame_orientation s)) s"
  have "same_settings s ?s1" by (rule pushBackCoMAxes_settings)
  moreover have "com_manual_object ?s1 = com_manual_object s" "created s \<le> created ?s1"
    by (simp_all add: pushBackCoMAxes_fields)
  ultimately show ?thesis using assms
    by (auto simp: com_step_def Let_def same_settings_def)
qed

lemma com_loop_lines_later:
  "com_style_property s = LINES \<Longrightarrow> com_manual_object s = Some m \<Longrightarrow>
   \<exists>s'. com_loop og n (Suc i) sts s = Inr s' \<and> same_settings s s' \<and> created s \<le> created s' \<and>
     com_manual_object s' =
       Some (m\<lparr>mo_vertices := mo_vertices m @
          map (\<lambda>st. (transform_point og (frame_orientation s) (frame_position s)
                        (sanitize_point (com_position st)),
                      set_alpha (com_alpha_property s) (com_color_property s))) sts\<rparr>)"
proof (induction sts arbitrary: i s m)
  case Nil
  then show ?case by simp
next
  case (Cons st sts)
  from com_step_lines[OF Cons.prems(1), of "Suc i" m og n st] Cons.prems(2) obtain s1 where
    1: "com_step og n (Suc i) st s = Inr s1" and 2: "same_settings s s1" and
    c1: "created s \<le> created s1" and
    3: "com_manual_object s1 =
       Some (mo_vertex
               (transform_point og (frame_orientation s) (frame_position s)
                  (sanitize_point (com_position st)))
               (set_alpha (com_alpha_property s) (com_color_property s)) m)"
    by auto
  from 2 Cons.prems have "com_style_property s1 = LINES" by (simp add: same_settings_def)
  from Cons.IH[OF this 3, of "Suc i"] obtain s' where
    4: "com_loop og n (Suc (Suc i)) sts s1 = Inr s'" and 5: "same_settings s1 s'" and
    c2: "created s1 \<le> created s'" and
    6: "com_manual_object s' =
       Some ((mo_vertex
               (transform_point og (frame_orientation s) (frame_position s)
                  (sanitize_point (com_position st)))
               (set_alpha (com_alpha_property s) (com_color_property s)) m)
          \<lparr>mo_vertices := mo_vertices (mo_vertex
               (transform_point og (frame_orientation s) (frame_position s)
                  (sanitize_point (com_position st)))
               (set_alpha (com_alpha_property s) (com_color_property s)) m) @
          map (\<lambda>st. (transform_point og (frame_orientation s1) (frame_position s1)
                        (sanitize_point (com_position st)),
                      set_alpha (com_alpha_property s1) (com_color_property s1))) sts\<rparr>)"
    by auto
  from 1 4 have "com_loop og n (Suc i) (st # sts) s = Inr s'" by simp
  moreover from 2 5 have "same_settings s s'" by (rule same_settings_trans)
  moreover from c1 c2 have "created s \<le> created s'" by simp
  moreover from 6 same_settingsD[OF 2] have "com_manual_object s' =
       Some (m\<lparr>mo_vertices := mo_vertices m @
          map (\<lambda>st. (transform_point og (frame_orientation s) (frame_position s)
                        (sanitize_point (com_position st)),
                      set_alpha (com_alpha_property s) (com_color_property s))) (st # sts)\<rparr>)"
    by (simp add: mo_vertex_def)
  ultimately show ?case by blast
qed

lemma processCoMTrajectory_lines:
  assumes "com_style_property s = LINES" "com_enable s" "msg s = Some traj" "traj \<noteq> []"
  shows "\<exists>s'. processCoMTrajectory og s = Inr s' \<and> created s < created s' \<and>
     com_manual_object s' =
       Some \<lparr>mo_dynamic = True, mo_vertex_estimate = length traj,
             mo_vertices =
               map (\<lambda>st. (transform_point og (frame_orientation s) (frame_position s)
                             (sanitize_point (com_position st)),
                           set_alpha (com_alpha_property s) (com_color_property s))) traj,
             mo_ended = True\<rparr>"
proof -
  let ?s0 = "s\<lparr>com_axes := []\<rparr>"
  let ?n = "length traj"
  from assms(4) obtain st rest where traj: "traj = st # rest" by (cases traj) auto
  have style0: "com_style_property ?s0 = LINES" using assms(1) by simp
  from com_step_lines[OF style0, of 0 undefined og ?n st] obtain s1 where
    1: "com_step og ?n 0 st ?s0 = Inr s1" and 2: "same_settings ?s0 s1" and
    c1: "created ?s0 < created s1" and
    3: "com_manual_object s1 =
       Some (mo_vertex
               (transform_point og (frame_orientation s) (frame_position s)
                  (sanitize_point (com_position st)))
               (set_alpha (com_alpha_property s) (com_color_property s))
               (begin_ManualObject ?n))"
    by auto
  from 2 assms(1) have "com_style_property s1 = LINES" by (simp add: same_settings_def)
  from com_loop_lines_later[OF this 3, of og ?n 0 rest] obtain s' where
    4: "com_loop og ?n (Suc 0) rest s1 = Inr s'" and 5: "same_settings s1 s'" and
    c2: "created s1 \<le> created s'" and
    6: "com_manual_object s' =
       Some ((mo_vertex
               (transform_point og (frame_orientation s) (frame_position s)
                  (sanitize_point (com_position st)))
               (set_alpha (com_alpha_property s) (com_color_property s))
               (begin_ManualObject ?n))
          \<lparr>mo_vertices := mo_vertices (mo_vertex
               (transform_point og (frame_orientation s) (frame_position s)
                  (sanitize_point (com_position st)))
               (set_alpha (com_alpha_property s) (com_color_property s))
               (begin_ManualObject ?n)) @
          map (\<lambda>st. (transform_point og (frame_orientation s1) (frame_position s1)
                        (sanitize_point (com_position st)),
                      set_alpha (com_alpha_property s1) (com_color_property s1))) rest\<rparr>)"
    by auto
  from 1 4 traj have loop: "com_loop og ?n 0 traj ?s0 = Inr s'" by simp
  from 2 5 have same: "same_settings ?s0 s'" by (rule same_settings_trans)
  with assms(1) have style': "com_style_property s' = LINES" by (simp add: same_settings_def)
  from 6 same_settingsD[OF 2] traj have obj: "com_manual_object s' =
       Some \<lparr>mo_dynamic = True, mo_vertex_estimate = length traj,
             mo_vertices =
               map (\<lambda>st. (transform_point og (frame_orientation s) (frame_position s)
                             (sanitize_point (com_position st)),
                           set_alpha (com_alpha_property s) (com_color_property s))) traj,
             mo_ended = False\<rparr>"
    by (simp add: mo_vertex_def begin_ManualObject_def)
  from loop style' obj assms(2,3)
  have "processCoMTrajectory og s =
     Inr (s'\<lparr>com_manual_object := Some (mo_end \<lparr>mo_dynamic = True, mo_vertex_estimate = length traj,
             mo_vertices =
               map (\<lambda>st. (transform_point og (frame_orientation s) (frame_position s)
                             (sanitize_point (com_position st)),
                           set_alpha (com_alpha_property s) (com_color_property s))) traj,
             mo_ended = False\<rparr>)\<rparr>)"
    by (simp add: processCoMTrajectory_def)
  moreover from c1 c2 have "created s < created s'" by simp
  ultimately show ?thesis by (simp add: mo_end_def)
qed

lemma processContactTrajectory_discards_lines:
  assumes "contact_style_property s = LINES" "contact_enable s"
  shows "processContactTrajectory og (s\<lparr>contact_manual_object := objs\<rparr>) = processContactTrajectory og s"
proof -
  have "start_pass n m (s\<lparr>contact_manual_object := objs\<rparr>) = start_pass n m s" for n m
    using assms(1) by (simp add: start_pass_def)
  with assms(2) show ?thesis
    by (cases "msg s") (simp_all add: processContactTrajectory_def Let_def)
qed

lemma drawn_by_processMessage:
  "processMessage ogre_exact both_feet (fresh_display BILLBOARDS) = Inr drawn_billboards"
  "processMessage ogre_exact both_feet (fresh_display POINTS) = Inr drawn_points"
  "processMessage ogre_exact both_feet (fresh_display LINES) = Inr drawn_lines"
  by (simp_all add: run_defs example_defs drawn_defs float_defs upt_rec
        getDefaultXColor_def getDefaultYColor_def getDefaultZColor_def)

lemma restyle_steps_concat:
  "None \<notin> set (concat steps) \<Longrightarrow>
   restyle_steps w c steps =
     Inr (map (map (map_option (\<lambda>pv. pv\<lparr>pv_color := c, pv_radius := w\<rparr>))) steps)"
  by (rule restyle_steps_all) auto

text \<open>The contact pass when it draws lines: what the strips hold.\<close>

lemma new_track_strips:
  assumes "new_track n tid d = Inr d'" and "strips_ok og s traj n d"
  shows "strips_ok og s traj n d'"
proof (cases "contact_style_property d = LINES")
  case False
  with assms(1) have "contact_manual_object d' = contact_manual_object d"
    by (auto simp: new_track_def split: LineStyle.splits if_splits)
  with assms(2) show ?thesis by (simp add: strips_ok_def)
next
  case True
  with assms(1) have cmo: "contact_manual_object d' =
      (contact_manual_object d)[tid := Some (begin_ManualObject n)]"
    by (auto simp: new_track_def split: if_splits)
  have new: "strip_ok og s traj n (begin_ManualObject n)"
    by (simp add: strip_ok_def begin_ManualObject_def)
  show ?thesis
    unfolding strips_ok_def
  proof (intro allI impI)
    fix m assume "Some m \<in> set (contact_manual_object d')"
    then have "Some m = Some (begin_ManualObject n) \<or> Some m \<in> set (contact_manual_object d)"
      unfolding cmo by (rule in_set_update)
    with new assms(2) show "strip_ok og s traj n m" by (auto simp: strips_ok_def)
  qed
qed

lemma new_track_created:
  "contact_style_property d = LINES \<Longrightarrow> new_track n tid d = Inr d' \<Longrightarrow>
   created d' = Suc (created d)"
  by (auto simp: new_track_def split: if_splits)

lemma register_contact_strips:
  assumes "register_contact n k c p = Inr p'" and "strips_ok og s traj n (disp p)"
  shows "strips_ok og s traj n (disp p')"
proof (cases "map_of (contact_traj_id p) (contact_name c)")
  case None
  with assms(1) obtain d where d: "new_track n (traj_id p) (disp p) = Inr d" and "disp p' = d"
    by (auto simp: register_contact_def split: sum.splits)
  with new_track_strips[OF d assms(2)] show ?thesis by simp
next
  case (Some swing_idx)
  with assms(1) have "disp p' = disp p"
    by (auto simp: register_contact_def split: option.splits if_splits)
  with assms(2) show ?thesis by simp
qed

lemma register_contact_created:
  assumes "contact_style_property (disp p) = LINES" and "register_contact n k c p = Inr p'"
  shows "created (disp p') + traj_id p = created (disp p) + traj_id p'"
proof (cases "map_of (contact_traj_id p) (contact_name c)")
  case None
  with assms(2) obtain d where d: "new_track n (traj_id p) (disp p) = Inr d"
    and "disp p' = d" "traj_id p' = Suc (traj_id p)"
    by (auto simp: register_contact_def split: sum.splits)
  with new_track_created[OF assms(1) d] show ?thesis by simp
next
  case (Some swing_idx)
  with assms(2) have "disp p' = disp p" "traj_id p' = traj_id p"
    by (auto simp: register_contact_def split: option.splits if_splits)
  then show ?thesis by simp
qed

lemma register_loop_strips:
  "register_loop n k cs p = Inr p' \<Longrightarrow> strips_ok og s traj n (disp p) \<Longrightarrow>
   strips_ok og s traj n (disp p')"
proof (induction cs arbitrary: k p)
  case Nil
  then show ?case by simp
next
  case (Cons c cs)
  from Cons.prems(1) obtain p1 where 1: "register_contact n k c p = Inr p1"
    and 2: "register_loop n (Suc k) cs p1 = Inr p'"
    by (auto split: sum.splits)
  from Cons.IH[OF 2 register_contact_strips[OF 1 Cons.prems(2)]] show ?case .
qed

lemma register_loop_created:
  "contact_style_property (disp p) = LINES \<Longrightarrow> register_loop n k cs p = Inr p' \<Longrightarrow>
   created (disp p') + traj_id p = created (disp p) + traj_id p'"
proof (induction cs arbitrary: k p)
  case Nil
  then show ?case by simp
next
  case (Cons c cs)
  from Cons.prems(2) obtain p1 where 1: "register_contact n k c p = Inr p1"
    and 2: "register_loop n (Suc k) cs p1 = Inr p'"
    by (auto split: sum.splits)
  from register_contact_settings[OF 1] Cons.prems(1)
  have style1: "contact_style_property (disp p1) = LINES" by (simp add: same_settings_def)
  from register_contact_created[OF Cons.prems(1) 1] Cons.IH[OF style1 2] show ?case by simp
qed

lemma plot_track_LINES:
  "contact_style_property (snd acc) = LINES \<Longrightarrow>
   plot_track og vec i st tid acc =
     (case vec tid of
        None \<Rightarrow> Inl NullDeref
      | Some idx \<Rightarrow>
          if idx < length (contacts st) then
            if tid < length (contact_manual_object (snd acc)) then
              (case contact_manual_object (snd acc) ! tid of
                 None \<Rightarrow> Inl NullDeref
               | Some m \<Rightarrow>
                   Inr (fst acc,
                        (snd acc)\<lparr>contact_manual_object :=
                           (contact_manual_object (snd acc))
                             [tid := Some (mo_vertex
                                (transform_point og (frame_orientation (snd acc))
                                   (frame_position (snd acc))
                                   (sanitize_point (contact_position (contacts st ! idx))))
                                (set_alpha (contact_alpha_property (snd acc))
                                   (contact_color_property (snd acc))) m)]\<rparr>))
            else Inl OutOfRange
          else Inr acc)"
  by (auto simp: plot_track_def Let_def split: option.splits)

lemma plot_track_strips:
  assumes run: "plot_track og vec i st tid acc = Inr acc'"
    and same: "same_settings s (snd acc)" and st: "st \<in> set traj"
    and ok: "strips_ok og s traj n (snd acc)"
  shows "strips_ok og s traj n (snd acc') \<and>
         (contact_style_property (snd acc) = LINES \<longrightarrow> created (snd acc') = created (snd acc))"
proof (cases "contact_style_property (snd acc) = LINES")
  case False
  with run have "contact_manual_object (snd acc') = contact_manual_object (snd acc)"
    by (auto simp: plot_track_def Let_def split: option.splits if_splits LineStyle.splits)
  with ok False show ?thesis by (simp add: strips_ok_def)
next
  case True
  note unfolded = plot_track_LINES[OF True, of og vec i st tid]
  show ?thesis
  proof (cases "vec tid")
    case None
    with run unfolded show ?thesis by simp
  next
    case (Some idx)
    show ?thesis
    proof (cases "idx < length (contacts st)")
      case False
      with run unfolded Some have "acc' = acc" by simp
      with ok show ?thesis by simp
    next
      case idx: True
      show ?thesis
      proof (cases "tid < length (contact_manual_object (snd acc))")
        case False
        with run unfolded Some idx show ?thesis by simp
      next
        case tid: True
        show ?thesis
        proof (cases "contact_manual_object (snd acc) ! tid")
          case None
          with run unfolded Some idx tid show ?thesis by simp
        next
          case (Some m)
          let ?v = "(transform_point og (frame_orientation (snd acc)) (frame_position (snd acc))
                       (sanitize_point (contact_position (contacts st ! idx))),
                     set_alpha (contact_alpha_property (snd acc))
                       (contact_color_property (snd acc)))"
          from run unfolded \<open>vec tid = Some idx\<close> idx tid Some
          have acc': "acc' = (fst acc,
                        (snd acc)\<lparr>contact_manual_object :=
                           (contact_manual_object (snd acc))
                             [tid := Some (mo_vertex (fst ?v) (snd ?v) m)]\<rparr>)"
            by simp
          then have cmo: "contact_manual_object (snd acc') =
              (contact_manual_object (snd acc))[tid := Some (mo_vertex (fst ?v) (snd ?v) m)]"
            and created: "created (snd acc') = created (snd acc)"
            by simp_all
          from tid Some have "Some m \<in> set (contact_manual_object (snd acc))"
            by (metis nth_mem)
          with ok have m: "strip_ok og s traj n m" by (simp add: strips_ok_def)
          from idx have "contacts st ! idx \<in> set (contacts st)" by simp
          with st same have "contact_vertex_ok og s traj ?v"
            unfolding contact_vertex_ok_def same_settings_def by auto
          with m have new: "strip_ok og s traj n (mo_vertex (fst ?v) (snd ?v) m)"
            by (simp add: strip_ok_def mo_vertex_def)
          have "strips_ok og s traj n (snd acc')"
            unfolding strips_ok_def
          proof (intro allI impI)
            fix m' assume "Some m' \<in> set (contact_manual_object (snd acc'))"
            then have "Some m' = Some (mo_vertex (fst ?v) (snd ?v) m) \<or>
                Some m' \<in> set (contact_manual_object (snd acc))"
              unfolding cmo by (rule in_set_update)
            with new ok show "strip_ok og s traj n m'" by (auto simp: strips_ok_def)
          qed
          with created show ?thesis by simp
        qed
      qed
    qed
  qed
qed

lemma plot_loop_strips:
  "plot_loop og vec i st m acc = Inr acc' \<Longrightarrow> same_settings s (snd acc) \<Longrightarrow> st \<in> set traj \<Longrightarrow>
   strips_ok og s traj n (snd acc) \<Longrightarrow>
   strips_ok og s traj n (snd acc') \<and>
   (contact_style_property (snd acc) = LINES \<longrightarrow> created (snd acc') = created (snd acc))"
proof (induction m arbitrary: acc)
  case Nil
  then show ?case by simp
next
  case (Cons e m)
  from Cons.prems(1) obtain a1 where 1: "plot_track og vec i st (snd e) acc = Inr a1"
    and 2: "plot_loop og vec i st m a1 = Inr acc'"
    by (auto split: sum.splits)
  note step = plot_track_strips[OF 1 Cons.prems(2,3,4)]
  note set1 = plot_track_settings[OF 1]
  from Cons.prems(2) set1 have same1: "same_settings s (snd a1)" by (rule same_settings_trans)
  note rest = Cons.IH[OF 2 same1 Cons.prems(3) step[THEN conjunct1]]
  from set1 have "contact_style_property (snd a1) = contact_style_property (snd acc)"
    by (simp add: same_settings_def)
  with step rest show ?case by simp
qed

lemma contact_step_strips:
  assumes run: "contact_step og n i st p = Inr p'"
    and same: "same_settings s (disp p)" and st: "st \<in> set traj"
    and ok: "strips_ok og s traj n (disp p)"
  shows "strips_ok og s traj n (disp p') \<and>
         (contact_style_property (disp p) = LINES \<longrightarrow>
            created (disp p') + traj_id p = created (disp p) + traj_id p')"
proof -
  from run obtain p1 s1 acc where
    1: "register_loop n 0 (contacts st) p = Inr p1" and
    2: "if contact_style_property (disp p1) = POINTS
     then i < length (contact_points (disp p1)) \<and>
          s1 = (disp p1)\<lparr>contact_points :=
                   (contact_points (disp p1))[i := replicate (length (contacts st)) None]\<rparr>
     else s1 = disp p1" and
    3: "plot_loop og (contact_vec_id p1) i st (contact_traj_id p1) (0, s1) = Inr acc" and
    4: "p' = p1\<lparr>disp := snd acc\<rparr>"
    by (rule contact_stepE)
  note set1 = register_loop_settings[OF 1]
  from register_loop_strips[OF 1 ok] have ok1: "strips_ok og s traj n (disp p1)" .
  from 2 have s1: "contact_manual_object s1 = contact_manual_object (disp p1)"
    "same_settings (disp p1) s1"
    "contact_style_property (disp p1) = LINES \<longrightarrow> s1 = disp p1"
    by (auto simp: same_settings_def split: if_splits)
  from ok1 s1(1) have ok2: "strips_ok og s traj n s1" by (simp add: strips_ok_def)
  from same set1 s1(2) have same2: "same_settings s s1" by (blast intro: same_settings_trans)
  from plot_loop_strips[OF 3 _ st, of s n] same2 ok2
  have plot: "strips_ok og s traj n (snd acc)"
    "contact_style_property s1 = LINES \<longrightarrow> created (snd acc) = created s1"
    by simp_all
  show ?thesis
  proof (intro conjI impI)
    from plot(1) 4 show "strips_ok og s traj n (disp p')" by simp
  next
    assume lines: "contact_style_property (disp p) = LINES"
    with set1 have lines1: "contact_style_property (disp p1) = LINES"
      by (simp add: same_settings_def)
    with s1(3) have "s1 = disp p1" by simp
    with plot(2) lines1 have "created (snd acc) = created (disp p1)" by simp
    with register_loop_created[OF lines 1] 4
    show "created (disp p') + traj_id p = created (disp p) + traj_id p'" by simp
  qed
qed

lemma contact_loop_strips:
  "contact_loop og n i sts p = Inr p' \<Longrightarrow> same_settings s (disp p) \<Longrightarrow> set sts \<subseteq> set traj \<Longrightarrow>
   strips_ok og s traj n (disp p) \<Longrightarrow>
   strips_ok og s traj n (disp p') \<and>
   (contact_style_property (disp p) = LINES \<longrightarrow>
      created (disp p') + traj_id p = created (disp p) + traj_id p')"
proof (induction sts arbitrary: i p)
  case Nil
  then show ?case by simp
next
  case (Cons st sts)
  from Cons.prems(1) obtain p1 where 1: "contact_step og n i st p = Inr p1"
    and 2: "contact_loop og n (Suc i) sts p1 = Inr p'"
    by (auto split: sum.splits)
  from Cons.prems(3) have st: "st \<in> set traj" and rest: "set sts \<subseteq> set traj" by auto
  note step = contact_step_strips[OF 1 Cons.prems(2) st Cons.prems(4)]
  note set1 = contact_step_settings[OF 1]
  from Cons.prems(2) set1 have same1: "same_settings s (disp p1)" by (rule same_settings_trans)
  note tail = Cons.IH[OF 2 same1 rest step[THEN conjunct1]]
  from set1 have "contact_style_property (disp p1) = contact_style_property (disp p)"
    by (simp add: same_settings_def)
  with step tail show ?case by auto
qed

lemma mo_end_idem: "mo_end (mo_end m) = mo_end m"
  by (simp add: mo_end_def)

lemma end_loop_result:
  "end_loop ids objs = Inr objs' \<Longrightarrow>
   length objs' = length objs \<and>
   (\<forall>j < length objs. objs' ! j = (if j \<in> set ids then map_option mo_end (objs ! j) else objs ! j))"
proof (induction ids arbitrary: objs)
  case Nil
  then show ?case by simp
next
  case (Cons i ids)
  from Cons.prems obtain m where i: "i < length objs" "objs ! i = Some m"
    and rest: "end_loop ids (objs[i := Some (mo_end m)]) = Inr objs'"
    by (auto split: if_splits option.splits)
  note IH = Cons.IH[OF rest]
  show ?case
  proof (intro conjI allI impI)
    from IH show "length objs' = length objs" by simp
  next
    fix j assume j: "j < length objs"
    with IH have "objs' ! j =
        (if j \<in> set ids then map_option mo_end (objs[i := Some (mo_end m)] ! j)
         else objs[i := Some (mo_end m)] ! j)" by simp
    with i j show "objs' ! j =
        (if j \<in> set (i # ids) then map_option mo_end (objs ! j) else objs ! j)"
      by (cases "j = i") (simp_all add: mo_end_idem)
  qed
qed

lemma processContactTrajectory_lines:
  assumes style: "contact_style_property s = LINES" and en: "contact_enable s"
    and m: "msg s = Some traj"
  shows "\<exists>s'. processContactTrajectory og s = Inr s' \<and>
     created s' = created s + card (set (contact_names traj)) \<and>
     length (contact_manual_object s') = card (set (contact_names traj)) \<and>
     (\<forall>obj \<in> set (contact_manual_object s').
        \<exists>vs. obj = Some \<lparr>mo_dynamic = True, mo_vertex_estimate = length traj,
                         mo_vertices = vs, mo_ended = True\<rparr> \<and>
             (\<forall>v \<in> set vs. contact_vertex_ok og s traj v))"
proof -
  let ?n = "length traj"
  let ?k = "card (set (contact_names traj))"
  let ?p0 = "start_pass ?n (count_trajectories traj) s"
  note start = start_pass_simps(3)[of s ?n "count_trajectories traj"]
  have style0: "contact_style_property (disp ?p0) = LINES"
    using style start by (simp add: same_settings_def)
  then have style0': "contact_style_property (disp ?p0) \<noteq> POINTS" by simp
  have ok0: "tracks_ok ?p0" by (simp add: tracks_ok_def start_pass_simps)
  have rank0: "map_of (contact_traj_id ?p0) = first_seen_rank []" "traj_id ?p0 = card (set [])"
    by (simp_all add: start_pass_simps first_seen_rank_Nil)
  have cmo0: "contact_manual_object (disp ?p0) = replicate (count_trajectories traj) None"
    and created0: "created (disp ?p0) = created s"
    using style by (simp_all add: start_pass_def)
  then have "capacity (disp ?p0) = count_trajectories traj"
    using style0 by (simp add: capacity_def)
  then have cap0: "card (set ([] @ contact_names traj)) \<le> capacity (disp ?p0)"
    by (simp add: count_trajectories_card)
  from contact_loop_total[OF style0' ok0 rank0 cap0, of og ?n 0] obtain p where
    run: "contact_loop og ?n 0 traj ?p0 = Inr p" and ok: "tracks_ok p" by blast
  from contact_loop_rank[OF run rank0] have tid: "traj_id p = ?k" by simp
  from contact_loop_settings[OF run] style0
  have stylep: "contact_style_property (disp p) = LINES" by (simp add: same_settings_def)
  from contact_loop_lengths[OF run] cmo0
  have len: "length (contact_manual_object (disp p)) = ?k"
    by (simp add: count_trajectories_card)
  have "strips_ok og s traj ?n (disp ?p0)" using cmo0 by (simp add: strips_ok_def)
  from contact_loop_strips[OF run start _ this] style0 created0 tid
  have strips: "strips_ok og s traj ?n (disp p)" and created: "created (disp p) = created s + ?k"
    by (simp_all add: start_pass_simps)
  from ok stylep have built: "\<forall>i < traj_id p. i < length (contact_manual_object (disp p)) \<and>
        contact_manual_object (disp p) ! i \<noteq> None"
    by (simp add: tracks_ok_def track_built_def)
  then have "\<forall>i \<in> set [0..<traj_id p]. i < length (contact_manual_object (disp p)) \<and>
        contact_manual_object (disp p) ! i \<noteq> None" by simp
  from end_loop_total[OF this] obtain objs where
    fin: "end_loop [0..<traj_id p] (contact_manual_object (disp p)) = Inr objs" by blast
  note res = end_loop_result[OF fin]
  from run stylep fin en m
  have result: "processContactTrajectory og s = Inr ((disp p)\<lparr>contact_manual_object := objs\<rparr>)"
    by (simp add: processContactTrajectory_def Let_def)
  have "\<forall>obj \<in> set objs.
        \<exists>vs. obj = Some \<lparr>mo_dynamic = True, mo_vertex_estimate = ?n,
                         mo_vertices = vs, mo_ended = True\<rparr> \<and>
             (\<forall>v \<in> set vs. contact_vertex_ok og s traj v)"
  proof
    fix obj assume "obj \<in> set objs"
    then obtain j where j: "j < length objs" "obj = objs ! j" by (auto simp: in_set_conv_nth)
    with res len tid have jk: "j < traj_id p" "j < length (contact_manual_object (disp p))"
      by simp_all
    with built obtain mo where mo: "contact_manual_object (disp p) ! j = Some mo" by auto
    with jk have "Some mo \<in> set (contact_manual_object (disp p))" by (metis nth_mem)
    with strips have sok: "strip_ok og s traj ?n mo" by (simp add: strips_ok_def)
    from res jk mo j have "obj = Some (mo_end mo)" by simp
    moreover from sok have "mo_end mo = \<lparr>mo_dynamic = True, mo_vertex_estimate = ?n,
                         mo_vertices = mo_vertices mo, mo_ended = True\<rparr>"
      by (simp add: strip_ok_def mo_end_def)
    moreover from sok have "\<forall>v \<in> set (mo_vertices mo). contact_vertex_ok og s traj v"
      by (simp add: strip_ok_def)
    ultimately show "\<exists>vs. obj = Some \<lparr>mo_dynamic = True, mo_vertex_estimate = ?n,
                         mo_vertices = vs, mo_ended = True\<rparr> \<and>
             (\<forall>v \<in> set vs. contact_vertex_ok og s traj v)" by blast
  qed
  with result created res len show ?thesis by simp
qed

text \<open>The update of an axes marker, field by field.\<close>

lemma restyle_axes_explicit:
  "restyle_axes alpha scale =
     (\<lambda>a. a\<lparr>ax_x_color := ColourValue (Fin 1) (Fin 0) (Fin 0) alpha,
             ax_y_color := ColourValue (Fin 0) (Fin 1) (Fin 0) alpha,
             ax_z_color := ColourValue (Fin 0) (Fin 0) (Fin 1) alpha,
             ax_visible := True,
             ax_scale := Vector3 scale scale scale\<rparr>)"
  by (rule ext)
     (simp add: restyle_axes_def set_alpha_def getDefaultXColor_def getDefaultYColor_def
        getDefaultZColor_def)

text \<open>
  C8. With billboards or points, a property slot sets the width or radius of every
  drawable that exists to the width property and its colour to the colour property with
  the alpha property, and sets the three colours of every axes marker to red, green and
  blue with the alpha property, its scale to the scale property and makes it visible; the
  points of the lines and of the markers, the number of drawables and the count of
  drawables constructed stay as they are. With lines the slot does nothing before a
  message is received, and after that it runs the processing pass of its group. The centre-of-mass pass constructs a manual
  object that is ended and holds one vertex per step, in the colour of the properties.
  The contact pass constructs one manual object per distinct contact name, each ended,
  estimated at the number of steps, whose vertices have the colour of the properties and
  the transformed position of a contact sample of the message; it does not depend on the
  manual objects held before.
\<close>

theorem property_change:
  "(com_style_property s = BILLBOARDS \<and> com_billboard_line s = Some b \<longrightarrow>
      updateCoMLineProperties og s =
        Inr (s\<lparr>com_billboard_line :=
                 Some (b\<lparr>bl_line_width := com_line_width_property s,
                         bl_points :=
                           map (\<lambda>(p, c).
                                  (p, ColourValue (cr (com_color_property s))
                                        (cg (com_color_property s)) (cb (com_color_property s))
                                        (com_alpha_property s)))
                             (bl_points b)\<rparr>),
               com_axes :=
                 map (\<lambda>a. a\<lparr>ax_x_color := ColourValue (Fin 1) (Fin 0) (Fin 0) (com_alpha_property s),
                             ax_y_color := ColourValue (Fin 0) (Fin 1) (Fin 0) (com_alpha_property s),
                             ax_z_color := ColourValue (Fin 0) (Fin 0) (Fin 1) (com_alpha_property s),
                             ax_visible := True,
                             ax_scale := Vector3 (com_scale_property s) (com_scale_property s)
                                           (com_scale_property s)\<rparr>)
                   (com_axes s)\<rparr>)) \<and>
   (com_style_property s = POINTS \<longrightarrow>
      updateCoMLineProperties og s =
        Inr (s\<lparr>com_points :=
                 map (\<lambda>pv. pv\<lparr>pv_color := ColourValue (cr (com_color_property s))
                                              (cg (com_color_property s)) (cb (com_color_property s))
                                              (com_alpha_property s),
                               pv_radius := com_line_width_property s\<rparr>) (com_points s),
               com_axes :=
                 map (\<lambda>a. a\<lparr>ax_x_color := ColourValue (Fin 1) (Fin 0) (Fin 0) (com_alpha_property s),
                             ax_y_color := ColourValue (Fin 0) (Fin 1) (Fin 0) (com_alpha_property s),
                             ax_z_color := ColourValue (Fin 0) (Fin 0) (Fin 1) (com_alpha_property s),
                             ax_visible := True,
                             ax_scale := Vector3 (com_scale_property s) (com_scale_property s)
                                           (com_scale_property s)\<rparr>)
                   (com_axes s)\<rparr>)) \<and>
   (contact_style_property s = BILLBOARDS \<and> None \<notin> set (contact_billboard_line s) \<longrightarrow>
      updateContactLineProperties og s =
        Inr (s\<lparr>contact_billboard_line :=
                 map (map_option
                        (\<lambda>b. b\<lparr>bl_line_width := contact_line_width_property s,
                                bl_points :=
                                  map (\<lambda>(p, c).
                                         (p, ColourValue (cr (contact_color_property s))
                                               (cg (contact_color_property s))
                                               (cb (contact_color_property s))
                                               (contact_alpha_property s)))
                                    (bl_points b)\<rparr>))
                   (contact_billboard_line s)\<rparr>)) \<and>
   (contact_style_property s = POINTS \<and> None \<notin> set (concat (contact_points s)) \<longrightarrow>
      updateContactLineProperties og s =
        Inr (s\<lparr>contact_points :=
                 map (map (map_option
                        (\<lambda>pv. pv\<lparr>pv_color := ColourValue (cr (contact_color_property s))
                                                (cg (contact_color_property s))
                                                (cb (contact_color_property s))
                                                (contact_alpha_property s),
                                  pv_radius := contact_line_width_property s\<rparr>)))
                   (contact_points s)\<rparr>)) \<and>
   (com_style_property s = LINES \<and> is_info s \<longrightarrow>
      updateCoMLineProperties og s = processCoMTrajectory og s) \<and>
   (contact_style_property s = LINES \<and> is_info s \<longrightarrow>
      updateContactLineProperties og s = processContactTrajectory og s) \<and>
   (com_style_property s = LINES \<and> \<not> is_info s \<longrightarrow> updateCoMLineProperties og s = Inr s) \<and>
   (contact_style_property s = LINES \<and> \<not> is_info s \<longrightarrow>
      updateContactLineProperties og s = Inr s) \<and>
   (com_style_property s = LINES \<and> com_enable s \<and> msg s = Some traj \<and> traj \<noteq> [] \<longrightarrow>
      (\<exists>s'. processCoMTrajectory og s = Inr s' \<and> created s < created s' \<and>
         com_manual_object s' =
           Some \<lparr>mo_dynamic = True, mo_vertex_estimate = length traj,
                 mo_vertices =
                   map (\<lambda>st. (transform_point og (frame_orientation s) (frame_position s)
                                 (sanitize_point (com_position st)),
                               ColourValue (cr (com_color_property s)) (cg (com_color_property s))
                                 (cb (com_color_property s)) (com_alpha_property s))) traj,
                 mo_ended = True\<rparr>)) \<and>
   (contact_style_property s = LINES \<and> contact_enable s \<and> msg s = Some traj \<longrightarrow>
      (\<exists>s'. processContactTrajectory og s = Inr s' \<and>
         created s' = created s + card (set (contact_names traj)) \<and>
         length (contact_manual_object s') = card (set (contact_names traj)) \<and>
         (\<forall>obj \<in> set (contact_manual_object s').
            \<exists>vs. obj = Some \<lparr>mo_dynamic = True, mo_vertex_estimate = length traj,
                             mo_vertices = vs, mo_ended = True\<rparr> \<and>
                 (\<forall>v \<in> set vs.
                    snd v = ColourValue (cr (contact_color_property s))
                              (cg (contact_color_property s)) (cb (contact_color_property s))
                              (contact_alpha_property s) \<and>
                    (\<exists>state \<in> set traj. \<exists>contact \<in> set (contacts state).
                       fst v = transform_point og (frame_orientation s) (frame_position s)
                                 (sanitize_point (contact_position contact))))))) \<and>
   (contact_style_property s = LINES \<and> contact_enable s \<longrightarrow>
      processContactTrajectory og (s\<lparr>contact_manual_object := objs\<rparr>)
        = processContactTrajectory og s)"
proof (intro conjI impI)
  assume "com_style_property s = BILLBOARDS \<and> com_billboard_line s = Some b"
  then show "updateCoMLineProperties og s =
        Inr (s\<lparr>com_billboard_line :=
                 Some (b\<lparr>bl_line_width := com_line_width_property s,
                         bl_points :=
                           map (\<lambda>(p, c).
                                  (p, ColourValue (cr (com_color_property s))
                                        (cg (com_color_property s)) (cb (com_color_property s))
                                        (com_alpha_property s)))
                             (bl_points b)\<rparr>),
               com_axes :=
                 map (\<lambda>a. a\<lparr>ax_x_color := ColourValue (Fin 1) (Fin 0) (Fin 0) (com_alpha_property s),
                             ax_y_color := ColourValue (Fin 0) (Fin 1) (Fin 0) (com_alpha_property s),
                             ax_z_color := ColourValue (Fin 0) (Fin 0) (Fin 1) (com_alpha_property s),
                             ax_visible := True,
                             ax_scale := Vector3 (com_scale_property s) (com_scale_property s)
                                           (com_scale_property s)\<rparr>)
                   (com_axes s)\<rparr>)"
    by (simp add: updateCoMLineProperties_def bl_setColor_def Let_def set_alpha_def
          restyle_axes_explicit)
next
  assume "com_style_property s = POINTS"
  then show "updateCoMLineProperties og s =
        Inr (s\<lparr>com_points :=
                 map (\<lambda>pv. pv\<lparr>pv_color := ColourValue (cr (com_color_property s))
                                              (cg (com_color_property s)) (cb (com_color_property s))
                                              (com_alpha_property s),
                               pv_radius := com_line_width_property s\<rparr>) (com_points s),
               com_axes :=
                 map (\<lambda>a. a\<lparr>ax_x_color := ColourValue (Fin 1) (Fin 0) (Fin 0) (com_alpha_property s),
                             ax_y_color := ColourValue (Fin 0) (Fin 1) (Fin 0) (com_alpha_property s),
                             ax_z_color := ColourValue (Fin 0) (Fin 0) (Fin 1) (com_alpha_property s),
                             ax_visible := True,
                             ax_scale := Vector3 (com_scale_property s) (com_scale_property s)
                                           (com_scale_property s)\<rparr>)
                   (com_axes s)\<rparr>)"
    by (simp add: updateCoMLineProperties_def Let_def set_alpha_def restyle_axes_explicit)
next
  assume "contact_style_property s = BILLBOARDS \<and> None \<notin> set (contact_billboard_line s)"
  then show "updateContactLineProperties og s =
        Inr (s\<lparr>contact_billboard_line :=
                 map (map_option
                        (\<lambda>b. b\<lparr>bl_line_width := contact_line_width_property s,
                                bl_points :=
                                  map (\<lambda>(p, c).
                                         (p, ColourValue (cr (contact_color_property s))
                                               (cg (contact_color_property s))
                                               (cb (contact_color_property s))
                                               (contact_alpha_property s)))
                                    (bl_points b)\<rparr>))
                   (contact_billboard_line s)\<rparr>)"
    by (simp add: updateContactLineProperties_def restyle_lines_all bl_setColor_def Let_def
          set_alpha_def)
next
  assume "contact_style_property s = POINTS \<and> None \<notin> set (concat (contact_points s))"
  then show "updateContactLineProperties og s =
        Inr (s\<lparr>contact_points :=
                 map (map (map_option
                        (\<lambda>pv. pv\<lparr>pv_color := ColourValue (cr (contact_color_property s))
                                                (cg (contact_color_property s))
                                                (cb (contact_color_property s))
                                                (contact_alpha_property s),
                                  pv_radius := contact_line_width_property s\<rparr>)))
                   (contact_points s)\<rparr>)"
    by (simp add: updateContactLineProperties_def restyle_steps_concat Let_def set_alpha_def)
next
  assume "com_style_property s = LINES \<and> is_info s"
  then show "updateCoMLineProperties og s = processCoMTrajectory og s"
    by (simp add: updateCoMLineProperties_def Let_def)
next
  assume "contact_style_property s = LINES \<and> is_info s"
  then show "updateContactLineProperties og s = processContactTrajectory og s"
    by (simp add: updateContactLineProperties_def Let_def)
next
  assume "com_style_property s = LINES \<and> \<not> is_info s"
  then show "updateCoMLineProperties og s = Inr s"
    by (simp add: updateCoMLineProperties_def Let_def)
next
  assume "contact_style_property s = LINES \<and> \<not> is_info s"
  then show "updateContactLineProperties og s = Inr s"
    by (simp add: updateContactLineProperties_def Let_def)
next
  assume "com_style_property s = LINES \<and> com_enable s \<and> msg s = Some traj \<and> traj \<noteq> []"
  then have "\<exists>s'. processCoMTrajectory og s = Inr s' \<and> created s < created s' \<and>
         com_manual_object s' =
           Some \<lparr>mo_dynamic = True, mo_vertex_estimate = length traj,
                 mo_vertices =
                   map (\<lambda>st. (transform_point og (frame_orientation s) (frame_position s)
                                 (sanitize_point (com_position st)),
                               set_alpha (com_alpha_property s) (com_color_property s))) traj,
                 mo_ended = True\<rparr>"
    by (blast intro: processCoMTrajectory_lines)
  then show "\<exists>s'. processCoMTrajectory og s = Inr s' \<and> created s < created s' \<and>
         com_manual_object s' =
           Some \<lparr>mo_dynamic = True, mo_vertex_estimate = length traj,
                 mo_vertices =
                   map (\<lambda>st. (transform_point og (frame_orientation s) (frame_position s)
                                 (sanitize_point (com_position st)),
                               ColourValue (cr (com_color_property s)) (cg (com_color_property s))
                                 (cb (com_color_property s)) (com_alpha_property s))) traj,
                 mo_ended = True\<rparr>"
    by (simp add: set_alpha_def)
next
  assume "contact_style_property s = LINES \<and> contact_enable s \<and> msg s = Some traj"
  then have "\<exists>s'. processContactTrajectory og s = Inr s' \<and>
     created s' = created s + card (set (contact_names traj)) \<and>
     length (contact_manual_object s') = card (set (contact_names traj)) \<and>
     (\<forall>obj \<in> set (contact_manual_object s').
        \<exists>vs. obj = Some \<lparr>mo_dynamic = True, mo_vertex_estimate = length traj,
                         mo_vertices = vs, mo_ended = True\<rparr> \<and>
             (\<forall>v \<in> set vs. contact_vertex_ok og s traj v))"
    by (blast intro: processContactTrajectory_lines)
  then show "\<exists>s'. processContactTrajectory og s = Inr s' \<and>
         created s' = created s + card (set (contact_names traj)) \<and>
         length (contact_manual_object s') = card (set (contact_names traj)) \<and>
         (\<forall>obj \<in> set (contact_manual_object s').
            \<exists>vs. obj = Some \<lparr>mo_dynamic = True, mo_vertex_estimate = length traj,
                             mo_vertices = vs, mo_ended = True\<rparr> \<and>
                 (\<forall>v \<in> set vs.
                    snd v = ColourValue (cr (contact_color_property s))
                              (cg (contact_color_property s)) (cb (contact_color_property s))
                              (contact_alpha_property s) \<and>
                    (\<exists>state \<in> set traj. \<exists>contact \<in> set (contacts state).
                       fst v = transform_point og (frame_orientation s) (frame_position s)
                                 (sanitize_point (contact_position contact)))))"
    unfolding contact_vertex_ok_def set_alpha_def .
next
  assume "contact_style_property s = LINES \<and> contact_enable s"
  then show "processContactTrajectory og (s\<lparr>contact_manual_object := objs\<rparr>)
        = processContactTrajectory og s"
    by (blast intro: processContactTrajectory_discards_lines)
qed

theorem property_change_witness:
  "com_style_property (restyle drawn_billboards) = BILLBOARDS \<and>
   com_billboard_line (restyle drawn_billboards)
     = Some \<lparr>bl_num_lines = 1, bl_max_points_per_line = 2, bl_line_width = Fin (1 / 100),
             bl_points = [(point 0 0 0, com_blue), (point 0 0 1, com_blue)]\<rparr> \<and>
   contact_style_property (restyle drawn_billboards) = BILLBOARDS \<and>
   None \<notin> set (contact_billboard_line (restyle drawn_billboards)) \<and>
   com_style_property (restyle drawn_points) = POINTS \<and>
   contact_style_property (restyle drawn_points) = POINTS \<and>
   None \<notin> set (concat (contact_points (restyle drawn_points))) \<and>
   com_style_property (restyle drawn_lines) = LINES \<and>
   contact_style_property (restyle drawn_lines) = LINES \<and>
   is_info (restyle drawn_lines) \<and> com_enable (restyle drawn_lines) \<and>
   contact_enable (restyle drawn_lines) \<and>
   msg (restyle drawn_lines) = Some both_feet \<and> both_feet \<noteq> [] \<and>
   com_style_property (restyle (fresh_display LINES)) = LINES \<and>
   contact_style_property (restyle (fresh_display LINES)) = LINES \<and>
   \<not> is_info (restyle (fresh_display LINES)) \<and>
   updateCoMLineProperties ogre_exact (restyle (fresh_display LINES))
     = Inr (restyle (fresh_display LINES)) \<and>
   updateContactLineProperties ogre_exact (restyle (fresh_display LINES))
     = Inr (restyle (fresh_display LINES)) \<and>
   com_drawables (restyle drawn_billboards)
     = (4, Some \<lparr>bl_num_lines = 1, bl_max_points_per_line = 2, bl_line_width = Fin (1 / 100),
                  bl_points = [(point 0 0 0, com_blue), (point 0 0 1, com_blue)]\<rparr>,
        None, [], [new_Axes (point 0 0 1) identity_orientation (Fin 1) (Fin 1)]) \<and>
   map_sum id com_drawables (updateCoMLineProperties ogre_exact (restyle drawn_billboards))
     = Inr (4, Some \<lparr>bl_num_lines = 1, bl_max_points_per_line = 2, bl_line_width = Fin (2 / 100),
                      bl_points = [(point 0 0 0, com_orange), (point 0 0 1, com_orange)]\<rparr>,
            None, [], [restyled_axes (point 0 0 1)]) \<and>
   map_sum id contact_drawables (updateContactLineProperties ogre_exact (restyle drawn_billboards))
     = Inr (4, [Some \<lparr>bl_num_lines = 1, bl_max_points_per_line = 2, bl_line_width = Fin (3 / 100),
                       bl_points = [(point 1 0 0, contact_green), (point 1 0 1, contact_green)]\<rparr>,
                Some \<lparr>bl_num_lines = 1, bl_max_points_per_line = 2, bl_line_width = Fin (3 / 100),
                       bl_points = [(point 2 0 0, contact_green), (point 2 0 1, contact_green)]\<rparr>],
            [], []) \<and>
   created (restyle drawn_points) = 7 \<and>
   map_sum id com_drawables (updateCoMLineProperties ogre_exact (restyle drawn_points))
     = Inr (7, None, None,
            [restyled_marker com_orange (Fin (2 / 100)) (point 0 0 0),
             restyled_marker com_orange (Fin (2 / 100)) (point 0 0 1)],
            [restyled_axes (point 0 0 1)]) \<and>
   map_sum id contact_drawables (updateContactLineProperties ogre_exact (restyle drawn_points))
     = Inr (7, [], [],
            [[Some (restyled_marker contact_green (Fin (3 / 100)) (point 1 0 0)),
              Some (restyled_marker contact_green (Fin (3 / 100)) (point 2 0 0))],
             [Some (restyled_marker contact_green (Fin (3 / 100)) (point 1 0 1)),
              Some (restyled_marker contact_green (Fin (3 / 100)) (point 2 0 1))]]) \<and>
   created (restyle drawn_lines) = 4 \<and>
   map_sum id com_drawables (updateCoMLineProperties ogre_exact (restyle drawn_lines))
     = Inr (7, None,
            Some \<lparr>mo_dynamic = True, mo_vertex_estimate = 2,
                  mo_vertices = [(point 0 0 0, com_orange), (point 0 0 1, com_orange)],
                  mo_ended = True\<rparr>,
            [], [restyled_axes (point 0 0 0), restyled_axes (point 0 0 1)]) \<and>
   map_sum id contact_drawables (updateContactLineProperties ogre_exact (restyle drawn_lines))
     = Inr (6, [],
            [Some \<lparr>mo_dynamic = True, mo_vertex_estimate = 2,
                   mo_vertices = [(point 1 0 0, contact_green), (point 1 0 1, contact_green)],
                   mo_ended = True\<rparr>,
             Some \<lparr>mo_dynamic = True, mo_vertex_estimate = 2,
                   mo_vertices = [(point 2 0 0, contact_green), (point 2 0 1, contact_green)],
                   mo_ended = True\<rparr>],
            []) \<and>
   processContactTrajectory ogre_exact ((restyle drawn_lines)\<lparr>contact_manual_object := []\<rparr>)
     = processContactTrajectory ogre_exact (restyle drawn_lines)"
  using property_change
      [where s = "restyle drawn_billboards" and og = ogre_exact and traj = both_feet
         and objs = "[]"
         and b = "\<lparr>bl_num_lines = 1, bl_max_points_per_line = 2, bl_line_width = Fin (1 / 100),
             bl_points = [(point 0 0 0, com_blue), (point 0 0 1, com_blue)]\<rparr>"]
    property_change
      [where s = "restyle drawn_points" and og = ogre_exact and traj = both_feet
         and objs = "[]"
         and b = "\<lparr>bl_num_lines = 1, bl_max_points_per_line = 2, bl_line_width = Fin (1 / 100),
             bl_points = [(point 0 0 0, com_blue), (point 0 0 1, com_blue)]\<rparr>"]
    property_change
      [where s = "restyle (fresh_display LINES)" and og = ogre_exact and traj = both_feet
         and objs = "[]"
         and b = "\<lparr>bl_num_lines = 1, bl_max_points_per_line = 2, bl_line_width = Fin (1 / 100),
             bl_points = [(point 0 0 0, com_blue), (point 0 0 1, com_blue)]\<rparr>"]
    property_change
      [where s = "restyle drawn_lines" and og = ogre_exact and traj = both_feet
         and objs = "[]"
         and b = "\<lparr>bl_num_lines = 1, bl_max_points_per_line = 2, bl_line_width = Fin (1 / 100),
             bl_points = [(point 0 0 0, com_blue), (point 0 0 1, com_blue)]\<rparr>"]
  by (simp add: run_defs example_defs drawn_defs restyled_defs float_defs upt_rec
        updateCoMLineProperties_def updateContactLineProperties_def bl_setColor_def
        restyle_axes_def getDefaultXColor_def getDefaultYColor_def getDefaultZColor_def
        contact_names_def card_insert_if)

end
